(* ===== verification/Locc_Prelude.thy ===== *)
theory Locc_Prelude
  imports Main "HOL-Library.Word" "HOL-Library.Monad_Syntax"
begin

unbundle bit_operations_syntax

section \<open>Prelude: widths, bits, characters and runs\<close>

text \<open>
  What every component of the development shares.

  \<^item> The C integer types of the AVR build as words (\<open>char\<close> is unsigned: the build passes
    \<^verbatim>\<open>-funsigned-char\<close>, and \<open>int\<close> has 16 bits).
  \<^item> The read-modify-write idioms \<^verbatim>\<open>R |= (1 << n)\<close> and \<^verbatim>\<open>R &= ~(1 << n)\<close> as \<open>sbi\<close> and \<open>cbi\<close>,
    with their effect on every bit.
  \<^item> Character constants as bytes.
  \<^item> \<open>step_system\<close>: the contract of a component whose operations all keep an invariant; runs of
    such a component keep it too. \<open>step_relation\<close>: the same for a step relation.
\<close>

named_theorems reg_simps \<open>effect of the register idioms on single bits\<close>
named_theorems ch_simps \<open>character constants as numerals\<close>

type_synonym u8 = "8 word"
type_synonym u16 = "16 word"
type_synonym u32 = "32 word"

definition sbi :: "nat \<Rightarrow> u8 \<Rightarrow> u8" where
  "sbi n w = w OR push_bit n 1"

definition cbi :: "nat \<Rightarrow> u8 \<Rightarrow> u8" where
  "cbi n w = w AND NOT (push_bit n 1)"

definition ch :: "char \<Rightarrow> u8" where
  "ch c = of_char c"

subsection \<open>Bits of words\<close>

lemma bit_sbi [reg_simps]: "bit (sbi n w) m \<longleftrightarrow> bit w m \<or> (m = n \<and> n < 8)"
  by (auto simp: sbi_def bit_simps)

lemma bit_cbi [reg_simps]: "bit (cbi n w) m \<longleftrightarrow> bit w m \<and> m \<noteq> n"
  by (auto simp: cbi_def bit_simps dest: bit_imp_le_length)

lemma word8_eqI: "(\<And>n. n < 8 \<Longrightarrow> bit (a :: u8) n = bit b n) \<Longrightarrow> a = b"
  by (rule bit_word_eqI) simp

lemma cbi_sbi: "cbi n (sbi n w) = cbi n w"
  by (rule word8_eqI) (auto simp: reg_simps)

lemma sbi_idem [simp]: "sbi n (sbi n w) = sbi n w"
  by (rule word8_eqI) (auto simp: reg_simps)

lemma cbi_idem [simp]: "cbi n (cbi n w) = cbi n w"
  by (rule word8_eqI) (auto simp: reg_simps)

lemma sbi_cbi_commute: "m \<noteq> n \<Longrightarrow> sbi m (cbi n w) = cbi n (sbi m w)"
  by (rule word8_eqI) (auto simp: reg_simps)

lemma and_push_bit_1: "(w AND push_bit i 1 \<noteq> (0 :: 'a::len word)) = bit w i"
  by (simp add: push_bit_of_1 and_exp_eq_0_iff_not_bit)

lemma u8_lt_4: "(x :: u8) < 4 \<longleftrightarrow> x = 0 \<or> x = 1 \<or> x = 2 \<or> x = 3"
  by unat_arith

lemma u8_and_3: "(b :: u8) AND 3 = 0 \<or> b AND 3 = 1 \<or> b AND 3 = 2 \<or> b AND 3 = 3"
proof -
  have "b AND 3 = take_bit 2 b" by (simp add: take_bit_eq_mask mask_eq_exp_minus_1)
  then have "unat (b AND 3) < 4" by (simp add: take_bit_eq_mod unat_mod_distrib)
  then have "b AND 3 < 4" by (simp add: word_less_nat_alt)
  then show ?thesis by (simp add: u8_lt_4)
qed

lemma unat_succ: "p < q \<Longrightarrow> unat (p + 1) = Suc (unat p)" for p q :: "'a::len word"
proof -
  assume "p < q"
  then have "Suc (unat p) < 2 ^ LENGTH('a)"
    unfolding word_less_nat_alt by (meson Suc_leI order_le_less_trans unsigned_less)
  then show ?thesis by (simp add: unat_word_ariths)
qed

lemma mod_add_inj: "i < n \<Longrightarrow> j < n \<Longrightarrow> (a + i) mod n = (a + j) mod n \<longleftrightarrow> i = j" for a i j n :: nat
proof -
  have neq: "(a + j) mod n \<noteq> (a + i) mod n" if "i < j" "j < n" for i j
    using that mod_eq_dvd_iff_nat [of "a + i" "a + j" n] by (auto dest: dvd_imp_le)
  assume "i < n" "j < n"
  then show ?thesis using neq [of i j] neq [of j i] by (metis nat_neq_iff)
qed

lemma last_sorted_Max: "sorted xs \<Longrightarrow> xs \<noteq> [] \<Longrightarrow> last xs = Max (set xs)"
  for xs :: "'a::linorder list"
  by (induction xs) (auto simp: max_def intro!: antisym)

lemma word_pred_lt: "w \<noteq> 0 \<Longrightarrow> unat (w - 1 :: 'a::len word) < unat w"
  by (metis measure_unat)

lemma unat_pred: "w \<noteq> 0 \<Longrightarrow> unat (w - 1 :: 'a::len word) = unat w - 1"
  by (simp add: unat_minus_one)

subsection \<open>Character constants\<close>

lemma ch_numerals [ch_simps]:
  "ch (CHR 0x0A) = 0x0A" "ch (CHR 0x0D) = 0x0D" "ch (CHR ''0'') = 0x30"
  "ch (CHR ''o'') = 0x6F" "ch (CHR ''l'') = 0x6C" "ch (CHR ''h'') = 0x68" "ch (CHR ''i'') = 0x69"
  "ch (CHR ''H'') = 0x48" "ch (CHR ''O'') = 0x4F" "ch (CHR ''A'') = 0x41" "ch (CHR ''.'') = 0x2E"
  by (simp_all add: ch_def)

subsection \<open>Runs of a component\<close>

text \<open>
  A component is driven by events: each event is one call of an operation with its arguments
  and inputs. A run is the fold of the step function over the events.
\<close>

definition run :: "('e \<Rightarrow> 's \<Rightarrow> 's) \<Rightarrow> 'e list \<Rightarrow> 's \<Rightarrow> 's" where
  "run step es s = fold step es s"

lemma run_Nil [simp]: "run step [] s = s"
  by (simp add: run_def)

lemma run_Cons [simp]: "run step (e # es) s = run step es (step e s)"
  by (simp add: run_def)

lemma run_append [simp]: "run step (es @ fs) s = run step fs (run step es s)"
  by (simp add: run_def)

locale step_system =
  fixes step :: "'e \<Rightarrow> 's \<Rightarrow> 's"
    and inv :: "'s \<Rightarrow> bool"
  assumes inv_step: "inv s \<Longrightarrow> inv (step e s)"
begin

lemma inv_run: "inv s \<Longrightarrow> inv (run step es s)"
  by (induction es arbitrary: s) (auto intro: inv_step)

end

text \<open>The same for a step relation; a system of operations gives one.\<close>

locale step_relation =
  fixes rel :: "'s \<Rightarrow> 's \<Rightarrow> bool"
    and rinv :: "'s \<Rightarrow> bool"
  assumes inv_rel: "rel s s' \<Longrightarrow> rinv s \<Longrightarrow> rinv s'"
begin

lemma inv_reachable: "rel\<^sup>*\<^sup>* s s' \<Longrightarrow> rinv s \<Longrightarrow> rinv s'"
  by (induction rule: rtranclp_induct) (auto intro: inv_rel)

end

sublocale step_system \<subseteq> rel: step_relation "\<lambda>s s'. \<exists>e. s' = step e s" inv
  by unfold_locales (auto intro: inv_step)

end
