(* ===== verification/Lufa_Common.thy ===== *)
theory Lufa_Common
  imports Locc_Prelude
begin

section \<open>Byte order, bit order and the interrupt mask: Common.h and Endianness.h\<close>

text \<open>
  The helpers of LUFA's \<^verbatim>\<open>Common\<close> directory for the AVR8 build. A union of an integer and its bytes
  is the little-endian list of its bytes (\<open>bytes16\<close>, \<open>bytes32\<close> and back). \<^verbatim>\<open>SwapEndian_n\<close> works on the
  memory behind a pointer, a function from offsets to bytes. The status register \<^verbatim>\<open>SREG\<close> with the
  global interrupt flag in bit 7 is the record \<open>cpu\<close>, which the components with critical sections
  extend; \<open>store\<close> adds the data memory.
\<close>

record cpu =
  SREG :: u8

record store = cpu +
  mem :: "u16 \<Rightarrow> u8"

definition SREG_I :: nat where
  "SREG_I = 7"

definition GetGlobalInterruptMask :: "'a cpu_scheme \<Rightarrow> u8" where
  "GetGlobalInterruptMask s = SREG s"

definition SetGlobalInterruptMask :: "u8 \<Rightarrow> 'a cpu_scheme \<Rightarrow> 'a cpu_scheme" where
  "SetGlobalInterruptMask GlobalIntState s = s\<lparr>SREG := GlobalIntState\<rparr>"

definition GlobalInterruptEnable :: "'a cpu_scheme \<Rightarrow> 'a cpu_scheme" where
  "GlobalInterruptEnable s = s\<lparr>SREG := sbi SREG_I (SREG s)\<rparr>"

definition GlobalInterruptDisable :: "'a cpu_scheme \<Rightarrow> 'a cpu_scheme" where
  "GlobalInterruptDisable s = s\<lparr>SREG := cbi SREG_I (SREG s)\<rparr>"

definition BitReverse :: "u8 \<Rightarrow> u8" where
  "BitReverse Byte =
     (let Byte = drop_bit 4 (Byte AND 0xF0) OR push_bit 4 (Byte AND 0x0F);
          Byte = drop_bit 2 (Byte AND 0xCC) OR push_bit 2 (Byte AND 0x33)
      in drop_bit 1 (Byte AND 0xAA) OR push_bit 1 (Byte AND 0x55))"

definition bytes16 :: "u16 \<Rightarrow> u8 list" where
  "bytes16 w = [ucast w, ucast (drop_bit 8 w)]"

definition word16 :: "u8 list \<Rightarrow> u16" where
  "word16 bs = ucast (bs ! 0) OR push_bit 8 (ucast (bs ! 1))"

definition bytes32 :: "u32 \<Rightarrow> u8 list" where
  "bytes32 w = [ucast w, ucast (drop_bit 8 w), ucast (drop_bit 16 w), ucast (drop_bit 24 w)]"

definition word32 :: "u8 list \<Rightarrow> u32" where
  "word32 bs = ucast (bs ! 0) OR push_bit 8 (ucast (bs ! 1)) OR push_bit 16 (ucast (bs ! 2))
     OR push_bit 24 (ucast (bs ! 3))"

definition SWAPENDIAN_16 :: "u16 \<Rightarrow> u16" where
  "SWAPENDIAN_16 x = drop_bit 8 (x AND 0xFF00) OR push_bit 8 (x AND 0x00FF)"

definition SWAPENDIAN_32 :: "u32 \<Rightarrow> u32" where
  "SWAPENDIAN_32 x =
     drop_bit 24 (x AND 0xFF000000) OR drop_bit 8 (x AND 0x00FF0000)
     OR push_bit 8 (x AND 0x0000FF00) OR push_bit 24 (x AND 0x000000FF)"

text \<open>The branch for a value that is not a compile-time constant.\<close>

definition SwapEndian_16 :: "u16 \<Rightarrow> u16" where
  "SwapEndian_16 Word =
     (let Bytes = bytes16 Word;
          Temp = Bytes ! 0;
          Bytes = Bytes[0 := Bytes ! 1];
          Bytes = Bytes[1 := Temp]
      in word16 Bytes)"

definition SwapEndian_32 :: "u32 \<Rightarrow> u32" where
  "SwapEndian_32 DWord =
     (let Bytes = bytes32 DWord;
          Temp = Bytes ! 0;
          Bytes = Bytes[0 := Bytes ! 3];
          Bytes = Bytes[3 := Temp];
          Temp = Bytes ! 1;
          Bytes = Bytes[1 := Bytes ! 2];
          Bytes = Bytes[2 := Temp]
      in word32 Bytes)"

function SwapEndian_n_loop :: "nat \<Rightarrow> u8 \<Rightarrow> (nat \<Rightarrow> u8) \<Rightarrow> (nat \<Rightarrow> u8)" where
  "SwapEndian_n_loop CurrDataPos Length Data =
     (if Length > 1 then
        (let Temp = Data CurrDataPos;
             Data = Data(CurrDataPos := Data (CurrDataPos + unat Length - 1));
             Data = Data(CurrDataPos + unat Length - 1 := Temp)
         in SwapEndian_n_loop (CurrDataPos + 1) (Length - 2) Data)
      else Data)"
  by pat_completeness auto
termination
proof (relation "measure (\<lambda>(p, n, d). unat n)", simp)
  fix p and n :: u8 and d x xa xb
  assume "1 < n"
  then have "unat (n - 2) < unat n" by unat_arith
  then show "((p + 1, n - 2, xb), p, n, d) \<in> measure (\<lambda>(p, n, d). unat n)" by simp
qed

declare SwapEndian_n_loop.simps [simp del]

definition SwapEndian_n :: "(nat \<Rightarrow> u8) \<Rightarrow> u8 \<Rightarrow> (nat \<Rightarrow> u8)" where
  "SwapEndian_n Data Length = SwapEndian_n_loop 0 Length Data"

subsection \<open>Lemmas\<close>

lemma length_bytes [simp]: "length (bytes16 w) = 2" "length (bytes32 v) = 4"
  by (simp_all add: bytes16_def bytes32_def)

lemma u8_high_bits [simp]: "\<not> bit (w :: u8) (8 + n)" "\<not> bit (w :: u8) (16 + n)" "\<not> bit (w :: u8) (24 + n)"
  by (auto dest: bit_imp_le_length)

lemma word16_bytes16 [simp]: "word16 (bytes16 w) = w"
  by (rule bit_word_eqI) (auto simp: word16_def bytes16_def bit_simps)

lemma bytes16_word16 [simp]: "bytes16 (word16 [a, b]) = [a, b]"
  by (auto simp: word16_def bytes16_def bit_simps intro!: bit_word_eqI)

lemma word32_bytes32 [simp]: "word32 (bytes32 w) = w"
proof (rule bit_word_eqI)
  fix n assume "n < LENGTH(32)"
  then consider "n < 8" | "8 \<le> n" "n < 16" | "16 \<le> n" "n < 24" | "24 \<le> n" "n < 32" by fastforce
  then show "bit (word32 (bytes32 w)) n = bit w n"
    by cases (auto simp: word32_def bytes32_def bit_simps)
qed

lemma bytes32_word32 [simp]: "bytes32 (word32 [a, b, c, d]) = [a, b, c, d]"
  by (auto simp: word32_def bytes32_def bit_simps intro!: bit_word_eqI)

lemma SwapEndian_16_eq: "SwapEndian_16 w = word16 (rev (bytes16 w))"
  by (simp add: SwapEndian_16_def bytes16_def Let_def)

lemma SwapEndian_32_eq: "SwapEndian_32 w = word32 (rev (bytes32 w))"
  by (simp add: SwapEndian_32_def bytes32_def Let_def numeral_3_eq_3 numeral_2_eq_2)

lemma SWAPENDIAN_16_eq: "SWAPENDIAN_16 w = word16 (rev (bytes16 w))"
proof (rule bit_word_eqI)
  fix n assume n: "n < LENGTH(16)"
  have m: "(0xFF00 :: u16) = push_bit 8 (mask 8)" "(0x00FF :: u16) = mask 8"
    by (simp_all add: mask_eq_exp_minus_1)
  from n consider "n < 8" | "8 \<le> n" "n < 16" by fastforce
  then show "bit (SWAPENDIAN_16 w) n = bit (word16 (rev (bytes16 w))) n"
    unfolding SWAPENDIAN_16_def m word16_def bytes16_def
    by cases (simp_all add: bit_simps, auto)
qed

lemma BitReverse_bit: "n < 8 \<Longrightarrow> bit (BitReverse b) n = bit b (7 - n)"
proof -
  assume "n < 8"
  then consider "n = 0" | "n = 1" | "n = 2" | "n = 3" | "n = 4" | "n = 5" | "n = 6" | "n = 7" by linarith
  then show ?thesis
    unfolding BitReverse_def Let_def bit_or_iff bit_and_iff bit_push_bit_iff bit_drop_bit_eq
    by cases simp_all
qed

lemma SwapEndian_n_loop_eq:
  "SwapEndian_n_loop p n d = (\<lambda>i. if p \<le> i \<and> i < p + unat n then d (p + (p + unat n) - 1 - i) else d i)"
proof (induction p n d rule: SwapEndian_n_loop.induct)
  case (1 p n d)
  show ?case
  proof (cases "n > 1")
    case False
    then have "unat n \<le> 1" by unat_arith
    with False show ?thesis by (subst SwapEndian_n_loop.simps) (auto intro!: ext arg_cong [of _ _ d])
  next
    case True
    then have n: "2 \<le> unat n" "unat (n - 2) = unat n - 2" by unat_arith+
    show ?thesis
      unfolding SwapEndian_n_loop.simps [of p n d] Let_def if_P [OF True] 1 [OF True refl refl refl]
      using n by (auto intro!: ext arg_cong [of _ _ d])
  qed
qed

lemma SWAPENDIAN_32_eq: "SWAPENDIAN_32 w = word32 (rev (bytes32 w))"
proof (rule bit_word_eqI)
  fix n assume n: "n < LENGTH(32)"
  have m: "(0xFF000000 :: u32) = push_bit 24 (mask 8)" "(0x00FF0000 :: u32) = push_bit 16 (mask 8)"
    "(0x0000FF00 :: u32) = push_bit 8 (mask 8)" "(0x000000FF :: u32) = mask 8"
    by (simp_all add: mask_eq_exp_minus_1)
  from n consider "n < 8" | "8 \<le> n" "n < 16" | "16 \<le> n" "n < 24" | "24 \<le> n" "n < 32" by fastforce
  then show "bit (SWAPENDIAN_32 w) n = bit (word32 (rev (bytes32 w))) n"
    unfolding SWAPENDIAN_32_def m word32_def bytes32_def
    by cases (simp_all add: bit_simps, auto)
qed

text \<open>A critical section that saves the mask, disables interrupts and restores the mask leaves \<^verbatim>\<open>SREG\<close> alone.\<close>

lemma critical_section [simp]:
  "SetGlobalInterruptMask (GetGlobalInterruptMask s) (GlobalInterruptDisable s) = s"
  by (simp add: SetGlobalInterruptMask_def GetGlobalInterruptMask_def GlobalInterruptDisable_def)

subsection \<open>Properties\<close>

text \<open>
  Byte and bit order. The run-time functions and the macros reverse the bytes of a 16-bit and of a
  32-bit value, applying them twice gives the value back, \<^verbatim>\<open>SwapEndian_n\<close> reverses the first
  \<^verbatim>\<open>Length\<close> bytes of any memory and changes nothing else, and \<^verbatim>\<open>BitReverse\<close> mirrors a byte.
\<close>

theorem swap_endian_correct:
  "SwapEndian_16 w = word16 (rev (bytes16 w)) \<and> SWAPENDIAN_16 w = SwapEndian_16 w
   \<and> SwapEndian_16 (SwapEndian_16 w) = w
   \<and> SwapEndian_32 v = word32 (rev (bytes32 v)) \<and> SWAPENDIAN_32 v = SwapEndian_32 v
   \<and> SwapEndian_32 (SwapEndian_32 v) = v
   \<and> map (SwapEndian_n Data Length) [0..<unat Length] = rev (map Data [0..<unat Length])
   \<and> SwapEndian_n Data Length (unat Length + i) = Data (unat Length + i)
   \<and> map (bit (BitReverse b)) [0..<8] = rev (map (bit b) [0..<8]) \<and> BitReverse (BitReverse b) = b"
proof (intro conjI)
  show "SwapEndian_16 w = word16 (rev (bytes16 w))" by (rule SwapEndian_16_eq)
  show "SWAPENDIAN_16 w = SwapEndian_16 w" by (simp add: SWAPENDIAN_16_eq SwapEndian_16_eq)
  show "SwapEndian_16 (SwapEndian_16 w) = w"
    using word16_bytes16 [of w] by (simp add: SwapEndian_16_eq bytes16_def [of w])
  show "SwapEndian_32 v = word32 (rev (bytes32 v))" by (rule SwapEndian_32_eq)
  show "SWAPENDIAN_32 v = SwapEndian_32 v" by (simp add: SWAPENDIAN_32_eq SwapEndian_32_eq)
  show "SwapEndian_32 (SwapEndian_32 v) = v"
    using word32_bytes32 [of v] by (simp add: SwapEndian_32_eq bytes32_def [of v])
  show "map (SwapEndian_n Data Length) [0..<unat Length] = rev (map Data [0..<unat Length])"
    by (rule nth_equalityI) (simp_all add: SwapEndian_n_def SwapEndian_n_loop_eq rev_nth)
  show "SwapEndian_n Data Length (unat Length + i) = Data (unat Length + i)"
    by (simp add: SwapEndian_n_def SwapEndian_n_loop_eq)
  show "map (bit (BitReverse b)) [0..<8] = rev (map (bit b) [0..<8])"
    by (rule nth_equalityI) (simp_all add: BitReverse_bit rev_nth)
  show "BitReverse (BitReverse b) = b"
    by (rule word8_eqI) (simp add: BitReverse_bit)
qed

end
