(* ===== verification/Usb_Io.thy ===== *)
theory Usb_Io
  imports Lufa_Common
begin

section \<open>The USB controller seen from the program: registers, accesses and globals\<close>

text \<open>
  The USB registers of the ATmega8U2 are volatile: what a read returns depends on the hardware,
  on the host and on everything the program did before. A run of the driver is therefore a history
  of register accesses (\<open>io\<close>, newest first), and the controller with the host behind it is a
  parameter of every definition that reads a register, the function \<open>env\<close> from the history and the
  register to the value read. \<open>rd\<close> and \<open>wr\<close> are one access each; \<open>set_bit_io\<close>, \<open>clear_bit_io\<close> and
  \<open>clear_mask_io\<close> are the read-modify-write idioms of the driver, two accesses each.

  The record \<open>usb_dev\<close> holds the globals of the USB side of the image: memory and EEPROM (the latter
  and the program flash are address spaces of their own), the request being served, the
  configuration, the CDC interface of the application. The device state \<^verbatim>\<open>USB_DeviceState\<close> is the
  register \<^verbatim>\<open>GPIOR0\<close> (\<^verbatim>\<open>DEVICE_STATE_AS_GPIOR\<close>), which the interrupt handler changes behind the
  program's back, so it is read through \<open>env\<close> like the other registers.
\<close>

datatype reg =
    UENUM | UERST | UECONX | UECFG0X | UECFG1X | UESTA0X | UEINTX | UEINT | UEIENX | UEDATX | UEBCLX
  | UDADDR | UDCON | UDIEN | UDINT | UDFNUML | UDFNUMH | USBCON | PLLCSR | REGCR | GPIOR0 | SPSR

datatype io = Rd reg u8 | Wr reg u8

type_synonym env = "io list \<Rightarrow> reg \<Rightarrow> u8"

record USB_Request_Header_t =
  bmRequestType :: u8
  bRequest :: u8
  wValue :: u16
  wIndex :: u16
  wLength :: u16

record USB_Endpoint_Table_t =
  epAddress :: u8
  epSize :: u16
  epType :: u8
  epBanks :: u8

record CDC_LineEncoding_t =
  BaudRateBPS :: u32
  CharFormat :: u8
  ParityType :: u8
  DataBits :: u8

record USB_ClassInfo_CDC_Device_t =
  ControlInterfaceNumber :: u8
  DataINEndpoint :: USB_Endpoint_Table_t
  DataOUTEndpoint :: USB_Endpoint_Table_t
  NotificationEndpoint :: USB_Endpoint_Table_t
  HostToDevice :: u16
  DeviceToHost :: u16
  LineEncoding :: CDC_LineEncoding_t

record usb_dev = store +
  flash :: "u16 \<Rightarrow> u8"
  eeprom :: "u16 \<Rightarrow> u8"
  hist :: "io list"
  USB_ControlRequest :: USB_Request_Header_t
  USB_IsInitialized :: bool
  USB_Device_ConfigurationNumber :: u8
  USB_Device_CurrentlySelfPowered :: bool
  USB_Device_RemoteWakeupEnabled :: bool
  VirtualSerial_CDC_Interface :: USB_ClassInfo_CDC_Device_t

text \<open>The globals as the start-up code leaves them: zero, the memories too.\<close>

definition zero_cdc :: USB_ClassInfo_CDC_Device_t where
  "zero_cdc = (let t = \<lparr>epAddress = 0, epSize = 0, epType = 0, epBanks = 0\<rparr>
     in \<lparr>ControlInterfaceNumber = 0, DataINEndpoint = t, DataOUTEndpoint = t, NotificationEndpoint = t,
         HostToDevice = 0, DeviceToHost = 0,
         LineEncoding = \<lparr>BaudRateBPS = 0, CharFormat = 0, ParityType = 0, DataBits = 0\<rparr>\<rparr>)"

definition zero_dev :: usb_dev where
  "zero_dev = \<lparr>SREG = 0, mem = (\<lambda>_. 0), flash = (\<lambda>_. 0), eeprom = (\<lambda>_. 0), hist = [],
     USB_ControlRequest = \<lparr>bmRequestType = 0, bRequest = 0, wValue = 0, wIndex = 0, wLength = 0\<rparr>,
     USB_IsInitialized = False, USB_Device_ConfigurationNumber = 0, USB_Device_CurrentlySelfPowered = False,
     USB_Device_RemoteWakeupEnabled = False, VirtualSerial_CDC_Interface = zero_cdc\<rparr>"

subsection \<open>Bit numbers and constants\<close>

abbreviation (input) TXINI :: nat where "TXINI \<equiv> 0"
abbreviation (input) RXOUTI :: nat where "RXOUTI \<equiv> 2"
abbreviation (input) RXSTPI :: nat where "RXSTPI \<equiv> 3"
abbreviation (input) RWAL :: nat where "RWAL \<equiv> 5"
abbreviation (input) FIFOCON :: nat where "FIFOCON \<equiv> 7"
abbreviation (input) EPEN :: nat where "EPEN \<equiv> 0"
abbreviation (input) RSTDT :: nat where "RSTDT \<equiv> 3"
abbreviation (input) STALLRQC :: nat where "STALLRQC \<equiv> 4"
abbreviation (input) STALLRQ :: nat where "STALLRQ \<equiv> 5"
abbreviation (input) EPDIR :: nat where "EPDIR \<equiv> 0"
abbreviation (input) EPTYPE0 :: nat where "EPTYPE0 \<equiv> 6"
abbreviation (input) ALLOC :: nat where "ALLOC \<equiv> 1"
abbreviation (input) EPBK0 :: nat where "EPBK0 \<equiv> 2"
abbreviation (input) EPSIZE0 :: nat where "EPSIZE0 \<equiv> 4"
abbreviation (input) NBUSYBK0 :: nat where "NBUSYBK0 \<equiv> 0"
abbreviation (input) CFGOK :: nat where "CFGOK \<equiv> 7"
abbreviation (input) ADDEN :: nat where "ADDEN \<equiv> 7"
abbreviation (input) RXSTPE :: nat where "RXSTPE \<equiv> 3"
abbreviation (input) SUSPI :: nat where "SUSPI \<equiv> 0"
abbreviation (input) SOFI :: nat where "SOFI \<equiv> 2"
abbreviation (input) EORSTI :: nat where "EORSTI \<equiv> 3"
abbreviation (input) WAKEUPI :: nat where "WAKEUPI \<equiv> 4"
abbreviation (input) DETACH :: nat where "DETACH \<equiv> 0"
abbreviation (input) RMWKUP :: nat where "RMWKUP \<equiv> 1"
abbreviation (input) FRZCLK :: nat where "FRZCLK \<equiv> 5"
abbreviation (input) USBE :: nat where "USBE \<equiv> 7"
abbreviation (input) PLOCK :: nat where "PLOCK \<equiv> 0"
abbreviation (input) PLLE :: nat where "PLLE \<equiv> 1"
abbreviation (input) PLLP0 :: nat where "PLLP0 \<equiv> 2"
abbreviation (input) REGDIS :: nat where "REGDIS \<equiv> 0"
abbreviation (input) SPIF :: nat where "SPIF \<equiv> 7"

definition DEVICE_STATE_Unattached :: u8 where "DEVICE_STATE_Unattached = 0"
definition DEVICE_STATE_Powered :: u8 where "DEVICE_STATE_Powered = 1"
definition DEVICE_STATE_Default :: u8 where "DEVICE_STATE_Default = 2"
definition DEVICE_STATE_Addressed :: u8 where "DEVICE_STATE_Addressed = 3"
definition DEVICE_STATE_Configured :: u8 where "DEVICE_STATE_Configured = 4"
definition DEVICE_STATE_Suspended :: u8 where "DEVICE_STATE_Suspended = 5"

definition ENDPOINT_EPNUM_MASK :: u8 where "ENDPOINT_EPNUM_MASK = 0x0F"
definition ENDPOINT_CONTROLEP :: u8 where "ENDPOINT_CONTROLEP = 0"
definition ENDPOINT_DIR_OUT :: u8 where "ENDPOINT_DIR_OUT = 0x00"
definition ENDPOINT_DIR_IN :: u8 where "ENDPOINT_DIR_IN = 0x80"

named_theorems usb_consts \<open>the numeric constants of the USB driver\<close>

declare DEVICE_STATE_Unattached_def [usb_consts] DEVICE_STATE_Powered_def [usb_consts]
  DEVICE_STATE_Default_def [usb_consts] DEVICE_STATE_Addressed_def [usb_consts]
  DEVICE_STATE_Configured_def [usb_consts] DEVICE_STATE_Suspended_def [usb_consts]
  ENDPOINT_EPNUM_MASK_def [usb_consts] ENDPOINT_CONTROLEP_def [usb_consts]
  ENDPOINT_DIR_OUT_def [usb_consts] ENDPOINT_DIR_IN_def [usb_consts]

subsection \<open>Accesses\<close>

definition rd :: "env \<Rightarrow> reg \<Rightarrow> usb_dev \<Rightarrow> u8 \<times> usb_dev" where
  "rd e r s = (let v = e (hist s) r in (v, s\<lparr>hist := Rd r v # hist s\<rparr>))"

definition wr :: "reg \<Rightarrow> u8 \<Rightarrow> usb_dev \<Rightarrow> usb_dev" where
  "wr r v s = s\<lparr>hist := Wr r v # hist s\<rparr>"

definition set_bit_io :: "env \<Rightarrow> reg \<Rightarrow> nat \<Rightarrow> usb_dev \<Rightarrow> usb_dev" where
  "set_bit_io e r n s = (let (v, s) = rd e r s in wr r (sbi n v) s)"

definition clear_bit_io :: "env \<Rightarrow> reg \<Rightarrow> nat \<Rightarrow> usb_dev \<Rightarrow> usb_dev" where
  "clear_bit_io e r n s = (let (v, s) = rd e r s in wr r (cbi n v) s)"

definition clear_mask_io :: "env \<Rightarrow> reg \<Rightarrow> u8 \<Rightarrow> usb_dev \<Rightarrow> usb_dev" where
  "clear_mask_io e r m s = (let (v, s) = rd e r s in wr r (v AND NOT m) s)"

definition test_bit_io :: "env \<Rightarrow> reg \<Rightarrow> nat \<Rightarrow> usb_dev \<Rightarrow> bool \<times> usb_dev" where
  "test_bit_io e r n s = (let (v, s) = rd e r s in (bit v n, s))"

lemmas io_defs = rd_def wr_def set_bit_io_def clear_bit_io_def clear_mask_io_def test_bit_io_def Let_def

text \<open>A loop \<^verbatim>\<open>while (!(R & (1 << n)));\<close>: \<open>None\<close> when the bit never comes.\<close>

partial_function (option) wait_bit :: "env \<Rightarrow> reg \<Rightarrow> nat \<Rightarrow> usb_dev \<Rightarrow> usb_dev option" where
  "wait_bit e r n s = (case test_bit_io e r n s of (b, s) \<Rightarrow> if b then Some s else wait_bit e r n s)"

partial_function (option) wait_bit_clear :: "env \<Rightarrow> reg \<Rightarrow> nat \<Rightarrow> usb_dev \<Rightarrow> usb_dev option" where
  "wait_bit_clear e r n s =
     (case test_bit_io e r n s of (b, s) \<Rightarrow> if b then wait_bit_clear e r n s else Some s)"

declare wait_bit.simps [code] wait_bit_clear.simps [code]

subsection \<open>What an access sequence did\<close>

text \<open>
  \<open>writes r h\<close> lists the values written to a register in the order of the writes, \<open>last_write\<close> the
  last of them, and \<open>extends\<close> says that a history continues another one.
\<close>

fun writes :: "reg \<Rightarrow> io list \<Rightarrow> u8 list" where
  "writes r [] = []"
| "writes r (Wr q v # h) = (if q = r then writes r h @ [v] else writes r h)"
| "writes r (Rd q v # h) = writes r h"

fun reads :: "reg \<Rightarrow> io list \<Rightarrow> u8 list" where
  "reads r [] = []"
| "reads r (Rd q v # h) = (if q = r then reads r h @ [v] else reads r h)"
| "reads r (Wr q v # h) = reads r h"

lemma writes_append [simp]: "writes r (h' @ h) = writes r h @ writes r h'"
proof (induction h')
  case (Cons a h')
  then show ?case by (cases a) simp_all
qed simp

lemma reads_append [simp]: "reads r (h' @ h) = reads r h @ reads r h'"
proof (induction h')
  case (Cons a h')
  then show ?case by (cases a) simp_all
qed simp

definition extends :: "usb_dev \<Rightarrow> usb_dev \<Rightarrow> bool" where
  "extends s s' \<longleftrightarrow> (\<exists>h. hist s' = h @ hist s)"

lemma extends_refl [simp]: "extends s s"
  by (simp add: extends_def)

lemma extends_trans: "extends s t \<Longrightarrow> extends t u \<Longrightarrow> extends s u"
  by (auto simp: extends_def)

text \<open>Introduction rules for statements about the accesses a function appended.\<close>

lemma appended_intros:
  "P [a] \<Longrightarrow> \<exists>h. s\<lparr>hist := a # l\<rparr> = s\<lparr>hist := h @ l\<rparr> \<and> P h"
  "P [a, b] \<Longrightarrow> \<exists>h. s\<lparr>hist := a # b # l\<rparr> = s\<lparr>hist := h @ l\<rparr> \<and> P h"
  "P [a, b, c] \<Longrightarrow> \<exists>h. s\<lparr>hist := a # b # c # l\<rparr> = s\<lparr>hist := h @ l\<rparr> \<and> P h"
  "P [a, b, c, d] \<Longrightarrow> \<exists>h. s\<lparr>hist := a # b # c # d # l\<rparr> = s\<lparr>hist := h @ l\<rparr> \<and> P h"
  "P [a, b, c, d, e] \<Longrightarrow> \<exists>h. s\<lparr>hist := a # b # c # d # e # l\<rparr> = s\<lparr>hist := h @ l\<rparr> \<and> P h"
  "P [a, b, c, d, e, f] \<Longrightarrow> \<exists>h. s\<lparr>hist := a # b # c # d # e # f # l\<rparr> = s\<lparr>hist := h @ l\<rparr> \<and> P h"
  by (metis append_Cons append_Nil)+

end
