(* ===== verification/Endpoint.thy ===== *)
theory Endpoint
  imports Usb_Io
begin

section \<open>Endpoints: Endpoint_AVR8.h and Endpoint_AVR8.c\<close>

text \<open>
  Every inline function of \<^verbatim>\<open>Endpoint_AVR8.h\<close> and every function of \<^verbatim>\<open>Endpoint_AVR8.c\<close> in the
  configuration of the build (five endpoints, the reconfiguration loop of a build without
  \<^verbatim>\<open>ORDERED_EP_CONFIG\<close>, a control endpoint of fixed size 8). A function that only accesses registers
  returns the new state, with its result if it has one. A function with a polling loop returns
  \<open>None\<close> when it never returns.
\<close>

definition ENDPOINT_TOTAL_ENDPOINTS :: u8 where "ENDPOINT_TOTAL_ENDPOINTS = 5"
definition USB_STREAM_TIMEOUT_MS :: u8 where "USB_STREAM_TIMEOUT_MS = 100"
definition USB_Device_ControlEndpointSize :: u16 where "USB_Device_ControlEndpointSize = 8"

datatype Endpoint_WaitUntilReady_ErrorCodes_t =
    ENDPOINT_READYWAIT_NoError
  | ENDPOINT_READYWAIT_EndpointStalled
  | ENDPOINT_READYWAIT_DeviceDisconnected
  | ENDPOINT_READYWAIT_BusSuspended
  | ENDPOINT_READYWAIT_Timeout

subsection \<open>Bank sizes\<close>

partial_function (option) ep_size_loop :: "u16 \<Rightarrow> u8 \<Rightarrow> u16 \<Rightarrow> u8 option" where
  "ep_size_loop Bytes MaskVal CheckBytes =
     (if CheckBytes < Bytes then ep_size_loop Bytes (MaskVal + 1) (push_bit 1 CheckBytes) else Some MaskVal)"

declare ep_size_loop.simps [code]

definition Endpoint_BytesToEPSizeMask :: "u16 \<Rightarrow> u8 option" where
  "Endpoint_BytesToEPSizeMask Bytes = map_option (push_bit EPSIZE0) (ep_size_loop Bytes 0 8)"

subsection \<open>Register functions\<close>

definition Endpoint_BytesInEndpoint :: "env \<Rightarrow> usb_dev \<Rightarrow> u16 \<times> usb_dev" where
  "Endpoint_BytesInEndpoint e s = (let (v, s) = rd e UEBCLX s in (ucast v, s))"

definition Endpoint_GetEndpointDirection :: "env \<Rightarrow> usb_dev \<Rightarrow> u8 \<times> usb_dev" where
  "Endpoint_GetEndpointDirection e s =
     (let (b, s) = test_bit_io e UECFG0X EPDIR s in (if b then ENDPOINT_DIR_IN else ENDPOINT_DIR_OUT, s))"

definition Endpoint_GetCurrentEndpoint :: "env \<Rightarrow> usb_dev \<Rightarrow> u8 \<times> usb_dev" where
  "Endpoint_GetCurrentEndpoint e s =
     (let (v, s) = rd e UENUM s; (d, s) = Endpoint_GetEndpointDirection e s
      in ((v AND ENDPOINT_EPNUM_MASK) OR d, s))"

definition Endpoint_SelectEndpoint :: "u8 \<Rightarrow> usb_dev \<Rightarrow> usb_dev" where
  "Endpoint_SelectEndpoint Address = wr UENUM (Address AND ENDPOINT_EPNUM_MASK)"

definition Endpoint_ResetEndpoint :: "u8 \<Rightarrow> usb_dev \<Rightarrow> usb_dev" where
  "Endpoint_ResetEndpoint Address s =
     wr UERST 0 (wr UERST (push_bit (unat (Address AND ENDPOINT_EPNUM_MASK)) 1) s)"

definition Endpoint_EnableEndpoint :: "env \<Rightarrow> usb_dev \<Rightarrow> usb_dev" where
  "Endpoint_EnableEndpoint e = set_bit_io e UECONX EPEN"

definition Endpoint_DisableEndpoint :: "env \<Rightarrow> usb_dev \<Rightarrow> usb_dev" where
  "Endpoint_DisableEndpoint e = clear_bit_io e UECONX EPEN"

definition Endpoint_IsEnabled :: "env \<Rightarrow> usb_dev \<Rightarrow> bool \<times> usb_dev" where
  "Endpoint_IsEnabled e = test_bit_io e UECONX EPEN"

definition Endpoint_GetBusyBanks :: "env \<Rightarrow> usb_dev \<Rightarrow> u8 \<times> usb_dev" where
  "Endpoint_GetBusyBanks e s = (let (v, s) = rd e UESTA0X s in (v AND push_bit NBUSYBK0 3, s))"

partial_function (option) Endpoint_AbortPendingIN :: "env \<Rightarrow> usb_dev \<Rightarrow> usb_dev option" where
  "Endpoint_AbortPendingIN e s =
     (case Endpoint_GetBusyBanks e s of (b, s) \<Rightarrow>
       if b \<noteq> 0
       then Option.bind (wait_bit_clear e UEINTX RXOUTI (set_bit_io e UEINTX RXOUTI s)) (Endpoint_AbortPendingIN e)
       else Some s)"

definition Endpoint_IsReadWriteAllowed :: "env \<Rightarrow> usb_dev \<Rightarrow> bool \<times> usb_dev" where
  "Endpoint_IsReadWriteAllowed e = test_bit_io e UEINTX RWAL"

definition Endpoint_IsConfigured :: "env \<Rightarrow> usb_dev \<Rightarrow> bool \<times> usb_dev" where
  "Endpoint_IsConfigured e = test_bit_io e UESTA0X CFGOK"

definition Endpoint_GetEndpointInterrupts :: "env \<Rightarrow> usb_dev \<Rightarrow> u8 \<times> usb_dev" where
  "Endpoint_GetEndpointInterrupts e = rd e UEINT"

definition Endpoint_HasEndpointInterrupted :: "env \<Rightarrow> u8 \<Rightarrow> usb_dev \<Rightarrow> bool \<times> usb_dev" where
  "Endpoint_HasEndpointInterrupted e Address s =
     (let (v, s) = Endpoint_GetEndpointInterrupts e s
      in ((ucast v :: u16) AND push_bit (unat (Address AND ENDPOINT_EPNUM_MASK)) 1 \<noteq> 0, s))"

definition Endpoint_IsINReady :: "env \<Rightarrow> usb_dev \<Rightarrow> bool \<times> usb_dev" where
  "Endpoint_IsINReady e = test_bit_io e UEINTX TXINI"

definition Endpoint_IsOUTReceived :: "env \<Rightarrow> usb_dev \<Rightarrow> bool \<times> usb_dev" where
  "Endpoint_IsOUTReceived e = test_bit_io e UEINTX RXOUTI"

definition Endpoint_IsSETUPReceived :: "env \<Rightarrow> usb_dev \<Rightarrow> bool \<times> usb_dev" where
  "Endpoint_IsSETUPReceived e = test_bit_io e UEINTX RXSTPI"

definition Endpoint_ClearSETUP :: "env \<Rightarrow> usb_dev \<Rightarrow> usb_dev" where
  "Endpoint_ClearSETUP e = clear_bit_io e UEINTX RXSTPI"

definition Endpoint_ClearIN :: "env \<Rightarrow> usb_dev \<Rightarrow> usb_dev" where
  "Endpoint_ClearIN e = clear_mask_io e UEINTX (push_bit TXINI 1 OR push_bit FIFOCON 1)"

definition Endpoint_ClearOUT :: "env \<Rightarrow> usb_dev \<Rightarrow> usb_dev" where
  "Endpoint_ClearOUT e = clear_mask_io e UEINTX (push_bit RXOUTI 1 OR push_bit FIFOCON 1)"

definition Endpoint_StallTransaction :: "env \<Rightarrow> usb_dev \<Rightarrow> usb_dev" where
  "Endpoint_StallTransaction e = set_bit_io e UECONX STALLRQ"

definition Endpoint_ClearStall :: "env \<Rightarrow> usb_dev \<Rightarrow> usb_dev" where
  "Endpoint_ClearStall e = set_bit_io e UECONX STALLRQC"

definition Endpoint_IsStalled :: "env \<Rightarrow> usb_dev \<Rightarrow> bool \<times> usb_dev" where
  "Endpoint_IsStalled e = test_bit_io e UECONX STALLRQ"

definition Endpoint_ResetDataToggle :: "env \<Rightarrow> usb_dev \<Rightarrow> usb_dev" where
  "Endpoint_ResetDataToggle e = set_bit_io e UECONX RSTDT"

definition Endpoint_SetEndpointDirection :: "env \<Rightarrow> u8 \<Rightarrow> usb_dev \<Rightarrow> usb_dev" where
  "Endpoint_SetEndpointDirection e DirectionMask s =
     (let (v, s) = rd e UECFG0X s
      in wr UECFG0X (cbi EPDIR v OR (if DirectionMask \<noteq> 0 then push_bit EPDIR 1 else 0)) s)"

subsection \<open>The bank's FIFO\<close>

definition Endpoint_Read_8 :: "env \<Rightarrow> usb_dev \<Rightarrow> u8 \<times> usb_dev" where
  "Endpoint_Read_8 e = rd e UEDATX"

definition Endpoint_Write_8 :: "u8 \<Rightarrow> usb_dev \<Rightarrow> usb_dev" where
  "Endpoint_Write_8 Data = wr UEDATX Data"

definition Endpoint_Discard_8 :: "env \<Rightarrow> usb_dev \<Rightarrow> usb_dev" where
  "Endpoint_Discard_8 e s = (let (Dummy, s) = rd e UEDATX s in s)"

definition Endpoint_Read_16_LE :: "env \<Rightarrow> usb_dev \<Rightarrow> u16 \<times> usb_dev" where
  "Endpoint_Read_16_LE e s =
     (let (b0, s) = rd e UEDATX s; (b1, s) = rd e UEDATX s in (word16 [b0, b1], s))"

definition Endpoint_Read_16_BE :: "env \<Rightarrow> usb_dev \<Rightarrow> u16 \<times> usb_dev" where
  "Endpoint_Read_16_BE e s =
     (let (b1, s) = rd e UEDATX s; (b0, s) = rd e UEDATX s in (word16 [b0, b1], s))"

definition Endpoint_Write_16_LE :: "u16 \<Rightarrow> usb_dev \<Rightarrow> usb_dev" where
  "Endpoint_Write_16_LE Data s = wr UEDATX (ucast (drop_bit 8 Data)) (wr UEDATX (ucast (Data AND 0xFF)) s)"

definition Endpoint_Write_16_BE :: "u16 \<Rightarrow> usb_dev \<Rightarrow> usb_dev" where
  "Endpoint_Write_16_BE Data s = wr UEDATX (ucast (Data AND 0xFF)) (wr UEDATX (ucast (drop_bit 8 Data)) s)"

definition Endpoint_Discard_16 :: "env \<Rightarrow> usb_dev \<Rightarrow> usb_dev" where
  "Endpoint_Discard_16 e s = (let (Dummy, s) = rd e UEDATX s; (Dummy, s) = rd e UEDATX s in s)"

definition Endpoint_Read_32_LE :: "env \<Rightarrow> usb_dev \<Rightarrow> u32 \<times> usb_dev" where
  "Endpoint_Read_32_LE e s =
     (let (b0, s) = rd e UEDATX s; (b1, s) = rd e UEDATX s;
          (b2, s) = rd e UEDATX s; (b3, s) = rd e UEDATX s
      in (word32 [b0, b1, b2, b3], s))"

definition Endpoint_Read_32_BE :: "env \<Rightarrow> usb_dev \<Rightarrow> u32 \<times> usb_dev" where
  "Endpoint_Read_32_BE e s =
     (let (b3, s) = rd e UEDATX s; (b2, s) = rd e UEDATX s;
          (b1, s) = rd e UEDATX s; (b0, s) = rd e UEDATX s
      in (word32 [b0, b1, b2, b3], s))"

definition Endpoint_Write_32_LE :: "u32 \<Rightarrow> usb_dev \<Rightarrow> usb_dev" where
  "Endpoint_Write_32_LE Data s =
     (let s = wr UEDATX (ucast (Data AND 0xFF)) s;
          s = wr UEDATX (ucast (drop_bit 8 Data)) s;
          s = wr UEDATX (ucast (drop_bit 16 Data)) s
      in wr UEDATX (ucast (drop_bit 24 Data)) s)"

definition Endpoint_Write_32_BE :: "u32 \<Rightarrow> usb_dev \<Rightarrow> usb_dev" where
  "Endpoint_Write_32_BE Data s =
     (let s = wr UEDATX (ucast (drop_bit 24 Data)) s;
          s = wr UEDATX (ucast (drop_bit 16 Data)) s;
          s = wr UEDATX (ucast (drop_bit 8 Data)) s
      in wr UEDATX (ucast (Data AND 0xFF)) s)"

definition Endpoint_Discard_32 :: "env \<Rightarrow> usb_dev \<Rightarrow> usb_dev" where
  "Endpoint_Discard_32 e s =
     (let (Dummy, s) = rd e UEDATX s; (Dummy, s) = rd e UEDATX s;
          (Dummy, s) = rd e UEDATX s; (Dummy, s) = rd e UEDATX s in s)"

subsection \<open>Configuration\<close>

text \<open>
  The body of the loop over the endpoints for one endpoint number, then the loop itself; the result
  \<open>False\<close> is the early return.
\<close>

definition configure_one :: "env \<Rightarrow> u8 \<Rightarrow> u8 \<Rightarrow> u8 \<Rightarrow> u8 \<Rightarrow> usb_dev \<Rightarrow> bool \<times> usb_dev" where
  "configure_one e Number UECFG0XData UECFG1XData EPNum s =
     (let s = Endpoint_SelectEndpoint EPNum s;
          (UECFG0XTemp, UECFG1XTemp, UEIENXTemp, s) =
            (if EPNum = Number then (UECFG0XData, UECFG1XData, 0, s)
             else (let (a, s) = rd e UECFG0X s; (b, s) = rd e UECFG1X s; (c, s) = rd e UEIENX s in (a, b, c, s)))
      in if \<not> bit UECFG1XTemp ALLOC then (True, s)
         else
           (let s = Endpoint_DisableEndpoint e s;
                s = clear_bit_io e UECFG1X ALLOC s;
                s = Endpoint_EnableEndpoint e s;
                s = wr UECFG0X UECFG0XTemp s;
                s = wr UECFG1X UECFG1XTemp s;
                s = wr UEIENX UEIENXTemp s
            in Endpoint_IsConfigured e s))"

function configure_loop :: "env \<Rightarrow> u8 \<Rightarrow> u8 \<Rightarrow> u8 \<Rightarrow> u8 \<Rightarrow> usb_dev \<Rightarrow> bool \<times> usb_dev" where
  "configure_loop e Number UECFG0XData UECFG1XData EPNum s =
     (if EPNum < ENDPOINT_TOTAL_ENDPOINTS
      then (let (ok, s) = configure_one e Number UECFG0XData UECFG1XData EPNum s
            in if ok then configure_loop e Number UECFG0XData UECFG1XData (EPNum + 1) s else (False, s))
      else (True, Endpoint_SelectEndpoint Number s))"
  by pat_completeness auto
termination
proof (relation "measure (\<lambda>(e, n, a, b, i, s). 5 - unat i)", simp)
  fix e n a b and i :: u8 and s x ok t
  assume lt: "i < ENDPOINT_TOTAL_ENDPOINTS"
  then have "unat i < 5" by (simp add: ENDPOINT_TOTAL_ENDPOINTS_def word_less_nat_alt)
  with unat_succ [OF lt]
  show "((e, n, a, b, i + 1, t), e, n, a, b, i, s) \<in> measure (\<lambda>(e, n, a, b, i, s). 5 - unat i)" by simp
qed

declare configure_loop.simps [simp del]

definition Endpoint_ConfigureEndpoint_Prv :: "env \<Rightarrow> u8 \<Rightarrow> u8 \<Rightarrow> u8 \<Rightarrow> usb_dev \<Rightarrow> bool \<times> usb_dev" where
  "Endpoint_ConfigureEndpoint_Prv e Number UECFG0XData UECFG1XData s =
     configure_loop e Number UECFG0XData UECFG1XData Number s"

definition Endpoint_ConfigureEndpoint :: "env \<Rightarrow> u8 \<Rightarrow> u8 \<Rightarrow> u16 \<Rightarrow> u8 \<Rightarrow> usb_dev \<Rightarrow> (bool \<times> usb_dev) option" where
  "Endpoint_ConfigureEndpoint e Address Type Size Banks s =
     (let Number = Address AND ENDPOINT_EPNUM_MASK
      in if Number \<ge> ENDPOINT_TOTAL_ENDPOINTS then Some (False, s)
         else do {
           mask \<leftarrow> Endpoint_BytesToEPSizeMask Size;
           Some (Endpoint_ConfigureEndpoint_Prv e Number
             (push_bit EPTYPE0 Type OR (if Address AND ENDPOINT_DIR_IN \<noteq> 0 then push_bit EPDIR 1 else 0))
             (push_bit ALLOC 1 OR (if Banks > 1 then push_bit EPBK0 1 else 0) OR mask) s)
         })"

text \<open>The table is the list of its \<^verbatim>\<open>Entries\<close> entries.\<close>

fun Endpoint_ConfigureEndpointTable :: "env \<Rightarrow> USB_Endpoint_Table_t list \<Rightarrow> usb_dev \<Rightarrow> (bool \<times> usb_dev) option" where
  "Endpoint_ConfigureEndpointTable e [] s = Some (True, s)"
| "Endpoint_ConfigureEndpointTable e (t # ts) s =
     (if epAddress t = 0 then Endpoint_ConfigureEndpointTable e ts s
      else do {
        (ok, s) \<leftarrow> Endpoint_ConfigureEndpoint e (epAddress t) (epType t) (epSize t) (epBanks t) s;
        if \<not> ok then Some (False, s) else Endpoint_ConfigureEndpointTable e ts s
      })"

definition clear_endpoint :: "env \<Rightarrow> u8 \<Rightarrow> usb_dev \<Rightarrow> usb_dev" where
  "clear_endpoint e EPNum s =
     (let s = Endpoint_SelectEndpoint EPNum s;
          s = wr UEIENX 0 s;
          s = wr UEINTX 0 s;
          s = wr UECFG1X 0 s
      in Endpoint_DisableEndpoint e s)"

definition Endpoint_ClearEndpoints :: "env \<Rightarrow> usb_dev \<Rightarrow> usb_dev" where
  "Endpoint_ClearEndpoints e s =
     fold (clear_endpoint e) (map of_nat [0..<unat ENDPOINT_TOTAL_ENDPOINTS]) (wr UEINT 0 s)"

subsection \<open>Waiting for the host\<close>

text \<open>
  The two loops of \<^verbatim>\<open>Endpoint_ClearStatusStage\<close>: wait for a bit of \<^verbatim>\<open>UEINTX\<close>, give up (\<open>False\<close>) when
  the device is detached.
\<close>

partial_function (option) wait_attached :: "env \<Rightarrow> nat \<Rightarrow> usb_dev \<Rightarrow> (bool \<times> usb_dev) option" where
  "wait_attached e n s =
     (case test_bit_io e UEINTX n s of (b, s) \<Rightarrow>
       if b then Some (True, s)
       else (case rd e GPIOR0 s of (st, s) \<Rightarrow>
         if st = DEVICE_STATE_Unattached then Some (False, s) else wait_attached e n s))"

declare wait_attached.simps [code]

definition Endpoint_ClearStatusStage :: "env \<Rightarrow> usb_dev \<Rightarrow> usb_dev option" where
  "Endpoint_ClearStatusStage e s =
     (if bmRequestType (USB_ControlRequest s) AND 0x80 \<noteq> 0
      then do {
        (ok, s) \<leftarrow> wait_attached e RXOUTI s;
        Some (if ok then Endpoint_ClearOUT e s else s)
      }
      else do {
        (ok, s) \<leftarrow> wait_attached e TXINI s;
        Some (if ok then Endpoint_ClearIN e s else s)
      })"

text \<open>The frame number register has 16 bits; the compiler reads its low half first.\<close>

definition USB_Device_GetFrameNumber :: "env \<Rightarrow> usb_dev \<Rightarrow> u16 \<times> usb_dev" where
  "USB_Device_GetFrameNumber e s =
     (let (l, s) = rd e UDFNUML s; (h, s) = rd e UDFNUMH s in (word16 [l, h], s))"

text \<open>
  One turn of the loop of \<^verbatim>\<open>Endpoint_WaitUntilReady\<close>: \<open>Inl\<close> the code it returns, or \<open>Inr\<close> the timeout
  counter and the previous frame number for the next turn.
\<close>

definition ready_turn :: "env \<Rightarrow> u8 \<Rightarrow> u16 \<Rightarrow> usb_dev
    \<Rightarrow> (Endpoint_WaitUntilReady_ErrorCodes_t + u8 \<times> u16) \<times> usb_dev" where
  "ready_turn e TimeoutMSRem PreviousFrameNumber s =
     (let (dir, s) = Endpoint_GetEndpointDirection e s;
          (ready, s) = (if dir = ENDPOINT_DIR_IN then Endpoint_IsINReady e s else Endpoint_IsOUTReceived e s)
      in if ready then (Inl ENDPOINT_READYWAIT_NoError, s)
         else
           (let (USB_DeviceState_LCL, s) = rd e GPIOR0 s
            in if USB_DeviceState_LCL = DEVICE_STATE_Unattached then (Inl ENDPOINT_READYWAIT_DeviceDisconnected, s)
               else if USB_DeviceState_LCL = DEVICE_STATE_Suspended then (Inl ENDPOINT_READYWAIT_BusSuspended, s)
               else
                 (let (stalled, s) = Endpoint_IsStalled e s
                  in if stalled then (Inl ENDPOINT_READYWAIT_EndpointStalled, s)
                     else
                       (let (CurrentFrameNumber, s) = USB_Device_GetFrameNumber e s
                        in if CurrentFrameNumber \<noteq> PreviousFrameNumber
                           then if TimeoutMSRem = 0 then (Inl ENDPOINT_READYWAIT_Timeout, s)
                                else (Inr (TimeoutMSRem - 1, CurrentFrameNumber), s)
                           else (Inr (TimeoutMSRem, PreviousFrameNumber), s)))))"

partial_function (option) ready_loop :: "env \<Rightarrow> u8 \<Rightarrow> u16 \<Rightarrow> usb_dev
    \<Rightarrow> (Endpoint_WaitUntilReady_ErrorCodes_t \<times> usb_dev) option" where
  "ready_loop e TimeoutMSRem PreviousFrameNumber s =
     (case ready_turn e TimeoutMSRem PreviousFrameNumber s of
        (Inl code, s) \<Rightarrow> Some (code, s)
      | (Inr (t, f), s) \<Rightarrow> ready_loop e t f s)"

declare ready_loop.simps [code]

definition Endpoint_WaitUntilReady :: "env \<Rightarrow> usb_dev \<Rightarrow> (Endpoint_WaitUntilReady_ErrorCodes_t \<times> usb_dev) option" where
  "Endpoint_WaitUntilReady e s =
     (let (PreviousFrameNumber, s) = USB_Device_GetFrameNumber e s
      in ready_loop e USB_STREAM_TIMEOUT_MS PreviousFrameNumber s)"

end
