(* ===== verification/Endpoint_Stream.thy ===== *)
theory Endpoint_Stream
  imports Endpoint
begin

section \<open>Streams over endpoints: EndpointStream_AVR8.c and its templates\<close>

text \<open>
  LUFA writes each stream function once, as a template file included several times with different
  macros. The templates are the definitions \<open>rw_stream\<close>, \<open>control_write\<close> and \<open>control_read\<close>, whose
  arguments are the macros: \<^verbatim>\<open>TEMPLATE_CLEAR_ENDPOINT\<close>, \<^verbatim>\<open>TEMPLATE_BUFFER_OFFSET\<close>, \<^verbatim>\<open>TEMPLATE_BUFFER_MOVE\<close>
  and \<^verbatim>\<open>TEMPLATE_TRANSFER_BYTE\<close>; each stream function of the library is an instance. The pointer
  \<^verbatim>\<open>BytesProcessed\<close> is an optional value that goes in and comes out (\<open>None\<close> for a null pointer), and it
  does not point into the buffer. A stream function returns the numeric code of the source.
\<close>

definition ENDPOINT_RWSTREAM_NoError :: u8 where "ENDPOINT_RWSTREAM_NoError = 0"
definition ENDPOINT_RWSTREAM_EndpointStalled :: u8 where "ENDPOINT_RWSTREAM_EndpointStalled = 1"
definition ENDPOINT_RWSTREAM_DeviceDisconnected :: u8 where "ENDPOINT_RWSTREAM_DeviceDisconnected = 2"
definition ENDPOINT_RWSTREAM_BusSuspended :: u8 where "ENDPOINT_RWSTREAM_BusSuspended = 3"
definition ENDPOINT_RWSTREAM_Timeout :: u8 where "ENDPOINT_RWSTREAM_Timeout = 4"
definition ENDPOINT_RWSTREAM_IncompleteTransfer :: u8 where "ENDPOINT_RWSTREAM_IncompleteTransfer = 5"

definition ENDPOINT_RWCSTREAM_NoError :: u8 where "ENDPOINT_RWCSTREAM_NoError = 0"
definition ENDPOINT_RWCSTREAM_HostAborted :: u8 where "ENDPOINT_RWCSTREAM_HostAborted = 1"
definition ENDPOINT_RWCSTREAM_DeviceDisconnected :: u8 where "ENDPOINT_RWCSTREAM_DeviceDisconnected = 2"
definition ENDPOINT_RWCSTREAM_BusSuspended :: u8 where "ENDPOINT_RWCSTREAM_BusSuspended = 3"

named_theorems stream_consts \<open>the codes of the stream functions\<close>

declare ENDPOINT_RWSTREAM_NoError_def [stream_consts] ENDPOINT_RWSTREAM_EndpointStalled_def [stream_consts]
  ENDPOINT_RWSTREAM_DeviceDisconnected_def [stream_consts] ENDPOINT_RWSTREAM_BusSuspended_def [stream_consts]
  ENDPOINT_RWSTREAM_Timeout_def [stream_consts] ENDPOINT_RWSTREAM_IncompleteTransfer_def [stream_consts]
  ENDPOINT_RWCSTREAM_NoError_def [stream_consts] ENDPOINT_RWCSTREAM_HostAborted_def [stream_consts]
  ENDPOINT_RWCSTREAM_DeviceDisconnected_def [stream_consts] ENDPOINT_RWCSTREAM_BusSuspended_def [stream_consts]

text \<open>The number of a ready-wait code, which the stream functions pass on as their own.\<close>

fun ready_code :: "Endpoint_WaitUntilReady_ErrorCodes_t \<Rightarrow> u8" where
  "ready_code ENDPOINT_READYWAIT_NoError = 0"
| "ready_code ENDPOINT_READYWAIT_EndpointStalled = 1"
| "ready_code ENDPOINT_READYWAIT_DeviceDisconnected = 2"
| "ready_code ENDPOINT_READYWAIT_BusSuspended = 3"
| "ready_code ENDPOINT_READYWAIT_Timeout = 4"

subsection \<open>The macros\<close>

type_synonym transfer = "env \<Rightarrow> u16 \<Rightarrow> usb_dev \<Rightarrow> usb_dev"

definition offset_first :: "u16 \<Rightarrow> u16" where "offset_first Length = 0"
definition offset_last :: "u16 \<Rightarrow> u16" where "offset_last Length = Length - 1"

definition move_up :: "u16 \<Rightarrow> u16 \<Rightarrow> u16" where "move_up BufferPtr Amount = BufferPtr + Amount"
definition move_down :: "u16 \<Rightarrow> u16 \<Rightarrow> u16" where "move_down BufferPtr Amount = BufferPtr - Amount"

definition write_from :: "(usb_dev \<Rightarrow> u16 \<Rightarrow> u8) \<Rightarrow> transfer" where
  "write_from space e BufferPtr s = Endpoint_Write_8 (space s BufferPtr) s"

definition put_mem :: "u16 \<Rightarrow> u8 \<Rightarrow> usb_dev \<Rightarrow> usb_dev" where
  "put_mem p v s = s\<lparr>mem := (mem s)(p := v)\<rparr>"

definition eeprom_update_byte :: "u16 \<Rightarrow> u8 \<Rightarrow> usb_dev \<Rightarrow> usb_dev" where
  "eeprom_update_byte p v s = s\<lparr>eeprom := (eeprom s)(p := v)\<rparr>"

definition read_to :: "(u16 \<Rightarrow> u8 \<Rightarrow> usb_dev \<Rightarrow> usb_dev) \<Rightarrow> transfer" where
  "read_to put e BufferPtr s = (let (v, s) = Endpoint_Read_8 e s in put BufferPtr v s)"

record stream_macros =
  CLEAR_ENDPOINT :: "env \<Rightarrow> usb_dev \<Rightarrow> usb_dev"
  BUFFER_OFFSET :: "u16 \<Rightarrow> u16"
  BUFFER_MOVE :: "u16 \<Rightarrow> u16 \<Rightarrow> u16"
  TRANSFER_BYTE :: transfer

subsection \<open>The template for data endpoints\<close>

partial_function (option) rw_loop :: "stream_macros \<Rightarrow> env \<Rightarrow> u16 \<Rightarrow> u16 \<Rightarrow> u16 \<Rightarrow> u16 option \<Rightarrow> usb_dev
    \<Rightarrow> (u8 \<times> u16 option \<times> usb_dev) option" where
  "rw_loop m e DataStream Length BytesInTransfer BytesProcessed s =
     (if Length = 0 then Some (ENDPOINT_RWSTREAM_NoError, BytesProcessed, s)
      else (case Endpoint_IsReadWriteAllowed e s of (allowed, s) \<Rightarrow>
        if \<not> allowed then
          (case BytesProcessed of
             Some n \<Rightarrow> Some (ENDPOINT_RWSTREAM_IncompleteTransfer, Some (n + BytesInTransfer), CLEAR_ENDPOINT m e s)
           | None \<Rightarrow>
               Option.bind (Endpoint_WaitUntilReady e (CLEAR_ENDPOINT m e s)) (\<lambda>(ErrorCode, s).
                 if ready_code ErrorCode \<noteq> 0 then Some (ready_code ErrorCode, None, s)
                 else rw_loop m e DataStream Length BytesInTransfer None s))
        else rw_loop m e (BUFFER_MOVE m DataStream 1) (Length - 1) (BytesInTransfer + 1)
               BytesProcessed (TRANSFER_BYTE m e DataStream s)))"

declare rw_loop.simps [code]

definition rw_stream :: "stream_macros \<Rightarrow> env \<Rightarrow> u16 \<Rightarrow> u16 \<Rightarrow> u16 option \<Rightarrow> usb_dev
    \<Rightarrow> (u8 \<times> u16 option \<times> usb_dev) option" where
  "rw_stream m e Buffer Length BytesProcessed s =
     (let DataStream = Buffer + BUFFER_OFFSET m Length
      in do {
        (ErrorCode, s) \<leftarrow> Endpoint_WaitUntilReady e s;
        if ready_code ErrorCode \<noteq> 0 then Some (ready_code ErrorCode, BytesProcessed, s)
        else (case BytesProcessed of
            None \<Rightarrow> rw_loop m e DataStream Length 0 None s
          | Some n \<Rightarrow> rw_loop m e (BUFFER_MOVE m DataStream n) (Length - n) 0 (Some n) s)
      })"

subsection \<open>The stream functions without a template\<close>

text \<open>
  \<^verbatim>\<open>Endpoint_Discard_Stream\<close> and \<^verbatim>\<open>Endpoint_Null_Stream\<close> are written out in the source; they have the
  control flow of the template with no buffer.
\<close>

partial_function (option) Discard_Stream_loop :: "env \<Rightarrow> u16 \<Rightarrow> u16 \<Rightarrow> u16 option \<Rightarrow> usb_dev
    \<Rightarrow> (u8 \<times> u16 option \<times> usb_dev) option" where
  "Discard_Stream_loop e Length BytesInTransfer BytesProcessed s =
     (if Length = 0 then Some (ENDPOINT_RWSTREAM_NoError, BytesProcessed, s)
      else (case Endpoint_IsReadWriteAllowed e s of (allowed, s) \<Rightarrow>
        if \<not> allowed then
          (case BytesProcessed of
             Some n \<Rightarrow> Some (ENDPOINT_RWSTREAM_IncompleteTransfer, Some (n + BytesInTransfer), Endpoint_ClearOUT e s)
           | None \<Rightarrow>
               Option.bind (Endpoint_WaitUntilReady e (Endpoint_ClearOUT e s)) (\<lambda>(ErrorCode, s).
                 if ready_code ErrorCode \<noteq> 0 then Some (ready_code ErrorCode, None, s)
                 else Discard_Stream_loop e Length BytesInTransfer None s))
        else Discard_Stream_loop e (Length - 1) (BytesInTransfer + 1) BytesProcessed (Endpoint_Discard_8 e s)))"

definition Endpoint_Discard_Stream :: "env \<Rightarrow> u16 \<Rightarrow> u16 option \<Rightarrow> usb_dev \<Rightarrow> (u8 \<times> u16 option \<times> usb_dev) option" where
  "Endpoint_Discard_Stream e Length BytesProcessed s = do {
     (ErrorCode, s) \<leftarrow> Endpoint_WaitUntilReady e s;
     if ready_code ErrorCode \<noteq> 0 then Some (ready_code ErrorCode, BytesProcessed, s)
     else Discard_Stream_loop e (case BytesProcessed of None \<Rightarrow> Length | Some n \<Rightarrow> Length - n) 0 BytesProcessed s
   }"

partial_function (option) Null_Stream_loop :: "env \<Rightarrow> u16 \<Rightarrow> u16 \<Rightarrow> u16 option \<Rightarrow> usb_dev
    \<Rightarrow> (u8 \<times> u16 option \<times> usb_dev) option" where
  "Null_Stream_loop e Length BytesInTransfer BytesProcessed s =
     (if Length = 0 then Some (ENDPOINT_RWSTREAM_NoError, BytesProcessed, s)
      else (case Endpoint_IsReadWriteAllowed e s of (allowed, s) \<Rightarrow>
        if \<not> allowed then
          (case BytesProcessed of
             Some n \<Rightarrow> Some (ENDPOINT_RWSTREAM_IncompleteTransfer, Some (n + BytesInTransfer), Endpoint_ClearIN e s)
           | None \<Rightarrow>
               Option.bind (Endpoint_WaitUntilReady e (Endpoint_ClearIN e s)) (\<lambda>(ErrorCode, s).
                 if ready_code ErrorCode \<noteq> 0 then Some (ready_code ErrorCode, None, s)
                 else Null_Stream_loop e Length BytesInTransfer None s))
        else Null_Stream_loop e (Length - 1) (BytesInTransfer + 1) BytesProcessed (Endpoint_Write_8 0 s)))"

definition Endpoint_Null_Stream :: "env \<Rightarrow> u16 \<Rightarrow> u16 option \<Rightarrow> usb_dev \<Rightarrow> (u8 \<times> u16 option \<times> usb_dev) option" where
  "Endpoint_Null_Stream e Length BytesProcessed s = do {
     (ErrorCode, s) \<leftarrow> Endpoint_WaitUntilReady e s;
     if ready_code ErrorCode \<noteq> 0 then Some (ready_code ErrorCode, BytesProcessed, s)
     else Null_Stream_loop e (case BytesProcessed of None \<Rightarrow> Length | Some n \<Rightarrow> Length - n) 0 BytesProcessed s
   }"

subsection \<open>The instances for data endpoints\<close>

definition write_up :: "(usb_dev \<Rightarrow> u16 \<Rightarrow> u8) \<Rightarrow> stream_macros" where
  "write_up space = \<lparr>CLEAR_ENDPOINT = Endpoint_ClearIN, BUFFER_OFFSET = offset_first, BUFFER_MOVE = move_up,
     TRANSFER_BYTE = write_from space\<rparr>"

definition write_down :: "(usb_dev \<Rightarrow> u16 \<Rightarrow> u8) \<Rightarrow> stream_macros" where
  "write_down space = \<lparr>CLEAR_ENDPOINT = Endpoint_ClearIN, BUFFER_OFFSET = offset_last, BUFFER_MOVE = move_down,
     TRANSFER_BYTE = write_from space\<rparr>"

definition read_up :: "(u16 \<Rightarrow> u8 \<Rightarrow> usb_dev \<Rightarrow> usb_dev) \<Rightarrow> stream_macros" where
  "read_up put = \<lparr>CLEAR_ENDPOINT = Endpoint_ClearOUT, BUFFER_OFFSET = offset_first, BUFFER_MOVE = move_up,
     TRANSFER_BYTE = read_to put\<rparr>"

definition read_down :: "(u16 \<Rightarrow> u8 \<Rightarrow> usb_dev \<Rightarrow> usb_dev) \<Rightarrow> stream_macros" where
  "read_down put = \<lparr>CLEAR_ENDPOINT = Endpoint_ClearOUT, BUFFER_OFFSET = offset_last, BUFFER_MOVE = move_down,
     TRANSFER_BYTE = read_to put\<rparr>"

type_synonym stream_fun = "env \<Rightarrow> u16 \<Rightarrow> u16 \<Rightarrow> u16 option \<Rightarrow> usb_dev \<Rightarrow> (u8 \<times> u16 option \<times> usb_dev) option"
type_synonym control_fun = "env \<Rightarrow> u16 \<Rightarrow> u16 \<Rightarrow> usb_dev \<Rightarrow> (u8 \<times> usb_dev) option"

definition Endpoint_Write_Stream_LE :: stream_fun where
  "Endpoint_Write_Stream_LE = rw_stream (write_up mem)"

definition Endpoint_Write_Stream_BE :: stream_fun where
  "Endpoint_Write_Stream_BE = rw_stream (write_down mem)"

definition Endpoint_Read_Stream_LE :: stream_fun where
  "Endpoint_Read_Stream_LE = rw_stream (read_up put_mem)"

definition Endpoint_Read_Stream_BE :: stream_fun where
  "Endpoint_Read_Stream_BE = rw_stream (read_down put_mem)"

definition Endpoint_Write_PStream_LE :: stream_fun where
  "Endpoint_Write_PStream_LE = rw_stream (write_up flash)"

definition Endpoint_Write_PStream_BE :: stream_fun where
  "Endpoint_Write_PStream_BE = rw_stream (write_down flash)"

definition Endpoint_Write_EStream_LE :: stream_fun where
  "Endpoint_Write_EStream_LE = rw_stream (write_up eeprom)"

definition Endpoint_Write_EStream_BE :: stream_fun where
  "Endpoint_Write_EStream_BE = rw_stream (write_down eeprom)"

definition Endpoint_Read_EStream_LE :: stream_fun where
  "Endpoint_Read_EStream_LE = rw_stream (read_up eeprom_update_byte)"

definition Endpoint_Read_EStream_BE :: stream_fun where
  "Endpoint_Read_EStream_BE = rw_stream (read_down eeprom_update_byte)"

subsection \<open>The control endpoint\<close>

text \<open>The loop that fills the bank of the control endpoint up to its size.\<close>

function fill_bank :: "stream_macros \<Rightarrow> env \<Rightarrow> u16 \<Rightarrow> u16 \<Rightarrow> u16 \<Rightarrow> usb_dev \<Rightarrow> u16 \<times> u16 \<times> u16 \<times> usb_dev" where
  "fill_bank m e DataStream Length BytesInEndpoint s =
     (if Length \<noteq> 0 \<and> BytesInEndpoint < USB_Device_ControlEndpointSize
      then fill_bank m e (BUFFER_MOVE m DataStream 1) (Length - 1) (BytesInEndpoint + 1) (TRANSFER_BYTE m e DataStream s)
      else (DataStream, Length, BytesInEndpoint, s))"
  by pat_completeness auto
termination
  by (relation "measure (\<lambda>(m, e, p, n, b, s). unat n)") (auto simp: word_pred_lt)

declare fill_bank.simps [simp del]

text \<open>
  The first loop of the template for writing: \<open>Some\<close> code when the function returns from inside it,
  \<open>None\<close> when it goes on to the wait for the status stage.
\<close>

partial_function (option) control_write_loop :: "stream_macros \<Rightarrow> env \<Rightarrow> u16 \<Rightarrow> u16 \<Rightarrow> bool \<Rightarrow> usb_dev
    \<Rightarrow> (u8 option \<times> usb_dev) option" where
  "control_write_loop m e DataStream Length LastPacketFull s =
     (if Length \<noteq> 0 \<or> LastPacketFull
      then (case rd e GPIOR0 s of (USB_DeviceState_LCL, s) \<Rightarrow>
        if USB_DeviceState_LCL = DEVICE_STATE_Unattached then Some (Some ENDPOINT_RWCSTREAM_DeviceDisconnected, s)
        else if USB_DeviceState_LCL = DEVICE_STATE_Suspended then Some (Some ENDPOINT_RWCSTREAM_BusSuspended, s)
        else (case Endpoint_IsSETUPReceived e s of (setup, s) \<Rightarrow>
          if setup then Some (Some ENDPOINT_RWCSTREAM_HostAborted, s)
          else (case Endpoint_IsOUTReceived e s of (out, s) \<Rightarrow>
            if out then Some (None, s)
            else (case Endpoint_IsINReady e s of (ready, s) \<Rightarrow>
              if ready
              then (case Endpoint_BytesInEndpoint e s of (BytesInEndpoint, s) \<Rightarrow>
                (case fill_bank m e DataStream Length BytesInEndpoint s of (DataStream, Length, BytesInEndpoint, s) \<Rightarrow>
                  control_write_loop m e DataStream Length (BytesInEndpoint = USB_Device_ControlEndpointSize)
                    (Endpoint_ClearIN e s)))
              else control_write_loop m e DataStream Length LastPacketFull s))))
      else Some (None, s))"

declare control_write_loop.simps [code]

text \<open>The last loop of both templates: wait for a flag unless the device is detached or suspended.\<close>

partial_function (option) wait_status :: "env \<Rightarrow> nat \<Rightarrow> usb_dev \<Rightarrow> (u8 \<times> usb_dev) option" where
  "wait_status e n s =
     (case test_bit_io e UEINTX n s of (b, s) \<Rightarrow>
       if b then Some (ENDPOINT_RWCSTREAM_NoError, s)
       else (case rd e GPIOR0 s of (USB_DeviceState_LCL, s) \<Rightarrow>
         if USB_DeviceState_LCL = DEVICE_STATE_Unattached then Some (ENDPOINT_RWCSTREAM_DeviceDisconnected, s)
         else if USB_DeviceState_LCL = DEVICE_STATE_Suspended then Some (ENDPOINT_RWCSTREAM_BusSuspended, s)
         else wait_status e n s))"

declare wait_status.simps [code]

definition control_write :: "stream_macros \<Rightarrow> control_fun" where
  "control_write m e Buffer Length s =
     (let DataStream = Buffer + BUFFER_OFFSET m Length;
          (Length, s) =
            (if Length > wLength (USB_ControlRequest s) then (wLength (USB_ControlRequest s), s)
             else if Length = 0 then (Length, Endpoint_ClearIN e s)
             else (Length, s))
      in do {
        (r, s) \<leftarrow> control_write_loop m e DataStream Length False s;
        (case r of Some code \<Rightarrow> Some (code, s) | None \<Rightarrow> wait_status e RXOUTI s)
      })"

function drain_bank :: "stream_macros \<Rightarrow> env \<Rightarrow> u16 \<Rightarrow> u16 \<Rightarrow> usb_dev \<Rightarrow> u16 \<times> u16 \<times> usb_dev" where
  "drain_bank m e DataStream Length s =
     (if Length = 0 then (DataStream, Length, s)
      else (case Endpoint_BytesInEndpoint e s of (n, s) \<Rightarrow>
        if n = 0 then (DataStream, Length, s)
        else drain_bank m e (BUFFER_MOVE m DataStream 1) (Length - 1) (TRANSFER_BYTE m e DataStream s)))"
  by pat_completeness auto
termination
  by (relation "measure (\<lambda>(m, e, p, n, s). unat n)") (auto simp: word_pred_lt)

declare drain_bank.simps [simp del]

partial_function (option) control_read_loop :: "stream_macros \<Rightarrow> env \<Rightarrow> u16 \<Rightarrow> u16 \<Rightarrow> usb_dev
    \<Rightarrow> (u8 option \<times> usb_dev) option" where
  "control_read_loop m e DataStream Length s =
     (if Length \<noteq> 0
      then (case rd e GPIOR0 s of (USB_DeviceState_LCL, s) \<Rightarrow>
        if USB_DeviceState_LCL = DEVICE_STATE_Unattached then Some (Some ENDPOINT_RWCSTREAM_DeviceDisconnected, s)
        else if USB_DeviceState_LCL = DEVICE_STATE_Suspended then Some (Some ENDPOINT_RWCSTREAM_BusSuspended, s)
        else (case Endpoint_IsSETUPReceived e s of (setup, s) \<Rightarrow>
          if setup then Some (Some ENDPOINT_RWCSTREAM_HostAborted, s)
          else (case Endpoint_IsOUTReceived e s of (out, s) \<Rightarrow>
            if out
            then (case drain_bank m e DataStream Length s of (DataStream, Length, s) \<Rightarrow>
              control_read_loop m e DataStream Length (Endpoint_ClearOUT e s))
            else control_read_loop m e DataStream Length s)))
      else Some (None, s))"

declare control_read_loop.simps [code]

definition control_read :: "stream_macros \<Rightarrow> control_fun" where
  "control_read m e Buffer Length s =
     (let DataStream = Buffer + BUFFER_OFFSET m Length;
          s = (if Length = 0 then Endpoint_ClearOUT e s else s)
      in do {
        (r, s) \<leftarrow> control_read_loop m e DataStream Length s;
        (case r of Some code \<Rightarrow> Some (code, s) | None \<Rightarrow> wait_status e TXINI s)
      })"

definition Endpoint_Write_Control_Stream_LE :: control_fun where
  "Endpoint_Write_Control_Stream_LE = control_write (write_up mem)"

definition Endpoint_Write_Control_Stream_BE :: control_fun where
  "Endpoint_Write_Control_Stream_BE = control_write (write_down mem)"

definition Endpoint_Read_Control_Stream_LE :: control_fun where
  "Endpoint_Read_Control_Stream_LE = control_read (read_up put_mem)"

definition Endpoint_Read_Control_Stream_BE :: control_fun where
  "Endpoint_Read_Control_Stream_BE = control_read (read_down put_mem)"

definition Endpoint_Write_Control_PStream_LE :: control_fun where
  "Endpoint_Write_Control_PStream_LE = control_write (write_up flash)"

definition Endpoint_Write_Control_PStream_BE :: control_fun where
  "Endpoint_Write_Control_PStream_BE = control_write (write_down flash)"

definition Endpoint_Write_Control_EStream_LE :: control_fun where
  "Endpoint_Write_Control_EStream_LE = control_write (write_up eeprom)"

definition Endpoint_Write_Control_EStream_BE :: control_fun where
  "Endpoint_Write_Control_EStream_BE = control_write (write_down eeprom)"

definition Endpoint_Read_Control_EStream_LE :: control_fun where
  "Endpoint_Read_Control_EStream_LE = control_read (read_up eeprom_update_byte)"

definition Endpoint_Read_Control_EStream_BE :: control_fun where
  "Endpoint_Read_Control_EStream_BE = control_read (read_down eeprom_update_byte)"

end
