(* ===== verification/Usb_Controller.thy ===== *)
theory Usb_Controller
  imports Endpoint
begin

section \<open>The controller: USBController\_AVR8, USBInterrupt\_AVR8.h and Device\_AVR8\<close>

text \<open>
  Power, clock, interrupt masks and device address of the USB controller, and the functions that start
  and stop it, in the device-only build for the ATmega8U2 with the static options full speed,
  regulator on and automatic PLL. \<^verbatim>\<open>USB_PLL_PSC\<close> is the prescaler for a 16 MHz crystal.
\<close>

definition USB_OPT_REG_DISABLED :: u8 where "USB_OPT_REG_DISABLED = push_bit 1 1"
definition USB_OPT_REG_ENABLED :: u8 where "USB_OPT_REG_ENABLED = push_bit 1 0"
definition USB_OPT_MANUAL_PLL :: u8 where "USB_OPT_MANUAL_PLL = push_bit 2 1"
definition USB_OPT_AUTO_PLL :: u8 where "USB_OPT_AUTO_PLL = push_bit 2 0"
definition USB_DEVICE_OPT_FULLSPEED :: u8 where "USB_DEVICE_OPT_FULLSPEED = push_bit 0 0"

definition USB_Options :: u8 where
  "USB_Options = USB_DEVICE_OPT_FULLSPEED OR USB_OPT_REG_ENABLED OR USB_OPT_AUTO_PLL"

definition USB_PLL_PSC :: u8 where "USB_PLL_PSC = push_bit PLLP0 1"

lemmas option_defs = USB_Options_def USB_OPT_REG_DISABLED_def USB_OPT_REG_ENABLED_def USB_OPT_MANUAL_PLL_def
  USB_OPT_AUTO_PLL_def USB_DEVICE_OPT_FULLSPEED_def

subsection \<open>Power and clock\<close>

definition USB_Detach :: "env \<Rightarrow> usb_dev \<Rightarrow> usb_dev" where
  "USB_Detach e = set_bit_io e UDCON DETACH"

definition USB_Attach :: "env \<Rightarrow> usb_dev \<Rightarrow> usb_dev" where
  "USB_Attach e = clear_bit_io e UDCON DETACH"

definition USB_PLL_On :: "usb_dev \<Rightarrow> usb_dev" where
  "USB_PLL_On s = wr PLLCSR (USB_PLL_PSC OR push_bit PLLE 1) (wr PLLCSR USB_PLL_PSC s)"

definition USB_PLL_Off :: "usb_dev \<Rightarrow> usb_dev" where
  "USB_PLL_Off = wr PLLCSR 0"

definition USB_PLL_IsReady :: "env \<Rightarrow> usb_dev \<Rightarrow> bool \<times> usb_dev" where
  "USB_PLL_IsReady e = test_bit_io e PLLCSR PLOCK"

definition USB_REG_On :: "env \<Rightarrow> usb_dev \<Rightarrow> usb_dev" where
  "USB_REG_On e = clear_bit_io e REGCR REGDIS"

definition USB_REG_Off :: "env \<Rightarrow> usb_dev \<Rightarrow> usb_dev" where
  "USB_REG_Off e = set_bit_io e REGCR REGDIS"

definition USB_CLK_Freeze :: "env \<Rightarrow> usb_dev \<Rightarrow> usb_dev" where
  "USB_CLK_Freeze e = set_bit_io e USBCON FRZCLK"

definition USB_CLK_Unfreeze :: "env \<Rightarrow> usb_dev \<Rightarrow> usb_dev" where
  "USB_CLK_Unfreeze e = clear_bit_io e USBCON FRZCLK"

definition USB_Controller_Enable :: "env \<Rightarrow> usb_dev \<Rightarrow> usb_dev" where
  "USB_Controller_Enable e = set_bit_io e USBCON USBE"

definition USB_Controller_Disable :: "env \<Rightarrow> usb_dev \<Rightarrow> usb_dev" where
  "USB_Controller_Disable e = clear_bit_io e USBCON USBE"

definition USB_Controller_Reset :: "env \<Rightarrow> usb_dev \<Rightarrow> usb_dev" where
  "USB_Controller_Reset e s = set_bit_io e USBCON USBE (clear_bit_io e USBCON USBE s)"

text \<open>The loop \<^verbatim>\<open>while (!(USB_PLL_IsReady()));\<close> is \<open>wait_pll\<close>.\<close>

partial_function (option) wait_pll :: "env \<Rightarrow> usb_dev \<Rightarrow> usb_dev option" where
  "wait_pll e s = (case USB_PLL_IsReady e s of (ready, s) \<Rightarrow> if ready then Some s else wait_pll e s)"

declare wait_pll.simps [code]

subsection \<open>Interrupt masks and flags\<close>

datatype USB_Interrupts_t = USB_INT_WAKEUPI | USB_INT_SUSPI | USB_INT_EORSTI | USB_INT_SOFI | USB_INT_RXSTPI

fun USB_INT_Enable :: "env \<Rightarrow> USB_Interrupts_t \<Rightarrow> usb_dev \<Rightarrow> usb_dev" where
  "USB_INT_Enable e USB_INT_WAKEUPI = set_bit_io e UDIEN WAKEUPI"
| "USB_INT_Enable e USB_INT_SUSPI = set_bit_io e UDIEN SUSPI"
| "USB_INT_Enable e USB_INT_EORSTI = set_bit_io e UDIEN EORSTI"
| "USB_INT_Enable e USB_INT_SOFI = set_bit_io e UDIEN SOFI"
| "USB_INT_Enable e USB_INT_RXSTPI = set_bit_io e UEIENX RXSTPE"

fun USB_INT_Disable :: "env \<Rightarrow> USB_Interrupts_t \<Rightarrow> usb_dev \<Rightarrow> usb_dev" where
  "USB_INT_Disable e USB_INT_WAKEUPI = clear_bit_io e UDIEN WAKEUPI"
| "USB_INT_Disable e USB_INT_SUSPI = clear_bit_io e UDIEN SUSPI"
| "USB_INT_Disable e USB_INT_EORSTI = clear_bit_io e UDIEN EORSTI"
| "USB_INT_Disable e USB_INT_SOFI = clear_bit_io e UDIEN SOFI"
| "USB_INT_Disable e USB_INT_RXSTPI = clear_bit_io e UEIENX RXSTPE"

fun USB_INT_Clear :: "env \<Rightarrow> USB_Interrupts_t \<Rightarrow> usb_dev \<Rightarrow> usb_dev" where
  "USB_INT_Clear e USB_INT_WAKEUPI = clear_bit_io e UDINT WAKEUPI"
| "USB_INT_Clear e USB_INT_SUSPI = clear_bit_io e UDINT SUSPI"
| "USB_INT_Clear e USB_INT_EORSTI = clear_bit_io e UDINT EORSTI"
| "USB_INT_Clear e USB_INT_SOFI = clear_bit_io e UDINT SOFI"
| "USB_INT_Clear e USB_INT_RXSTPI = clear_bit_io e UEINTX RXSTPI"

fun USB_INT_IsEnabled :: "env \<Rightarrow> USB_Interrupts_t \<Rightarrow> usb_dev \<Rightarrow> bool \<times> usb_dev" where
  "USB_INT_IsEnabled e USB_INT_WAKEUPI = test_bit_io e UDIEN WAKEUPI"
| "USB_INT_IsEnabled e USB_INT_SUSPI = test_bit_io e UDIEN SUSPI"
| "USB_INT_IsEnabled e USB_INT_EORSTI = test_bit_io e UDIEN EORSTI"
| "USB_INT_IsEnabled e USB_INT_SOFI = test_bit_io e UDIEN SOFI"
| "USB_INT_IsEnabled e USB_INT_RXSTPI = test_bit_io e UEIENX RXSTPE"

fun USB_INT_HasOccurred :: "env \<Rightarrow> USB_Interrupts_t \<Rightarrow> usb_dev \<Rightarrow> bool \<times> usb_dev" where
  "USB_INT_HasOccurred e USB_INT_WAKEUPI = test_bit_io e UDINT WAKEUPI"
| "USB_INT_HasOccurred e USB_INT_SUSPI = test_bit_io e UDINT SUSPI"
| "USB_INT_HasOccurred e USB_INT_EORSTI = test_bit_io e UDINT EORSTI"
| "USB_INT_HasOccurred e USB_INT_SOFI = test_bit_io e UDINT SOFI"
| "USB_INT_HasOccurred e USB_INT_RXSTPI = test_bit_io e UEINTX RXSTPI"

definition USB_INT_DisableAllInterrupts :: "usb_dev \<Rightarrow> usb_dev" where
  "USB_INT_DisableAllInterrupts = wr UDIEN 0"

definition USB_INT_ClearAllInterrupts :: "usb_dev \<Rightarrow> usb_dev" where
  "USB_INT_ClearAllInterrupts = wr UDINT 0"

subsection \<open>The device: address, frames, remote wake-up, serial number\<close>

definition USB_Device_EnableSOFEvents :: "env \<Rightarrow> usb_dev \<Rightarrow> usb_dev" where
  "USB_Device_EnableSOFEvents e = USB_INT_Enable e USB_INT_SOFI"

definition USB_Device_DisableSOFEvents :: "env \<Rightarrow> usb_dev \<Rightarrow> usb_dev" where
  "USB_Device_DisableSOFEvents e = USB_INT_Disable e USB_INT_SOFI"

definition USB_Device_SetDeviceAddress :: "env \<Rightarrow> u8 \<Rightarrow> usb_dev \<Rightarrow> usb_dev" where
  "USB_Device_SetDeviceAddress e Address s =
     (let (v, s) = rd e UDADDR s in wr UDADDR ((v AND push_bit ADDEN 1) OR (Address AND 0x7F)) s)"

definition USB_Device_EnableDeviceAddress :: "env \<Rightarrow> u8 \<Rightarrow> usb_dev \<Rightarrow> usb_dev" where
  "USB_Device_EnableDeviceAddress e Address = set_bit_io e UDADDR ADDEN"

definition USB_Device_IsAddressSet :: "env \<Rightarrow> usb_dev \<Rightarrow> bool \<times> usb_dev" where
  "USB_Device_IsAddressSet e = test_bit_io e UDADDR ADDEN"

text \<open>\<^verbatim>\<open>boot_signature_byte_get\<close> reads the signature row of the chip, which is the argument \<open>signature\<close>.\<close>

definition INTERNAL_SERIAL_LENGTH_BITS :: nat where "INTERNAL_SERIAL_LENGTH_BITS = 80"
definition INTERNAL_SERIAL_START_ADDRESS :: u8 where "INTERNAL_SERIAL_START_ADDRESS = 0x0E"

function serial_loop :: "(u8 \<Rightarrow> u8) \<Rightarrow> u8 \<Rightarrow> u8 \<Rightarrow> u16 list" where
  "serial_loop signature SerialCharNum SigReadAddress =
     (if unat SerialCharNum < INTERNAL_SERIAL_LENGTH_BITS div 4
      then (let SerialByte = signature SigReadAddress;
                (SerialByte, SigReadAddress) =
                  (if SerialCharNum AND 0x01 \<noteq> 0 then (drop_bit 4 SerialByte, SigReadAddress + 1)
                   else (SerialByte, SigReadAddress));
                SerialByte = SerialByte AND 0x0F
            in (if SerialByte \<ge> 10 then ucast (ch (CHR ''A'')) - 10 + ucast SerialByte
                else ucast (ch (CHR ''0'')) + ucast SerialByte)
               # serial_loop signature (SerialCharNum + 1) SigReadAddress)
      else [])"
  by pat_completeness auto
termination
proof (relation "measure (\<lambda>(g, i, a). 20 - unat i)", simp)
  fix g and i a :: u8 and x y p q z
  assume "unat i < INTERNAL_SERIAL_LENGTH_BITS div 4"
  then have i: "unat i < 20" by (simp add: INTERNAL_SERIAL_LENGTH_BITS_def)
  then have "i < 20" by (simp add: word_less_nat_alt)
  then have "unat (i + 1) = Suc (unat i)" by (rule unat_succ)
  then show "((g, i + 1, q), g, i, a) \<in> measure (\<lambda>(g, i, a). 20 - unat i)" using i by simp
qed

declare serial_loop.simps [simp del]

definition USB_Device_GetSerialString :: "(u8 \<Rightarrow> u8) \<Rightarrow> usb_dev \<Rightarrow> u16 list \<times> usb_dev" where
  "USB_Device_GetSerialString signature s =
     (let CurrentGlobalInt = GetGlobalInterruptMask s;
          s = GlobalInterruptDisable s;
          UnicodeString = serial_loop signature 0 INTERNAL_SERIAL_START_ADDRESS
      in (UnicodeString, SetGlobalInterruptMask CurrentGlobalInt s))"

definition USB_Device_SendRemoteWakeup :: "env \<Rightarrow> usb_dev \<Rightarrow> usb_dev option" where
  "USB_Device_SendRemoteWakeup e s = do {
     s \<leftarrow> (if USB_Options AND USB_OPT_MANUAL_PLL = 0 then wait_pll e (USB_PLL_On s) else Some s);
     wait_bit_clear e UDCON RMWKUP (set_bit_io e UDCON RMWKUP (USB_CLK_Unfreeze e s))
   }"

subsection \<open>Starting and stopping the controller\<close>

definition EP_TYPE_CONTROL :: u8 where "EP_TYPE_CONTROL = 0x00"
definition EP_TYPE_BULK :: u8 where "EP_TYPE_BULK = 0x02"
definition EP_TYPE_INTERRUPT :: u8 where "EP_TYPE_INTERRUPT = 0x03"

definition USB_Init_Device :: "env \<Rightarrow> usb_dev \<Rightarrow> usb_dev option" where
  "USB_Init_Device e s =
     (let s = wr GPIOR0 DEVICE_STATE_Unattached s;
          s = s\<lparr>USB_Device_ConfigurationNumber := 0\<rparr>;
          s = s\<lparr>USB_Device_RemoteWakeupEnabled := False\<rparr>;
          s = s\<lparr>USB_Device_CurrentlySelfPowered := False\<rparr>
      in do {
        (ok, s) \<leftarrow> Endpoint_ConfigureEndpoint e ENDPOINT_CONTROLEP EP_TYPE_CONTROL USB_Device_ControlEndpointSize 1 s;
        Some (let s = USB_INT_Clear e USB_INT_SUSPI s;
                  s = USB_INT_Enable e USB_INT_SUSPI s;
                  s = USB_INT_Enable e USB_INT_EORSTI s
              in USB_Attach e s)
      })"

definition USB_ResetInterface :: "env \<Rightarrow> usb_dev \<Rightarrow> usb_dev option" where
  "USB_ResetInterface e s =
     (let s = USB_INT_DisableAllInterrupts s;
          s = USB_INT_ClearAllInterrupts s;
          s = USB_Controller_Reset e s;
          s = USB_CLK_Unfreeze e s
      in do {
        s \<leftarrow> (if USB_Options AND USB_OPT_MANUAL_PLL = 0 then wait_pll e (USB_PLL_On s) else Some s);
        USB_Init_Device e s
      })"

definition USB_Init :: "env \<Rightarrow> usb_dev \<Rightarrow> usb_dev option" where
  "USB_Init e s =
     (let s = (if USB_Options AND USB_OPT_REG_DISABLED = 0 then USB_REG_On e s else USB_REG_Off e s);
          s = s\<lparr>USB_IsInitialized := True\<rparr>
      in USB_ResetInterface e s)"

definition USB_Disable :: "env \<Rightarrow> usb_dev \<Rightarrow> usb_dev" where
  "USB_Disable e s =
     (let s = USB_INT_DisableAllInterrupts s;
          s = USB_INT_ClearAllInterrupts s;
          s = USB_Detach e s;
          s = USB_Controller_Disable e s;
          s = (if USB_Options AND USB_OPT_MANUAL_PLL = 0 then USB_PLL_Off s else s);
          s = USB_REG_Off e s
      in s\<lparr>USB_IsInitialized := False\<rparr>)"

end
