(* ===== verification/Cdc_Device.thy ===== *)
theory Cdc_Device
  imports Endpoint_Stream Usb_Controller
begin

section \<open>The virtual serial port: CDCClassDevice.c\<close>

text \<open>
  The CDC class driver works on one interface, the application's \<^verbatim>\<open>VirtualSerial_CDC_Interface\<close>, which is
  a field of the state. The class events are the application's functions of \<^verbatim>\<open>c_locc.c\<close> or the empty
  stub; none of them does anything.
\<close>

subsection \<open>Constants\<close>

definition REQDIR_HOSTTODEVICE :: u8 where "REQDIR_HOSTTODEVICE = push_bit 7 0"
definition REQDIR_DEVICETOHOST :: u8 where "REQDIR_DEVICETOHOST = push_bit 7 1"
definition REQTYPE_STANDARD :: u8 where "REQTYPE_STANDARD = push_bit 5 0"
definition REQTYPE_CLASS :: u8 where "REQTYPE_CLASS = push_bit 5 1"
definition REQREC_DEVICE :: u8 where "REQREC_DEVICE = push_bit 0 0"
definition REQREC_INTERFACE :: u8 where "REQREC_INTERFACE = push_bit 0 1"
definition REQREC_ENDPOINT :: u8 where "REQREC_ENDPOINT = push_bit 0 2"
definition CONTROL_REQTYPE_RECIPIENT :: u8 where "CONTROL_REQTYPE_RECIPIENT = 0x1F"

definition CDC_REQ_SetLineEncoding :: u8 where "CDC_REQ_SetLineEncoding = 0x20"
definition CDC_REQ_GetLineEncoding :: u8 where "CDC_REQ_GetLineEncoding = 0x21"
definition CDC_REQ_SetControlLineState :: u8 where "CDC_REQ_SetControlLineState = 0x22"
definition CDC_REQ_SendBreak :: u8 where "CDC_REQ_SendBreak = 0x23"
definition CDC_NOTIF_SerialState :: u8 where "CDC_NOTIF_SerialState = 0x20"

named_theorems req_consts \<open>the numbers of the control requests\<close>

declare REQDIR_HOSTTODEVICE_def [req_consts] REQDIR_DEVICETOHOST_def [req_consts] REQTYPE_STANDARD_def [req_consts]
  REQTYPE_CLASS_def [req_consts] REQREC_DEVICE_def [req_consts] REQREC_INTERFACE_def [req_consts]
  REQREC_ENDPOINT_def [req_consts] CONTROL_REQTYPE_RECIPIENT_def [req_consts]
  CDC_REQ_SetLineEncoding_def [req_consts] CDC_REQ_GetLineEncoding_def [req_consts]
  CDC_REQ_SetControlLineState_def [req_consts] CDC_REQ_SendBreak_def [req_consts]
  CDC_NOTIF_SerialState_def [req_consts]

subsection \<open>Control requests\<close>

definition cdc_line :: "usb_dev \<Rightarrow> CDC_LineEncoding_t" where
  "cdc_line s = LineEncoding (VirtualSerial_CDC_Interface s)"

definition set_cdc_line :: "CDC_LineEncoding_t \<Rightarrow> usb_dev \<Rightarrow> usb_dev" where
  "set_cdc_line l s = s\<lparr>VirtualSerial_CDC_Interface := (VirtualSerial_CDC_Interface s)\<lparr>LineEncoding := l\<rparr>\<rparr>"

definition EVENT_CDC_Device_LineEncodingChanged :: "usb_dev \<Rightarrow> usb_dev" where
  "EVENT_CDC_Device_LineEncodingChanged s = s"

definition CDC_Device_Event_Stub :: "usb_dev \<Rightarrow> usb_dev" where
  "CDC_Device_Event_Stub s = s"

definition get_line_encoding :: "env \<Rightarrow> usb_dev \<Rightarrow> usb_dev option" where
  "get_line_encoding e s = do {
     s \<leftarrow> wait_bit e UEINTX TXINI (Endpoint_ClearSETUP e s);
     let s = Endpoint_Write_32_LE (BaudRateBPS (cdc_line s)) s;
         s = Endpoint_Write_8 (CharFormat (cdc_line s)) s;
         s = Endpoint_Write_8 (ParityType (cdc_line s)) s;
         s = Endpoint_Write_8 (DataBits (cdc_line s)) s
     in Endpoint_ClearStatusStage e (Endpoint_ClearIN e s)
   }"

definition set_line_encoding :: "env \<Rightarrow> usb_dev \<Rightarrow> usb_dev option" where
  "set_line_encoding e s = do {
     (received, s) \<leftarrow> wait_attached e RXOUTI (Endpoint_ClearSETUP e s);
     if \<not> received then Some s
     else do {
       let (BaudRate, s) = Endpoint_Read_32_LE e s;
           s = set_cdc_line ((cdc_line s)\<lparr>BaudRateBPS := BaudRate\<rparr>) s;
           (Format, s) = Endpoint_Read_8 e s;
           s = set_cdc_line ((cdc_line s)\<lparr>CharFormat := Format\<rparr>) s;
           (Parity, s) = Endpoint_Read_8 e s;
           s = set_cdc_line ((cdc_line s)\<lparr>ParityType := Parity\<rparr>) s;
           (Bits, s) = Endpoint_Read_8 e s;
           s = set_cdc_line ((cdc_line s)\<lparr>DataBits := Bits\<rparr>) s
       in do {
         s \<leftarrow> Endpoint_ClearStatusStage e (Endpoint_ClearOUT e s);
         Some (EVENT_CDC_Device_LineEncodingChanged s)
       }
     }
   }"

definition set_control_line_state :: "env \<Rightarrow> usb_dev \<Rightarrow> usb_dev option" where
  "set_control_line_state e s = do {
     s \<leftarrow> Endpoint_ClearStatusStage e (Endpoint_ClearSETUP e s);
     Some (CDC_Device_Event_Stub (s\<lparr>VirtualSerial_CDC_Interface :=
       (VirtualSerial_CDC_Interface s)\<lparr>HostToDevice := wValue (USB_ControlRequest s)\<rparr>\<rparr>))
   }"

definition send_break :: "env \<Rightarrow> usb_dev \<Rightarrow> usb_dev option" where
  "send_break e s = do {
     s \<leftarrow> Endpoint_ClearStatusStage e (Endpoint_ClearSETUP e s);
     Some (CDC_Device_Event_Stub s)
   }"

definition CDC_Device_ProcessControlRequest :: "env \<Rightarrow> usb_dev \<Rightarrow> usb_dev option" where
  "CDC_Device_ProcessControlRequest e s =
     (let (setup, s) = Endpoint_IsSETUPReceived e s;
          r = USB_ControlRequest s
      in if \<not> setup then Some s
         else if wIndex r \<noteq> ucast (ControlInterfaceNumber (VirtualSerial_CDC_Interface s)) then Some s
         else if bRequest r = CDC_REQ_GetLineEncoding then
           if bmRequestType r = REQDIR_DEVICETOHOST OR REQTYPE_CLASS OR REQREC_INTERFACE
           then get_line_encoding e s else Some s
         else if bRequest r = CDC_REQ_SetLineEncoding then
           if bmRequestType r = REQDIR_HOSTTODEVICE OR REQTYPE_CLASS OR REQREC_INTERFACE
           then set_line_encoding e s else Some s
         else if bRequest r = CDC_REQ_SetControlLineState then
           if bmRequestType r = REQDIR_HOSTTODEVICE OR REQTYPE_CLASS OR REQREC_INTERFACE
           then set_control_line_state e s else Some s
         else if bRequest r = CDC_REQ_SendBreak then
           if bmRequestType r = REQDIR_HOSTTODEVICE OR REQTYPE_CLASS OR REQREC_INTERFACE
           then send_break e s else Some s
         else Some s)"

subsection \<open>Endpoints\<close>

definition clear_cdc_state :: "USB_ClassInfo_CDC_Device_t \<Rightarrow> USB_ClassInfo_CDC_Device_t" where
  "clear_cdc_state i = i\<lparr>HostToDevice := 0, DeviceToHost := 0,
     LineEncoding := \<lparr>BaudRateBPS = 0, CharFormat = 0, ParityType = 0, DataBits = 0\<rparr>\<rparr>"

definition CDC_Device_ConfigureEndpoints :: "env \<Rightarrow> usb_dev \<Rightarrow> (bool \<times> usb_dev) option" where
  "CDC_Device_ConfigureEndpoints e s =
     (let i = clear_cdc_state (VirtualSerial_CDC_Interface s);
          i = i\<lparr>DataINEndpoint := (DataINEndpoint i)\<lparr>epType := EP_TYPE_BULK\<rparr>,
                DataOUTEndpoint := (DataOUTEndpoint i)\<lparr>epType := EP_TYPE_BULK\<rparr>,
                NotificationEndpoint := (NotificationEndpoint i)\<lparr>epType := EP_TYPE_INTERRUPT\<rparr>\<rparr>;
          s = s\<lparr>VirtualSerial_CDC_Interface := i\<rparr>
      in do {
        (ok, s) \<leftarrow> Endpoint_ConfigureEndpointTable e [DataINEndpoint i] s;
        if \<not> ok then Some (False, s)
        else do {
          (ok, s) \<leftarrow> Endpoint_ConfigureEndpointTable e [DataOUTEndpoint i] s;
          if \<not> ok then Some (False, s)
          else do {
            (ok, s) \<leftarrow> Endpoint_ConfigureEndpointTable e [NotificationEndpoint i] s;
            if \<not> ok then Some (False, s) else Some (True, s)
          }
        }
      })"

text \<open>
  The guard every data function starts with: the device is configured and the host has set a baud
  rate.
\<close>

definition cdc_unusable :: "env \<Rightarrow> usb_dev \<Rightarrow> bool \<times> usb_dev" where
  "cdc_unusable e s =
     (let (st, s) = rd e GPIOR0 s in (st \<noteq> DEVICE_STATE_Configured \<or> BaudRateBPS (cdc_line s) = 0, s))"

definition select_in :: "usb_dev \<Rightarrow> usb_dev" where
  "select_in s = Endpoint_SelectEndpoint (epAddress (DataINEndpoint (VirtualSerial_CDC_Interface s))) s"

definition select_out :: "usb_dev \<Rightarrow> usb_dev" where
  "select_out s = Endpoint_SelectEndpoint (epAddress (DataOUTEndpoint (VirtualSerial_CDC_Interface s))) s"

definition CDC_Device_Flush :: "env \<Rightarrow> usb_dev \<Rightarrow> (u8 \<times> usb_dev) option" where
  "CDC_Device_Flush e s =
     (let (unusable, s) = cdc_unusable e s
      in if unusable then Some (ENDPOINT_RWSTREAM_DeviceDisconnected, s)
         else
           (let (n, s) = Endpoint_BytesInEndpoint e (select_in s)
            in if n = 0 then Some (ready_code ENDPOINT_READYWAIT_NoError, s)
               else
                 (let (allowed, s) = Endpoint_IsReadWriteAllowed e s;
                      BankFull = (\<not> allowed);
                      s = Endpoint_ClearIN e s
                  in if BankFull
                     then do {
                       (ErrorCode, s) \<leftarrow> Endpoint_WaitUntilReady e s;
                       if ErrorCode \<noteq> ENDPOINT_READYWAIT_NoError then Some (ready_code ErrorCode, s)
                       else Some (ready_code ENDPOINT_READYWAIT_NoError, Endpoint_ClearIN e s)
                     }
                     else Some (ready_code ENDPOINT_READYWAIT_NoError, s))))"

definition CDC_Device_USBTask :: "env \<Rightarrow> usb_dev \<Rightarrow> usb_dev option" where
  "CDC_Device_USBTask e s =
     (let (unusable, s) = cdc_unusable e s
      in if unusable then Some s
         else
           (let (ready, s) = Endpoint_IsINReady e (select_in s)
            in if ready then map_option snd (CDC_Device_Flush e s) else Some s))"

text \<open>\<^verbatim>\<open>strlen\<close> on the data memory.\<close>

partial_function (option) strlen :: "(u16 \<Rightarrow> u8) \<Rightarrow> u16 \<Rightarrow> u16 \<Rightarrow> u16 option" where
  "strlen m p n = (if m (p + n) = 0 then Some n else strlen m p (n + 1))"

declare strlen.simps [code]

definition CDC_Device_SendString :: "env \<Rightarrow> u16 \<Rightarrow> usb_dev \<Rightarrow> (u8 \<times> usb_dev) option" where
  "CDC_Device_SendString e String s =
     (let (unusable, s) = cdc_unusable e s
      in if unusable then Some (ENDPOINT_RWSTREAM_DeviceDisconnected, s)
         else do {
           let s = select_in s in do {
             n \<leftarrow> strlen (mem s) String 0;
             (code, bp, s) \<leftarrow> Endpoint_Write_Stream_LE e String n None s;
             Some (code, s)
           }
         })"

definition CDC_Device_SendData :: "env \<Rightarrow> u16 \<Rightarrow> u16 \<Rightarrow> usb_dev \<Rightarrow> (u8 \<times> usb_dev) option" where
  "CDC_Device_SendData e Buffer Length s =
     (let (unusable, s) = cdc_unusable e s
      in if unusable then Some (ENDPOINT_RWSTREAM_DeviceDisconnected, s)
         else do {
           (code, bp, s) \<leftarrow> Endpoint_Write_Stream_LE e Buffer Length None (select_in s);
           Some (code, s)
         })"

definition CDC_Device_SendByte :: "env \<Rightarrow> u8 \<Rightarrow> usb_dev \<Rightarrow> (u8 \<times> usb_dev) option" where
  "CDC_Device_SendByte e Data s =
     (let (unusable, s) = cdc_unusable e s
      in if unusable then Some (ENDPOINT_RWSTREAM_DeviceDisconnected, s)
         else
           (let (allowed, s) = Endpoint_IsReadWriteAllowed e (select_in s)
            in if \<not> allowed
               then do {
                 (ErrorCode, s) \<leftarrow> Endpoint_WaitUntilReady e (Endpoint_ClearIN e s);
                 if ErrorCode \<noteq> ENDPOINT_READYWAIT_NoError then Some (ready_code ErrorCode, s)
                 else Some (ready_code ENDPOINT_READYWAIT_NoError, Endpoint_Write_8 Data s)
               }
               else Some (ready_code ENDPOINT_READYWAIT_NoError, Endpoint_Write_8 Data s)))"

definition CDC_Device_BytesReceived :: "env \<Rightarrow> usb_dev \<Rightarrow> u16 \<times> usb_dev" where
  "CDC_Device_BytesReceived e s =
     (let (unusable, s) = cdc_unusable e s
      in if unusable then (0, s)
         else
           (let (received, s) = Endpoint_IsOUTReceived e (select_out s)
            in if received
               then (let (n, s) = Endpoint_BytesInEndpoint e s
                     in if n = 0 then (0, Endpoint_ClearOUT e s) else Endpoint_BytesInEndpoint e s)
               else (0, s)))"

text \<open>The result is an \<^verbatim>\<open>int16_t\<close>: -1 or a byte.\<close>

definition CDC_Device_ReceiveByte :: "env \<Rightarrow> usb_dev \<Rightarrow> int \<times> usb_dev" where
  "CDC_Device_ReceiveByte e s =
     (let (unusable, s) = cdc_unusable e s
      in if unusable then (- 1, s)
         else
           (let ReceivedByte = - 1;
                (received, s) = Endpoint_IsOUTReceived e (select_out s)
            in if received
               then (let (n, s) = Endpoint_BytesInEndpoint e s;
                         (ReceivedByte, s) =
                           (if n \<noteq> 0 then (let (b, s) = Endpoint_Read_8 e s in (uint b, s)) else (ReceivedByte, s));
                         (n, s) = Endpoint_BytesInEndpoint e s
                     in (ReceivedByte, if n = 0 then Endpoint_ClearOUT e s else s))
               else (ReceivedByte, s)))"

text \<open>
  The notification is written from two objects in memory, the request header on the stack at
  \<open>Notification\<close> and the line states at \<open>States\<close>.
\<close>

definition header_bytes :: "USB_Request_Header_t \<Rightarrow> u8 list" where
  "header_bytes r = [bmRequestType r, bRequest r] @ bytes16 (wValue r) @ bytes16 (wIndex r) @ bytes16 (wLength r)"

fun put_bytes :: "u16 \<Rightarrow> u8 list \<Rightarrow> usb_dev \<Rightarrow> usb_dev" where
  "put_bytes p [] s = s"
| "put_bytes p (b # bs) s = put_bytes (p + 1) bs (put_mem p b s)"

definition CDC_Device_SendControlLineStateChange :: "env \<Rightarrow> u16 \<Rightarrow> u16 \<Rightarrow> usb_dev \<Rightarrow> usb_dev option" where
  "CDC_Device_SendControlLineStateChange e Notification States s =
     (let (unusable, s) = cdc_unusable e s
      in if unusable then Some s
         else
           (let i = VirtualSerial_CDC_Interface s;
                s = Endpoint_SelectEndpoint (epAddress (NotificationEndpoint i)) s;
                s = put_bytes Notification (header_bytes
                  \<lparr>bmRequestType = REQDIR_DEVICETOHOST OR REQTYPE_CLASS OR REQREC_INTERFACE,
                   bRequest = CDC_NOTIF_SerialState, wValue = 0, wIndex = 0, wLength = 2\<rparr>) s;
                s = put_bytes States (bytes16 (DeviceToHost i)) s
            in do {
              (code, bp, s) \<leftarrow> Endpoint_Write_Stream_LE e Notification 8 None s;
              (code, bp, s) \<leftarrow> Endpoint_Write_Stream_LE e States 2 None s;
              Some (Endpoint_ClearIN e s)
            }))"

end
