(* ===== verification/Endpoint_Facts.thy ===== *)
theory Endpoint_Facts
  imports Endpoint
begin

section \<open>Correctness of the endpoint functions\<close>

text \<open>
  What the endpoint functions promise their callers: the bank size field, the byte order on the
  FIFO, and the contract of \<^verbatim>\<open>Endpoint_WaitUntilReady\<close>. A polling loop ends when the hardware makes
  progress; \<open>frames_advance\<close> is the property of the controller the time-out rests on: from any point
  on, the frame number becomes different from any given value and stays so for a few register
  accesses (a frame lasts a millisecond, which is thousands of instructions).
\<close>

subsection \<open>Bank sizes\<close>

lemma ep_size_loop_zero: "ep_size_loop b m c = Some y \<Longrightarrow> c = 0 \<Longrightarrow> b = 0"
proof -
  assume "ep_size_loop b m c = Some y"
  then have "c = 0 \<longrightarrow> b = 0"
    by (rule ep_size_loop.raw_induct [of "\<lambda>b m c y. c = 0 \<longrightarrow> b = 0", rotated])
      (auto split: if_splits simp: word_gt_0)
  then show "c = 0 \<Longrightarrow> b = 0" by simp
qed

lemma unat_power_2: "n < 16 \<Longrightarrow> unat ((2 :: u16) ^ n) = 2 ^ n"
proof -
  assume "n < 16"
  then have "(2 :: nat) ^ n < 2 ^ 16" by (intro power_strict_increasing) auto
  moreover have "(2 :: u16) ^ n = of_nat (2 ^ n)" by simp
  ultimately show ?thesis using \<open>n < 16\<close>
    by (simp add: unsigned_of_nat take_bit_nat_eq_self del: of_nat_power)
qed

lemma ep_size_loop_step:
  "ep_size_loop b m c = (if c < b then ep_size_loop b (m + 1) (push_bit 1 c) else Some m)"
  by (simp add: ep_size_loop.simps)

lemma ep_size_loop_next:
  "2 ^ (i + 3) < b \<Longrightarrow> ep_size_loop b (of_nat i) (2 ^ (i + 3)) = ep_size_loop b (of_nat (Suc i)) (2 ^ (Suc i + 3))"
proof -
  assume lt: "2 ^ (i + 3) < b"
  have "push_bit 1 ((2 :: u16) ^ (i + 3)) = 2 ^ (Suc i + 3)" by (simp add: push_bit_eq_mult power_add)
  moreover have "(of_nat i :: u8) + 1 = of_nat (Suc i)" by simp
  ultimately show ?thesis using ep_size_loop_step [of b "of_nat i" "2 ^ (i + 3)"] lt by presburger
qed

lemma ep_size_loop_find:
  "j \<le> 12 \<Longrightarrow> b \<le> 2 ^ (j + 3) \<Longrightarrow> i \<le> j \<Longrightarrow> i = 0 \<or> 2 ^ (i + 2) < b
   \<Longrightarrow> \<exists>k. i \<le> k \<and> k \<le> j \<and> ep_size_loop b (of_nat i) (2 ^ (i + 3)) = Some (of_nat k)
        \<and> b \<le> 2 ^ (k + 3) \<and> (k = 0 \<or> 2 ^ (k + 2) < b)"
proof (induction "j - i" arbitrary: i)
  case 0
  then have "i = j" by simp
  with 0 show ?case by (auto simp: ep_size_loop_step [of b _ "2 ^ (j + 3)"] not_less)
next
  case (Suc d)
  show ?case
  proof (cases "2 ^ (i + 3) < b")
    case True
    have "\<exists>k. Suc i \<le> k \<and> k \<le> j \<and> ep_size_loop b (of_nat (Suc i)) (2 ^ (Suc i + 3)) = Some (of_nat k)
        \<and> b \<le> 2 ^ (k + 3) \<and> (k = 0 \<or> 2 ^ (k + 2) < b)"
      using Suc.hyps(2) Suc.prems True by (intro Suc.hyps(1)) (auto simp: eval_nat_numeral)
    moreover have "ep_size_loop b (of_nat i) (2 ^ (i + 3)) = ep_size_loop b (of_nat (Suc i)) (2 ^ (Suc i + 3))"
      using True by (rule ep_size_loop_next)
    ultimately show ?thesis by (metis Suc_leD)
  next
    case False
    then show ?thesis
      using Suc.prems by (intro exI [of _ i]) (auto simp: ep_size_loop_step [of b _ "2 ^ (i + 3)"] not_less)
  qed
qed

lemma ep_size_loop_reaches: "0x8000 < b \<Longrightarrow> i \<le> 13 \<Longrightarrow> ep_size_loop b (of_nat i) (2 ^ (i + 3)) = None"
proof (induction "13 - i" arbitrary: i)
  case 0
  then have i: "i = 13" by simp
  have z: "(2 :: u16) ^ (13 + 3) = 0" by simp
  show ?case unfolding i z using ep_size_loop_zero [of b "of_nat 13" 0] 0(2)
    by (cases "ep_size_loop b (of_nat 13) 0") auto
next
  case (Suc d)
  have "(2 :: u16) ^ (i + 3) \<le> 0x8000"
  proof -
    have "unat ((2 :: u16) ^ (i + 3)) = 2 ^ (i + 3)" using Suc by (intro unat_power_2) simp
    moreover have "(2 :: nat) ^ (i + 3) \<le> 2 ^ 15" using Suc by (intro power_increasing) auto
    ultimately show ?thesis by (simp add: word_le_nat_alt)
  qed
  then have "2 ^ (i + 3) < b" using Suc.prems by simp
  then have "ep_size_loop b (of_nat i) (2 ^ (i + 3)) = ep_size_loop b (of_nat (Suc i)) (2 ^ (Suc i + 3))"
    by (rule ep_size_loop_next)
  also have "\<dots> = None" using Suc.hyps(2) Suc.prems by (intro Suc.hyps(1)) auto
  finally show ?case .
qed

text \<open>
  C38. The bank size field of an endpoint: for a size of at most 1024 bytes the mask is sixteen times
  the least \<open>k\<close> for which a bank of 8 times 2 to the \<open>k\<close> bytes holds that many; for a size above
  0x8000 the loop never ends, because the 16-bit bank size it doubles becomes zero.
\<close>

theorem bytes_to_size_mask:
  "(Bytes \<le> 1024 \<longrightarrow> (\<exists>k \<le> 7. Endpoint_BytesToEPSizeMask Bytes = Some (of_nat (16 * k))
      \<and> unat Bytes \<le> 8 * 2 ^ k \<and> (\<forall>j < k. 8 * 2 ^ j < unat Bytes)))
   \<and> (Bytes > 0x8000 \<longrightarrow> Endpoint_BytesToEPSizeMask Bytes = None)"
proof (intro conjI impI)
  assume "Bytes \<le> 1024"
  then have "\<exists>k. 0 \<le> k \<and> k \<le> 7 \<and> ep_size_loop Bytes (of_nat 0) (2 ^ (0 + 3)) = Some (of_nat k)
      \<and> Bytes \<le> 2 ^ (k + 3) \<and> (k = 0 \<or> 2 ^ (k + 2) < Bytes)"
    by (intro ep_size_loop_find) auto
  then obtain k where k: "k \<le> 7" and loop: "ep_size_loop Bytes 0 8 = Some (of_nat k)"
    and up: "Bytes \<le> 2 ^ (k + 3)" and low: "k = 0 \<or> 2 ^ (k + 2) < Bytes" by auto
  have u: "unat ((2 :: u16) ^ n) = 2 ^ n" if "n \<le> 10" for n using that by (intro unat_power_2) simp
  have up': "unat Bytes \<le> 8 * 2 ^ k" using up u [of "k + 3"] k unfolding word_le_nat_alt by (simp add: power_add)
  have low': "8 * 2 ^ j < unat Bytes" if "j < k" for j
  proof -
    have "(2 :: nat) ^ (j + 3) \<le> 2 ^ (k + 2)" using that by (intro power_increasing) auto
    moreover have "2 ^ (k + 2) < unat Bytes" using low k that u [of "k + 2"] unfolding word_less_nat_alt by auto
    ultimately show ?thesis by (simp add: power_add)
  qed
  have "push_bit 4 (of_nat k :: u8) = of_nat (16 * k)" by (simp add: push_bit_eq_mult)
  then show "\<exists>k \<le> 7. Endpoint_BytesToEPSizeMask Bytes = Some (of_nat (16 * k))
      \<and> unat Bytes \<le> 8 * 2 ^ k \<and> (\<forall>j < k. 8 * 2 ^ j < unat Bytes)"
    using k loop up' low' unfolding Endpoint_BytesToEPSizeMask_def by (intro exI [of _ k]) simp
next
  assume "Bytes > 0x8000"
  then show "Endpoint_BytesToEPSizeMask Bytes = None"
    using ep_size_loop_reaches [of Bytes 0] by (simp add: Endpoint_BytesToEPSizeMask_def)
qed

theorem bytes_to_size_mask_witness:
  "Endpoint_BytesToEPSizeMask 16 = Some 16 \<and> Endpoint_BytesToEPSizeMask 0x8001 = None"
proof -
  obtain k where "k \<le> 7" "Endpoint_BytesToEPSizeMask 16 = Some (of_nat (16 * k))"
      "(16 :: nat) \<le> 8 * 2 ^ k" "\<forall>j < k. (8 :: nat) * 2 ^ j < 16"
    using bytes_to_size_mask [of 16] by auto
  moreover have "k = 1"
  proof (rule ccontr)
    assume "k \<noteq> 1"
    then have "k = 0 \<or> 1 < k" by auto
    with calculation show False by auto
  qed
  ultimately show ?thesis using bytes_to_size_mask [of "0x8001"] by simp
qed

subsection \<open>Byte order on the FIFO\<close>

lemma low_byte [simp]: "ucast (w AND 0xFF :: u16) = (ucast w :: u8)" "ucast (v AND 0xFF :: u32) = (ucast v :: u8)"
proof -
  have m: "(0xFF :: u16) = mask 8" "(0xFF :: u32) = mask 8" by (simp_all add: mask_eq_exp_minus_1)
  show "ucast (w AND 0xFF :: u16) = (ucast w :: u8)" "ucast (v AND 0xFF :: u32) = (ucast v :: u8)"
    unfolding m by (rule bit_word_eqI, auto simp: bit_simps)+
qed

text \<open>
  The multi-byte accessors of an endpoint move exactly the bytes of the value, least significant
  byte first in the LE functions and most significant byte first in the BE functions, whatever the
  hardware answers: what a write puts on the FIFO and what a read has taken from it are the same
  bytes for the same value, so a value written by one and read back by its counterpart is unchanged.
\<close>

theorem fifo_byte_order:
  "writes UEDATX (hist (Endpoint_Write_16_LE d s)) = writes UEDATX (hist s) @ bytes16 d
   \<and> writes UEDATX (hist (Endpoint_Write_16_BE d s)) = writes UEDATX (hist s) @ rev (bytes16 d)
   \<and> writes UEDATX (hist (Endpoint_Write_32_LE v s)) = writes UEDATX (hist s) @ bytes32 v
   \<and> writes UEDATX (hist (Endpoint_Write_32_BE v s)) = writes UEDATX (hist s) @ rev (bytes32 v)
   \<and> reads UEDATX (hist (snd (Endpoint_Read_16_LE e s)))
     = reads UEDATX (hist s) @ bytes16 (fst (Endpoint_Read_16_LE e s))
   \<and> reads UEDATX (hist (snd (Endpoint_Read_16_BE e s)))
     = reads UEDATX (hist s) @ rev (bytes16 (fst (Endpoint_Read_16_BE e s)))
   \<and> reads UEDATX (hist (snd (Endpoint_Read_32_LE e s)))
     = reads UEDATX (hist s) @ bytes32 (fst (Endpoint_Read_32_LE e s))
   \<and> reads UEDATX (hist (snd (Endpoint_Read_32_BE e s)))
     = reads UEDATX (hist s) @ rev (bytes32 (fst (Endpoint_Read_32_BE e s)))"
proof (intro conjI)
  show "writes UEDATX (hist (Endpoint_Write_16_LE d s)) = writes UEDATX (hist s) @ bytes16 d"
    "writes UEDATX (hist (Endpoint_Write_16_BE d s)) = writes UEDATX (hist s) @ rev (bytes16 d)"
    by (simp_all add: Endpoint_Write_16_LE_def Endpoint_Write_16_BE_def io_defs bytes16_def)
  show "writes UEDATX (hist (Endpoint_Write_32_LE v s)) = writes UEDATX (hist s) @ bytes32 v"
    "writes UEDATX (hist (Endpoint_Write_32_BE v s)) = writes UEDATX (hist s) @ rev (bytes32 v)"
    by (simp_all add: Endpoint_Write_32_LE_def Endpoint_Write_32_BE_def io_defs bytes32_def)
  show "reads UEDATX (hist (snd (Endpoint_Read_16_LE e s)))
     = reads UEDATX (hist s) @ bytes16 (fst (Endpoint_Read_16_LE e s))"
    "reads UEDATX (hist (snd (Endpoint_Read_16_BE e s)))
     = reads UEDATX (hist s) @ rev (bytes16 (fst (Endpoint_Read_16_BE e s)))"
    by (simp_all add: Endpoint_Read_16_LE_def Endpoint_Read_16_BE_def io_defs)
  show "reads UEDATX (hist (snd (Endpoint_Read_32_LE e s)))
     = reads UEDATX (hist s) @ bytes32 (fst (Endpoint_Read_32_LE e s))"
    "reads UEDATX (hist (snd (Endpoint_Read_32_BE e s)))
     = reads UEDATX (hist s) @ rev (bytes32 (fst (Endpoint_Read_32_BE e s)))"
    by (simp_all add: Endpoint_Read_32_LE_def Endpoint_Read_32_BE_def io_defs)
qed

subsection \<open>Waiting until an endpoint is ready\<close>

text \<open>The frame numbers read in a history, oldest first, and how often such a sequence changes.\<close>

definition frames :: "io list \<Rightarrow> u16 list" where
  "frames h = map2 (\<lambda>l u. word16 [l, u]) (reads UDFNUML h) (reads UDFNUMH h)"

fun changes :: "u16 list \<Rightarrow> nat" where
  "changes (a # b # xs) = (if a = b then 0 else 1) + changes (b # xs)"
| "changes xs = 0"

text \<open>What the history shows when the wait ends with a code.\<close>

definition last_read :: "reg \<Rightarrow> io list \<Rightarrow> u8 option" where
  "last_read r h = (case h of Rd q v # _ \<Rightarrow> if q = r then Some v else None | _ \<Rightarrow> None)"

definition code_justified :: "Endpoint_WaitUntilReady_ErrorCodes_t \<Rightarrow> io list \<Rightarrow> bool" where
  "code_justified code h =
     (case code of
        ENDPOINT_READYWAIT_NoError \<Rightarrow>
          (case (last_read UECFG0X (tl h), last_read UEINTX h) of
             (Some d, Some v) \<Rightarrow> bit v (if bit d EPDIR then TXINI else RXOUTI) | _ \<Rightarrow> False)
      | ENDPOINT_READYWAIT_DeviceDisconnected \<Rightarrow> last_read GPIOR0 h = Some DEVICE_STATE_Unattached
      | ENDPOINT_READYWAIT_BusSuspended \<Rightarrow> last_read GPIOR0 h = Some DEVICE_STATE_Suspended
      | ENDPOINT_READYWAIT_EndpointStalled \<Rightarrow>
          (case last_read UECONX h of Some v \<Rightarrow> bit v STALLRQ | _ \<Rightarrow> False)
      | ENDPOINT_READYWAIT_Timeout \<Rightarrow> True)"

lemmas turn_defs = ready_turn_def Endpoint_GetEndpointDirection_def Endpoint_IsINReady_def
  Endpoint_IsOUTReceived_def Endpoint_IsStalled_def USB_Device_GetFrameNumber_def test_bit_io_def rd_def
  Let_def

text \<open>A turn that continues reads six registers and takes the frame number into account.\<close>

lemma ready_turn_Inr:
  assumes "ready_turn e t f s = (Inr (t', f'), s')"
  obtains a b c d l u where "s' = s\<lparr>hist := [Rd UDFNUMH u, Rd UDFNUML l, Rd UECONX d, Rd GPIOR0 c, Rd UEINTX b,
      Rd UECFG0X a] @ hist s\<rparr>" "f' = word16 [l, u]" "if f' = f then t' = t else t \<noteq> 0 \<and> t' = t - 1"
    "l = e ([Rd UECONX d, Rd GPIOR0 c, Rd UEINTX b, Rd UECFG0X a] @ hist s) UDFNUML"
    "u = e ([Rd UDFNUML l, Rd UECONX d, Rd GPIOR0 c, Rd UEINTX b, Rd UECFG0X a] @ hist s) UDFNUMH"
  using assms by (auto simp: turn_defs split: if_splits)

lemma ready_turn_Inl:
  assumes "ready_turn e t f s = (Inl code, s')"
  shows "\<exists>h. s' = s\<lparr>hist := h @ hist s\<rparr> \<and> code_justified code (h @ hist s) \<and> (\<forall>r. writes r h = [])
    \<and> reads UEDATX h = []
    \<and> (if code = ENDPOINT_READYWAIT_Timeout then t = 0 \<and> (\<exists>g. g \<noteq> f \<and> frames h = [g]) else frames h = [])"
  using assms
  by (auto simp: turn_defs frames_def usb_consts code_justified_def last_read_def split: if_splits
      intro!: appended_intros)

lemma ready_loop_result:
  assumes "ready_loop e t f s = Some (code, s')"
  shows "\<exists>h. s' = s\<lparr>hist := h @ hist s\<rparr> \<and> code_justified code (hist s') \<and> (\<forall>r. writes r h = [])
    \<and> reads UEDATX h = []
    \<and> (if code = ENDPOINT_READYWAIT_Timeout then changes (f # frames h) = unat t + 1
       else changes (f # frames h) \<le> unat t)"
    (is "?P t f s code s'")
proof -
  let ?Q = "\<lambda>e t f s (r :: Endpoint_WaitUntilReady_ErrorCodes_t \<times> usb_dev). ?P t f s (fst r) (snd r)"
  have "?Q e t f s (code, s')"
  proof (rule ready_loop.raw_induct [of ?Q, OF _ assms])
    fix rec e t f s r
    assume IH: "\<And>e t f s r. rec e t f s = Some r \<Longrightarrow> ?Q e t f s r"
      and eq: "(case ready_turn e t f s of (Inl code, s) \<Rightarrow> Some (code, s) | (Inr (t, f), s) \<Rightarrow> rec e t f s) = Some r"
    obtain x s1 where turn: "ready_turn e t f s = (x, s1)" by fastforce
    show "?Q e t f s r"
    proof (cases x)
      case (Inl c)
      then have r: "r = (c, s1)" using eq turn by simp
      obtain h where "s1 = s\<lparr>hist := h @ hist s\<rparr>" "code_justified c (h @ hist s)" "\<forall>r. writes r h = []"
        "reads UEDATX h = []" "if c = ENDPOINT_READYWAIT_Timeout then t = 0 \<and> (\<exists>g. g \<noteq> f \<and> frames h = [g]) else frames h = []"
        using ready_turn_Inl turn Inl by blast
      then show ?thesis unfolding r by (intro exI [of _ h]) (auto split: if_splits)
    next
      case (Inr y)
      obtain t1 f1 where y: "y = (t1, f1)" by fastforce
      with turn Inr have "ready_turn e t f s = (Inr (t1, f1), s1)" by simp
      then obtain a b c d l u where s1: "s1 = s\<lparr>hist := [Rd UDFNUMH u, Rd UDFNUML l, Rd UECONX d, Rd GPIOR0 c,
          Rd UEINTX b, Rd UECFG0X a] @ hist s\<rparr>" and f1: "f1 = word16 [l, u]"
        and t1: "if f1 = f then t1 = t else t \<noteq> 0 \<and> t1 = t - 1"
        by (rule ready_turn_Inr)
      have "?Q e t1 f1 s1 r" using IH eq turn Inr y by simp
      then obtain h where h: "snd r = s1\<lparr>hist := h @ hist s1\<rparr>" "code_justified (fst r) (hist (snd r))"
        "\<forall>r. writes r h = []" "reads UEDATX h = []"
        and ch: "if fst r = ENDPOINT_READYWAIT_Timeout then changes (f1 # frames h) = unat t1 + 1
          else changes (f1 # frames h) \<le> unat t1" by blast
      let ?h = "h @ [Rd UDFNUMH u, Rd UDFNUML l, Rd UECONX d, Rd GPIOR0 c, Rd UEINTX b, Rd UECFG0X a]"
      have fr: "frames ?h = f1 # frames h" by (simp add: frames_def f1)
      have "unat t1 + (if f1 = f then 0 else 1) = unat t"
        using t1 by (auto split: if_splits simp: unat_pred word_neq_0_conv [symmetric] unat_gt_0 unat_eq_zero)
      then have "if fst r = ENDPOINT_READYWAIT_Timeout then changes (f # frames ?h) = unat t + 1
          else changes (f # frames ?h) \<le> unat t"
        using ch by (auto simp: fr split: if_splits)
      then show ?thesis using h s1 by (intro exI [of _ ?h]) auto
    qed
  qed
  then show ?thesis by simp
qed

text \<open>The progress of the controller: the frame number moves on.\<close>

definition frame_at :: "env \<Rightarrow> io list \<Rightarrow> u16" where
  "frame_at e h = (let l = e h UDFNUML in word16 [l, e (Rd UDFNUML l # h) UDFNUMH])"

definition frames_advance :: "env \<Rightarrow> bool" where
  "frames_advance e \<longleftrightarrow> (\<forall>h v. \<exists>n. \<forall>h'. (\<forall>r. writes r h' = []) \<and> n \<le> length h' \<and> length h' \<le> n + 8
     \<longrightarrow> frame_at e (h' @ h) \<noteq> v)"

lemma ready_loop_turn:
  "ready_loop e t f s = (case ready_turn e t f s of
      (Inl code, s) \<Rightarrow> Some (code, s) | (Inr (t, f), s) \<Rightarrow> ready_loop e t f s)"
  by (rule ready_loop.simps)

lemma ready_loop_next_frame:
  assumes window: "\<forall>h'. (\<forall>r. writes r h' = []) \<and> n \<le> length h' \<and> length h' \<le> n + 8
      \<longrightarrow> frame_at e (h' @ h) \<noteq> f"
  shows "hist s = before @ h \<Longrightarrow> \<forall>r. writes r before = [] \<Longrightarrow> length before + 4 \<le> n + 8 \<Longrightarrow>
    (\<exists>x. ready_loop e t f s = Some x)
    \<or> (\<exists>f' s'. t \<noteq> 0 \<and> ready_loop e t f s = ready_loop e (t - 1) f' s')"
proof (induction "n - length before" arbitrary: s before rule: less_induct)
  case less
  obtain x s1 where turn: "ready_turn e t f s = (x, s1)" by fastforce
  show ?case
  proof (cases x)
    case (Inl c)
    then show ?thesis using turn by (simp add: ready_loop_turn [of e t f s])
  next
    case (Inr y)
    obtain t1 f1 where y: "y = (t1, f1)" by fastforce
    have step: "ready_loop e t f s = ready_loop e t1 f1 s1"
      using turn Inr y by (simp add: ready_loop_turn [of e t f s])
    from turn Inr y have "ready_turn e t f s = (Inr (t1, f1), s1)" by simp
    then obtain a b c d l u where s1: "s1 = s\<lparr>hist := [Rd UDFNUMH u, Rd UDFNUML l, Rd UECONX d, Rd GPIOR0 c,
        Rd UEINTX b, Rd UECFG0X a] @ hist s\<rparr>" and f1: "f1 = word16 [l, u]"
      and t1: "if f1 = f then t1 = t else t \<noteq> 0 \<and> t1 = t - 1"
      and l: "l = e ([Rd UECONX d, Rd GPIOR0 c, Rd UEINTX b, Rd UECFG0X a] @ hist s) UDFNUML"
      and u: "u = e ([Rd UDFNUML l, Rd UECONX d, Rd GPIOR0 c, Rd UEINTX b, Rd UECFG0X a] @ hist s) UDFNUMH"
      by (rule ready_turn_Inr)
    let ?h = "[Rd UECONX d, Rd GPIOR0 c, Rd UEINTX b, Rd UECFG0X a] @ before"
    have f1': "f1 = frame_at e (?h @ h)"
      using l u less.prems(1) by (simp add: f1 frame_at_def Let_def)
    show ?thesis
    proof (cases "f1 = f")
      case False
      then show ?thesis using t1 step by auto
    next
      case True
      then have "frame_at e (?h @ h) = f" using f1' by simp
      moreover have "\<forall>r. writes r ?h = []" "length ?h \<le> n + 8" using less.prems by auto
      ultimately have "\<not> n \<le> length ?h" using window by blast
      then have n: "length before + 4 < n" by simp
      let ?g = "[Rd UDFNUMH u, Rd UDFNUML l] @ ?h"
      have "(\<exists>x. ready_loop e t f s1 = Some x)
        \<or> (\<exists>f' s'. t \<noteq> 0 \<and> ready_loop e t f s1 = ready_loop e (t - 1) f' s')"
        using n less.prems by (intro less.hyps [of ?g]) (auto simp: s1)
      then show ?thesis using step True t1 by simp
    qed
  qed
qed

lemma ready_loop_returns:
  assumes adv: "frames_advance e"
  shows "\<exists>x. ready_loop e t f s = Some x"
proof (induction "unat t" arbitrary: t f s rule: less_induct)
  case less
  obtain n where "\<forall>h'. (\<forall>r. writes r h' = []) \<and> n \<le> length h' \<and> length h' \<le> n + 8
      \<longrightarrow> frame_at e (h' @ hist s) \<noteq> f"
    using adv unfolding frames_advance_def by blast
  then have "(\<exists>x. ready_loop e t f s = Some x)
    \<or> (\<exists>f' s'. t \<noteq> 0 \<and> ready_loop e t f s = ready_loop e (t - 1) f' s')"
    by (intro ready_loop_next_frame [where before = "[]" and h = "hist s"]) auto
  then show ?case using less word_pred_lt [of t] by metis
qed

text \<open>
  C27. \<^verbatim>\<open>Endpoint_WaitUntilReady\<close> always returns while the frame number advances, and it writes no
  register. Its code is what the registers said last: ready when the selected endpoint's direction
  had its flag set, disconnected and suspended from the device state, stalled from the stall bit. It
  times out exactly when the frame number has changed 101 times, and any other code comes before.
\<close>

theorem wait_until_ready:
  assumes "frames_advance e"
  shows "\<exists>code h. Endpoint_WaitUntilReady e s = Some (code, s\<lparr>hist := h @ hist s\<rparr>)
    \<and> code_justified code (h @ hist s) \<and> (\<forall>r. writes r h = [])
    \<and> (if code = ENDPOINT_READYWAIT_Timeout then changes (frames h) = 101 else changes (frames h) \<le> 100)"
proof -
  obtain f s1 where first: "USB_Device_GetFrameNumber e s = (f, s1)" by fastforce
  then obtain l u where s1: "s1 = s\<lparr>hist := [Rd UDFNUMH u, Rd UDFNUML l] @ hist s\<rparr>" and f: "f = word16 [l, u]"
    by (auto simp: USB_Device_GetFrameNumber_def rd_def Let_def)
  obtain code s' where loop: "ready_loop e USB_STREAM_TIMEOUT_MS f s1 = Some (code, s')"
    using ready_loop_returns [OF assms] by (metis surj_pair)
  have t: "unat USB_STREAM_TIMEOUT_MS = 100" "(100 :: nat) + 1 = 101"
    by (simp_all add: USB_STREAM_TIMEOUT_MS_def)
  from ready_loop_result [OF loop, unfolded t] obtain h where h: "s' = s1\<lparr>hist := h @ hist s1\<rparr>"
    "code_justified code (hist s')" "\<forall>r. writes r h = []"
    "if code = ENDPOINT_READYWAIT_Timeout then changes (f # frames h) = 101 else changes (f # frames h) \<le> 100"
    by blast
  let ?h = "h @ [Rd UDFNUMH u, Rd UDFNUML l]"
  have "frames ?h = f # frames h" by (simp add: frames_def f)
  moreover have "Endpoint_WaitUntilReady e s = Some (code, s\<lparr>hist := ?h @ hist s\<rparr>)"
    using first loop h(1) s1 by (simp add: Endpoint_WaitUntilReady_def)
  ultimately show ?thesis using h s1 by (intro exI [of _ code] exI [of _ ?h]) auto
qed

text \<open>
  A controller on a quiet bus: configured, no endpoint ready, a frame number that counts every 64
  register accesses.
\<close>

definition idle_bus :: env where
  "idle_bus h r = (if r = UDFNUML then of_nat (length h div 64) else if r = GPIOR0 then DEVICE_STATE_Configured else 0)"

lemma idle_bus_frame:
  assumes "64 * q \<le> length h" "length h \<le> 64 * q + 8"
  shows "frame_at idle_bus h = word16 [of_nat q, 0]"
proof -
  have "length h div 64 = q" using assms by (intro div_nat_eqI) auto
  then show ?thesis by (simp add: frame_at_def idle_bus_def)
qed

lemma idle_bus_advances: "frames_advance idle_bus"
  unfolding frames_advance_def
proof (intro allI)
  fix h :: "io list" and v
  have "(of_nat (length h div 64 + 1) :: u8) \<noteq> of_nat (length h div 64 + 2)"
  proof
    assume "(of_nat (length h div 64 + 1) :: u8) = of_nat (length h div 64 + 2)"
    then have "(0 :: u8) = 1" by simp
    then show False by simp
  qed
  then have "word16 [of_nat (length h div 64 + 1), 0] \<noteq> word16 [of_nat (length h div 64 + 2), 0]"
    by (metis bytes16_word16 list.inject)
  then obtain q where q: "q = length h div 64 + 1 \<or> q = length h div 64 + 2" "word16 [of_nat q, 0] \<noteq> v" by blast
  then have le: "length h \<le> 64 * q" using dividend_less_times_div [of 64 "length h"] by auto
  have "frame_at idle_bus (h' @ h) \<noteq> v"
    if "64 * q - length h \<le> length h'" "length h' \<le> 64 * q - length h + 8" for h'
    using that le q(2) by (subst idle_bus_frame [of q]) auto
  then show "\<exists>n. \<forall>h'. (\<forall>r. writes r h' = []) \<and> n \<le> length h' \<and> length h' \<le> n + 8
      \<longrightarrow> frame_at idle_bus (h' @ h) \<noteq> v" by blast
qed

lemma frames_advance_cong:
  "(\<And>h. e h UDFNUML = idle_bus h UDFNUML) \<Longrightarrow> (\<And>h. e h UDFNUMH = idle_bus h UDFNUMH) \<Longrightarrow> frames_advance e"
  using idle_bus_advances by (simp add: frames_advance_def frame_at_def)

theorem wait_until_ready_witness:
  "frames_advance idle_bus \<and> (\<exists>code h. Endpoint_WaitUntilReady idle_bus zero_dev = Some (code, zero_dev\<lparr>hist := h\<rparr>)
    \<and> code_justified code h)"
  using idle_bus_advances wait_until_ready [OF idle_bus_advances, of zero_dev]
  by (auto simp: zero_dev_def)

end
