(* ===== verification/Stream_Facts.thy ===== *)
theory Stream_Facts
  imports Endpoint_Stream Endpoint_Facts
begin

section \<open>Correctness of the data streams\<close>

text \<open>
  The locales \<open>writer\<close> and \<open>reader\<close> collect what the template for data endpoints needs of its macros: the
  direction in which the buffer pointer moves, the address space the bytes come from or go to and
  that the space is independent of the registers. Their lemmas hold for the memory, the flash and the
  EEPROM and for both byte orders, by interpretation.
\<close>

subsection \<open>Results of the wait\<close>

lemma ready_code_zero [simp]: "ready_code c = 0 \<longleftrightarrow> c = ENDPOINT_READYWAIT_NoError"
  by (cases c) simp_all

lemma ready_code_range: "ready_code c \<le> 4" "ready_code c \<noteq> 5"
  by (cases c; simp)+

lemma wait_result:
  assumes "Endpoint_WaitUntilReady e s = Some (c, s')"
  shows "\<exists>h. s' = s\<lparr>hist := h @ hist s\<rparr> \<and> code_justified c (h @ hist s) \<and> (\<forall>r. writes r h = [])
    \<and> reads UEDATX h = []"
proof -
  obtain f s1 where first: "USB_Device_GetFrameNumber e s = (f, s1)" by fastforce
  then obtain l u where s1: "s1 = s\<lparr>hist := [Rd UDFNUMH u, Rd UDFNUML l] @ hist s\<rparr>"
    by (auto simp: USB_Device_GetFrameNumber_def rd_def Let_def)
  from assms first have "ready_loop e USB_STREAM_TIMEOUT_MS f s1 = Some (c, s')"
    by (simp add: Endpoint_WaitUntilReady_def)
  from ready_loop_result [OF this] obtain h where "s' = s1\<lparr>hist := h @ hist s1\<rparr>"
    "code_justified c (hist s')" "\<forall>r. writes r h = []" "reads UEDATX h = []" by blast
  with s1 show ?thesis by (intro exI [of _ "h @ [Rd UDFNUMH u, Rd UDFNUML l]"]) auto
qed

lemma clear_in_result: "\<exists>v w. Endpoint_ClearIN e s = s\<lparr>hist := [Wr UEINTX v, Rd UEINTX w] @ hist s\<rparr>"
  by (auto simp: Endpoint_ClearIN_def clear_mask_io_def rd_def wr_def Let_def)

lemma clear_out_result: "\<exists>v w. Endpoint_ClearOUT e s = s\<lparr>hist := [Wr UEINTX v, Rd UEINTX w] @ hist s\<rparr>"
  by (auto simp: Endpoint_ClearOUT_def clear_mask_io_def rd_def wr_def Let_def)

lemma rwal_eq: "Endpoint_IsReadWriteAllowed e s =
  (bit (e (hist s) UEINTX) RWAL, s\<lparr>hist := Rd UEINTX (e (hist s) UEINTX) # hist s\<rparr>)"
  by (simp add: Endpoint_IsReadWriteAllowed_def test_bit_io_def rd_def Let_def)

lemma rwal_result: "Endpoint_IsReadWriteAllowed e s = (b, s') \<Longrightarrow>
  b = bit (e (hist s) UEINTX) RWAL \<and> s' = s\<lparr>hist := Rd UEINTX (e (hist s) UEINTX) # hist s\<rparr>"
  by (auto simp: rwal_eq)

text \<open>
  The induction rule of the template's loop: the cases are its exits and its two kinds of turns.
\<close>

lemma rw_loop_cases:
  assumes run: "rw_loop m e p L n bp s = Some r"
    and stop: "\<And>p n bp s. P p 0 n bp s (0, bp, s)"
    and full: "\<And>p L n q s v. L \<noteq> 0 \<Longrightarrow>
      P p L n (Some q) s (5, Some (q + n), CLEAR_ENDPOINT m e (s\<lparr>hist := Rd UEINTX v # hist s\<rparr>))"
    and err: "\<And>p L n s v c s'. L \<noteq> 0 \<Longrightarrow>
      Endpoint_WaitUntilReady e (CLEAR_ENDPOINT m e (s\<lparr>hist := Rd UEINTX v # hist s\<rparr>)) = Some (c, s') \<Longrightarrow>
      ready_code c \<noteq> 0 \<Longrightarrow> P p L n None s (ready_code c, None, s')"
    and wait: "\<And>p L n s v c s' r. L \<noteq> 0 \<Longrightarrow>
      Endpoint_WaitUntilReady e (CLEAR_ENDPOINT m e (s\<lparr>hist := Rd UEINTX v # hist s\<rparr>)) = Some (c, s') \<Longrightarrow>
      P p L n None s' r \<Longrightarrow> P p L n None s r"
    and byte: "\<And>p L n bp s v r. L \<noteq> 0 \<Longrightarrow>
      P (BUFFER_MOVE m p 1) (L - 1) (n + 1) bp (TRANSFER_BYTE m e p (s\<lparr>hist := Rd UEINTX v # hist s\<rparr>)) r \<Longrightarrow>
      P p L n bp s r"
  shows "P p L n bp s r"
proof -
  let ?Q = "\<lambda>mm ee p L n bp s r. mm = m \<longrightarrow> ee = e \<longrightarrow> P p L n bp s r"
  have "?Q m e p L n bp s r"
  proof (rule rw_loop.raw_induct [of ?Q, OF _ run], intro impI)
    fix rec mm ee p L n bp s r
    assume IH: "\<And>mm ee p L n bp s r. rec mm ee p L n bp s = Some r \<Longrightarrow> ?Q mm ee p L n bp s r"
      and eq: "(if L = 0 then Some (ENDPOINT_RWSTREAM_NoError, bp, s)
      else (case Endpoint_IsReadWriteAllowed ee s of (allowed, s) \<Rightarrow>
        if \<not> allowed then
          (case bp of
             Some q \<Rightarrow> Some (ENDPOINT_RWSTREAM_IncompleteTransfer, Some (q + n), CLEAR_ENDPOINT mm ee s)
           | None \<Rightarrow>
               Option.bind (Endpoint_WaitUntilReady ee (CLEAR_ENDPOINT mm ee s)) (\<lambda>(ErrorCode, s).
                 if ready_code ErrorCode \<noteq> 0 then Some (ready_code ErrorCode, None, s)
                 else rec mm ee p L n None s))
        else rec mm ee (BUFFER_MOVE mm p 1) (L - 1) (n + 1) bp (TRANSFER_BYTE mm ee p s))) = Some r"
      and mm: "mm = m" "ee = e"
    obtain b s1 where rw: "Endpoint_IsReadWriteAllowed e s = (b, s1)" by fastforce
    then obtain v where s1: "s1 = s\<lparr>hist := Rd UEINTX v # hist s\<rparr>" using rwal_result by force
    consider "L = 0" | q where "L \<noteq> 0" "\<not> b" "bp = Some q" | "L \<noteq> 0" "\<not> b" "bp = None" | "L \<noteq> 0" "b"
      by (cases "L = 0"; cases b; cases bp) auto
    then show "P p L n bp s r"
    proof cases
      case 1
      then show ?thesis using eq stop by (auto simp: stream_consts)
    next
      case 2
      then show ?thesis using eq rw mm full [of L p n q s v] by (simp add: stream_consts s1)
    next
      case 3
      with eq rw mm obtain c s3 where w: "Endpoint_WaitUntilReady e (CLEAR_ENDPOINT m e s1) = Some (c, s3)"
        and r: "(if ready_code c \<noteq> 0 then Some (ready_code c, None, s3) else rec m e p L n None s3) = Some r"
        by (auto simp: bind_eq_Some_conv)
      show ?thesis
      proof (cases "ready_code c = 0")
        case True
        then have "rec m e p L n None s3 = Some r" using r by simp
        from IH [OF this] show ?thesis using wait 3 w s1 by simp
      next
        case False
        then show ?thesis using r err 3 w s1 by auto
      qed
    next
      case 4
      then have "rec m e (BUFFER_MOVE m p 1) (L - 1) (n + 1) bp (TRANSFER_BYTE m e p s1) = Some r"
        using eq rw mm by simp
      from IH [OF this] show ?thesis using byte 4 s1 by simp
    qed
  qed
  then show ?thesis by simp
qed

subsection \<open>Writing a stream\<close>

locale writer =
  fixes m :: stream_macros and d :: u16 and space :: "usb_dev \<Rightarrow> u16 \<Rightarrow> u8"
  assumes clear: "CLEAR_ENDPOINT m = Endpoint_ClearIN"
    and move: "BUFFER_MOVE m p a = p + d * a"
    and transfer: "TRANSFER_BYTE m = write_from space"
    and space_hist: "space (s\<lparr>hist := h\<rparr>) = space s"
begin

definition sent :: "u16 \<Rightarrow> nat \<Rightarrow> usb_dev \<Rightarrow> u8 list" where
  "sent p k s = map (\<lambda>i. space s (p + d * of_nat i)) [0..<k]"

lemma sent_Suc: "sent p (Suc k) s = space s p # sent (p + d) k s"
  unfolding sent_def map_upt_Suc by (simp add: distrib_left add.assoc)

lemma transfer_step: "TRANSFER_BYTE m e p s = s\<lparr>hist := Wr UEDATX (space s p) # hist s\<rparr>"
  by (simp add: transfer write_from_def Endpoint_Write_8_def wr_def)

definition loop_spec :: "u16 \<Rightarrow> u16 \<Rightarrow> u16 \<Rightarrow> u16 option \<Rightarrow> usb_dev \<Rightarrow> u8 \<times> u16 option \<times> usb_dev \<Rightarrow> bool" where
  "loop_spec p L n bp s r \<longleftrightarrow> (case r of (code, bp', s') \<Rightarrow> (\<exists>h k. s' = s\<lparr>hist := h @ hist s\<rparr> \<and> k \<le> unat L
     \<and> writes UEDATX h = sent p k s
     \<and> (code = 0 \<longrightarrow> k = unat L \<and> bp' = bp)
     \<and> (code = 5 \<longrightarrow> bp \<noteq> None \<and> bp' = Some (the bp + n + of_nat k))
     \<and> (code \<notin> {0, 5} \<longrightarrow> bp = None \<and> bp' = None)))"

lemma loop_spec_wait:
  assumes "loop_spec p L n bp (s\<lparr>hist := g @ hist s\<rparr>) r" "writes UEDATX g = []"
  shows "loop_spec p L n bp s r"
proof -
  obtain code bp' s' where r: "r = (code, bp', s')" by (cases r)
  from assms(1) r obtain h k where "s' = s\<lparr>hist := h @ g @ hist s\<rparr>" "k \<le> unat L" "writes UEDATX h = sent p k s"
    and rest: "(code = 0 \<longrightarrow> k = unat L \<and> bp' = bp) \<and> (code = 5 \<longrightarrow> bp \<noteq> None \<and> bp' = Some (the bp + n + of_nat k))
     \<and> (code \<notin> {0, 5} \<longrightarrow> bp = None \<and> bp' = None)"
    by (auto simp: loop_spec_def sent_def space_hist)
  then show ?thesis using assms(2) unfolding loop_spec_def r prod.case
    by (intro exI [of _ "h @ g"] exI [of _ k]) simp
qed

lemma loop_spec_byte:
  assumes "loop_spec (p + d) (L - 1) (n + 1) bp (s\<lparr>hist := Wr UEDATX (space s p) # hist s\<rparr>) r" "L \<noteq> 0"
  shows "loop_spec p L n bp s r"
proof -
  obtain code bp' s' where r: "r = (code, bp', s')" by (cases r)
  from assms(1) r obtain h k where h: "s' = s\<lparr>hist := h @ Wr UEDATX (space s p) # hist s\<rparr>" "k \<le> unat (L - 1)"
      "writes UEDATX h = sent (p + d) k s"
    and rest: "(code = 0 \<longrightarrow> k = unat (L - 1) \<and> bp' = bp)
     \<and> (code = 5 \<longrightarrow> bp \<noteq> None \<and> bp' = Some (the bp + (n + 1) + of_nat k))
     \<and> (code \<notin> {0, 5} \<longrightarrow> bp = None \<and> bp' = None)"
    by (auto simp: loop_spec_def sent_def space_hist)
  have L: "unat L = Suc (unat (L - 1))" using assms(2) by (simp add: unat_pred unat_gt_0)
  have "(code = 0 \<longrightarrow> Suc k = unat L \<and> bp' = bp)
     \<and> (code = 5 \<longrightarrow> bp \<noteq> None \<and> bp' = Some (the bp + n + of_nat (Suc k)))
     \<and> (code \<notin> {0, 5} \<longrightarrow> bp = None \<and> bp' = None)"
    using rest L by (auto simp: algebra_simps)
  then show ?thesis using h L unfolding loop_spec_def r prod.case
    by (intro exI [of _ "h @ [Wr UEDATX (space s p)]"] exI [of _ "Suc k"]) (simp add: sent_Suc)
qed

lemma clear_step: "\<exists>g. CLEAR_ENDPOINT m e s = s\<lparr>hist := g @ hist s\<rparr> \<and> writes UEDATX g = []"
  unfolding clear using clear_in_result [of e s] by (auto intro!: appended_intros)

lemma wait_step:
  assumes "Endpoint_WaitUntilReady e (CLEAR_ENDPOINT m e (s\<lparr>hist := Rd UEINTX v # hist s\<rparr>)) = Some (c, s')"
  shows "\<exists>g. s' = s\<lparr>hist := g @ hist s\<rparr> \<and> writes UEDATX g = []"
proof -
  obtain g where g: "CLEAR_ENDPOINT m e (s\<lparr>hist := Rd UEINTX v # hist s\<rparr>) = s\<lparr>hist := g @ Rd UEINTX v # hist s\<rparr>"
    "writes UEDATX g = []" using clear_step [of e "s\<lparr>hist := Rd UEINTX v # hist s\<rparr>"] by auto
  from wait_result [OF assms] obtain h where "s' = s\<lparr>hist := (h @ g @ [Rd UEINTX v]) @ hist s\<rparr>" "writes UEDATX h = []"
    by (auto simp: g)
  then show ?thesis using g(2) by (intro exI [of _ "h @ g @ [Rd UEINTX v]"]) simp
qed

lemma loop_spec_stop: "(code = 0 \<longrightarrow> L = 0 \<and> bp' = bp) \<Longrightarrow>
  (code = 5 \<longrightarrow> bp \<noteq> None \<and> bp' = Some (the bp + n)) \<Longrightarrow> (code \<notin> {0, 5} \<longrightarrow> bp = None \<and> bp' = None) \<Longrightarrow>
  loop_spec p L n bp s (code, bp', s)"
  unfolding loop_spec_def prod.case by (intro exI [of _ "[]"] exI [of _ 0]) (auto simp: sent_def)

lemma loop_writes:
  assumes "rw_loop m e p L n bp s = Some r"
  shows "loop_spec p L n bp s r"
proof (rule rw_loop_cases [of m e p L n bp s r loop_spec, OF assms])
  show "loop_spec p 0 n bp s (0, bp, s)" for p n bp s by (rule loop_spec_stop) auto
next
  fix p L n q v and s :: usb_dev
  obtain g where g: "CLEAR_ENDPOINT m e (s\<lparr>hist := Rd UEINTX v # hist s\<rparr>)
      = s\<lparr>hist := (g @ [Rd UEINTX v]) @ hist s\<rparr>" "writes UEDATX g = []"
    using clear_step [of e "s\<lparr>hist := Rd UEINTX v # hist s\<rparr>"] by auto
  show "loop_spec p L n (Some q) s (5, Some (q + n), CLEAR_ENDPOINT m e (s\<lparr>hist := Rd UEINTX v # hist s\<rparr>))"
    unfolding g(1) by (rule loop_spec_wait [OF loop_spec_stop]) (auto simp: g(2))
next
  fix p L n s v c s'
  assume "Endpoint_WaitUntilReady e (CLEAR_ENDPOINT m e (s\<lparr>hist := Rd UEINTX v # hist s\<rparr>)) = Some (c, s')"
    and c: "ready_code c \<noteq> 0"
  then obtain g where g: "s' = s\<lparr>hist := g @ hist s\<rparr>" "writes UEDATX g = []" using wait_step by blast
  show "loop_spec p L n None s (ready_code c, None, s')"
    unfolding g(1) using c ready_code_range(2) [of c]
    by (intro loop_spec_wait [OF loop_spec_stop]) (auto simp: g(2))
next
  fix p L n s v c s' r
  assume "Endpoint_WaitUntilReady e (CLEAR_ENDPOINT m e (s\<lparr>hist := Rd UEINTX v # hist s\<rparr>)) = Some (c, s')"
    and r: "loop_spec p L n None s' r"
  then obtain g where "s' = s\<lparr>hist := g @ hist s\<rparr>" "writes UEDATX g = []" using wait_step by blast
  with r show "loop_spec p L n None s r" by (metis loop_spec_wait)
next
  fix p L n bp v r and s :: usb_dev
  let ?s = "(s :: usb_dev)\<lparr>hist := [Rd UEINTX v] @ hist s\<rparr>"
  assume L: "L \<noteq> 0" and
    "loop_spec (BUFFER_MOVE m p 1) (L - 1) (n + 1) bp (TRANSFER_BYTE m e p (s\<lparr>hist := Rd UEINTX v # hist s\<rparr>)) r"
  then have "loop_spec (p + d) (L - 1) (n + 1) bp (?s\<lparr>hist := Wr UEDATX (space ?s p) # hist ?s\<rparr>) r"
    by (simp add: transfer_step move space_hist)
  then have "loop_spec p L n bp ?s r" using L by (rule loop_spec_byte)
  then show "loop_spec p L n bp s r" by (rule loop_spec_wait) simp
qed

end

subsection \<open>Reading a stream\<close>

locale reader =
  fixes m :: stream_macros and d :: u16 and get :: "usb_dev \<Rightarrow> u16 \<Rightarrow> u8"
    and put :: "u16 \<Rightarrow> u8 \<Rightarrow> usb_dev \<Rightarrow> usb_dev"
  assumes clear: "CLEAR_ENDPOINT m = Endpoint_ClearOUT"
    and move: "BUFFER_MOVE m p a = p + d * a"
    and transfer: "TRANSFER_BYTE m = read_to put"
    and get_hist: "get (s\<lparr>hist := h\<rparr>) = get s"
    and get_put: "get (put p v s) = (get s)(p := v)"
    and hist_put: "hist (put p v s) = hist s"
    and d_unit: "d = 1 \<or> d = - 1"
begin

text \<open>The contents of the space after the bytes have been stored one after the other.\<close>

fun stored :: "u16 \<Rightarrow> u8 list \<Rightarrow> (u16 \<Rightarrow> u8) \<Rightarrow> (u16 \<Rightarrow> u8)" where
  "stored p [] f = f"
| "stored p (b # bs) f = stored (p + d) bs (f(p := b))"

lemma stored_other: "(\<And>i. i < length bs \<Longrightarrow> a \<noteq> p + d * of_nat i) \<Longrightarrow> stored p bs f a = f a"
proof (induction bs arbitrary: p f)
  case (Cons b bs)
  have "a \<noteq> p" using Cons.prems [of 0] by simp
  moreover have "a \<noteq> p + d + d * of_nat i" if "i < length bs" for i
    using Cons.prems [of "Suc i"] that by (simp add: distrib_left add.assoc)
  ultimately have "stored (p + d) bs (f(p := b)) a = (f(p := b)) a" by (intro Cons.IH)
  then show ?case using \<open>a \<noteq> p\<close> by simp
qed simp

lemma d_times: "0 < i \<Longrightarrow> i < 2 ^ 16 \<Longrightarrow> d * of_nat i \<noteq> 0"
proof -
  assume "0 < i" "i < 2 ^ 16"
  then have "(of_nat i :: u16) \<noteq> 0" by (simp add: word_of_nat_eq_0_iff nat_dvd_not_less)
  then show ?thesis using d_unit by auto
qed

lemma stored_at: "length bs < 2 ^ 16 \<Longrightarrow> i < length bs \<Longrightarrow> stored p bs f (p + d * of_nat i) = bs ! i"
proof (induction bs arbitrary: p f i)
  case (Cons b bs)
  show ?case
  proof (cases i)
    case 0
    have "p \<noteq> p + d + d * of_nat j" if "j < length bs" for j
      using d_times [of "Suc j"] that Cons.prems(1) by (auto simp: distrib_left add.assoc)
    then have "stored (p + d) bs (f(p := b)) p = (f(p := b)) p" by (intro stored_other)
    then show ?thesis using 0 by simp
  next
    case (Suc j)
    then have "stored (p + d) bs (f(p := b)) (p + d + d * of_nat j) = bs ! j" using Cons.prems by (intro Cons.IH) auto
    then show ?thesis using Suc by (simp add: distrib_left add.assoc)
  qed
qed simp

lemma transfer_step:
  "hist (TRANSFER_BYTE m e p s) = Rd UEDATX (e (hist s) UEDATX) # hist s"
  "get (TRANSFER_BYTE m e p s) = (get s)(p := e (hist s) UEDATX)"
  by (simp_all add: transfer read_to_def Endpoint_Read_8_def rd_def hist_put get_put get_hist Let_def)

definition loop_spec :: "u16 \<Rightarrow> u16 \<Rightarrow> u16 \<Rightarrow> u16 option \<Rightarrow> usb_dev \<Rightarrow> u8 \<times> u16 option \<times> usb_dev \<Rightarrow> bool" where
  "loop_spec p L n bp s r \<longleftrightarrow> (case r of (code, bp', s') \<Rightarrow> (\<exists>h. hist s' = h @ hist s
     \<and> length (reads UEDATX h) \<le> unat L \<and> get s' = stored p (reads UEDATX h) (get s)
     \<and> (code = 0 \<longrightarrow> length (reads UEDATX h) = unat L \<and> bp' = bp)
     \<and> (code = 5 \<longrightarrow> bp \<noteq> None \<and> bp' = Some (the bp + n + of_nat (length (reads UEDATX h))))
     \<and> (code \<notin> {0, 5} \<longrightarrow> bp = None \<and> bp' = None)))"

lemma loop_spec_wait:
  assumes "loop_spec p L n bp s1 r" "hist s1 = g @ hist s" "get s1 = get s" "reads UEDATX g = []"
  shows "loop_spec p L n bp s r"
proof -
  obtain code bp' s' where r: "r = (code, bp', s')" by (cases r)
  from assms(1) obtain h where "hist s' = h @ g @ hist s" "length (reads UEDATX h) \<le> unat L"
    "get s' = stored p (reads UEDATX h) (get s)"
    "(code = 0 \<longrightarrow> length (reads UEDATX h) = unat L \<and> bp' = bp)
     \<and> (code = 5 \<longrightarrow> bp \<noteq> None \<and> bp' = Some (the bp + n + of_nat (length (reads UEDATX h))))
     \<and> (code \<notin> {0, 5} \<longrightarrow> bp = None \<and> bp' = None)"
    using assms(2,3) unfolding loop_spec_def r by auto
  then show ?thesis using assms(4) unfolding loop_spec_def r prod.case
    by (intro exI [of _ "h @ g"]) simp
qed

lemma loop_spec_byte:
  assumes "loop_spec (p + d) (L - 1) (n + 1) bp s1 r" "L \<noteq> 0"
    and "hist s1 = Rd UEDATX v # hist s" "get s1 = (get s)(p := v)"
  shows "loop_spec p L n bp s r"
proof -
  obtain code bp' s' where r: "r = (code, bp', s')" by (cases r)
  from assms(1) obtain h where h: "hist s' = h @ Rd UEDATX v # hist s" "length (reads UEDATX h) \<le> unat (L - 1)"
    "get s' = stored (p + d) (reads UEDATX h) ((get s)(p := v))"
    and rest: "(code = 0 \<longrightarrow> length (reads UEDATX h) = unat (L - 1) \<and> bp' = bp)
     \<and> (code = 5 \<longrightarrow> bp \<noteq> None \<and> bp' = Some (the bp + (n + 1) + of_nat (length (reads UEDATX h))))
     \<and> (code \<notin> {0, 5} \<longrightarrow> bp = None \<and> bp' = None)"
    using assms(3,4) unfolding loop_spec_def r by auto
  have L: "unat L = Suc (unat (L - 1))" using assms(2) by (simp add: unat_pred unat_gt_0)
  have "(code = 0 \<longrightarrow> Suc (length (reads UEDATX h)) = unat L \<and> bp' = bp)
     \<and> (code = 5 \<longrightarrow> bp \<noteq> None \<and> bp' = Some (the bp + n + of_nat (Suc (length (reads UEDATX h)))))
     \<and> (code \<notin> {0, 5} \<longrightarrow> bp = None \<and> bp' = None)"
    using rest L by (auto simp: algebra_simps)
  then show ?thesis using h L unfolding loop_spec_def r prod.case
    by (intro exI [of _ "h @ [Rd UEDATX v]"]) simp
qed

lemma clear_step: "\<exists>g. CLEAR_ENDPOINT m e s = s\<lparr>hist := g @ hist s\<rparr> \<and> reads UEDATX g = []"
  unfolding clear using clear_out_result [of e s] by (auto intro!: appended_intros)

lemma wait_step:
  assumes "Endpoint_WaitUntilReady e (CLEAR_ENDPOINT m e (s\<lparr>hist := Rd UEINTX v # hist s\<rparr>)) = Some (c, s')"
  shows "\<exists>g. s' = s\<lparr>hist := g @ hist s\<rparr> \<and> reads UEDATX g = []"
proof -
  obtain g where g: "CLEAR_ENDPOINT m e (s\<lparr>hist := Rd UEINTX v # hist s\<rparr>) = s\<lparr>hist := g @ Rd UEINTX v # hist s\<rparr>"
    "reads UEDATX g = []" using clear_step [of e "s\<lparr>hist := Rd UEINTX v # hist s\<rparr>"] by auto
  from wait_result [OF assms] obtain h where "s' = s\<lparr>hist := (h @ g @ [Rd UEINTX v]) @ hist s\<rparr>" "reads UEDATX h = []"
    by (auto simp: g)
  then show ?thesis using g(2) by (intro exI [of _ "h @ g @ [Rd UEINTX v]"]) simp
qed

lemma loop_spec_stop: "(code = 0 \<longrightarrow> L = 0 \<and> bp' = bp) \<Longrightarrow>
  (code = 5 \<longrightarrow> bp \<noteq> None \<and> bp' = Some (the bp + n)) \<Longrightarrow> (code \<notin> {0, 5} \<longrightarrow> bp = None \<and> bp' = None) \<Longrightarrow>
  loop_spec p L n bp s (code, bp', s)"
  unfolding loop_spec_def prod.case by (intro exI [of _ "[]"]) auto

lemma loop_reads:
  assumes "rw_loop m e p L n bp s = Some r"
  shows "loop_spec p L n bp s r"
proof (rule rw_loop_cases [of m e p L n bp s r loop_spec, OF assms])
  show "loop_spec p 0 n bp s (0, bp, s)" for p n bp s by (rule loop_spec_stop) auto
next
  fix p L n q v and s :: usb_dev
  obtain g where g: "CLEAR_ENDPOINT m e (s\<lparr>hist := Rd UEINTX v # hist s\<rparr>)
      = s\<lparr>hist := (g @ [Rd UEINTX v]) @ hist s\<rparr>" "reads UEDATX g = []"
    using clear_step [of e "s\<lparr>hist := Rd UEINTX v # hist s\<rparr>"] by auto
  show "loop_spec p L n (Some q) s (5, Some (q + n), CLEAR_ENDPOINT m e (s\<lparr>hist := Rd UEINTX v # hist s\<rparr>))"
    unfolding g(1) by (rule loop_spec_wait [OF loop_spec_stop, where g = "g @ [Rd UEINTX v]"])
      (auto simp: g(2) get_hist)
next
  fix p L n s v c s'
  assume "Endpoint_WaitUntilReady e (CLEAR_ENDPOINT m e (s\<lparr>hist := Rd UEINTX v # hist s\<rparr>)) = Some (c, s')"
    and c: "ready_code c \<noteq> 0"
  then obtain g where g: "s' = s\<lparr>hist := g @ hist s\<rparr>" "reads UEDATX g = []" using wait_step by blast
  show "loop_spec p L n None s (ready_code c, None, s')"
    unfolding g(1) using c ready_code_range(2) [of c]
    by (intro loop_spec_wait [OF loop_spec_stop, where g = g]) (auto simp: g(2) get_hist)
next
  fix p L n s v c s' r
  assume "Endpoint_WaitUntilReady e (CLEAR_ENDPOINT m e (s\<lparr>hist := Rd UEINTX v # hist s\<rparr>)) = Some (c, s')"
    and r: "loop_spec p L n None s' r"
  then obtain g where "s' = s\<lparr>hist := g @ hist s\<rparr>" "reads UEDATX g = []" using wait_step by blast
  with r show "loop_spec p L n None s r" by (intro loop_spec_wait [OF r, of g]) (auto simp: get_hist)
next
  fix p L n bp v r and s :: usb_dev
  let ?s = "s\<lparr>hist := [Rd UEINTX v] @ hist s\<rparr>"
  assume L: "L \<noteq> 0" and
    "loop_spec (BUFFER_MOVE m p 1) (L - 1) (n + 1) bp (TRANSFER_BYTE m e p (s\<lparr>hist := Rd UEINTX v # hist s\<rparr>)) r"
  then have "loop_spec (p + d) (L - 1) (n + 1) bp (TRANSFER_BYTE m e p ?s) r" by (simp add: move)
  then have "loop_spec p L n bp ?s r" using L transfer_step by (rule loop_spec_byte)
  then show "loop_spec p L n bp s r" by (rule loop_spec_wait [where g = "[Rd UEINTX v]"]) (simp_all add: get_hist)
qed

end

subsection \<open>Termination\<close>

text \<open>
  The read/write flag of a bank follows its ready flag (the controller sets \<^verbatim>\<open>RWAL\<close> when the bank of a
  ready endpoint can be accessed).
\<close>

definition ready_means_rwal :: "env \<Rightarrow> bool" where
  "ready_means_rwal e \<longleftrightarrow> (\<forall>h d v. bit v (if bit d EPDIR then TXINI else RXOUTI)
     \<longrightarrow> bit (e (Rd UEINTX v # Rd UECFG0X d # h) UEINTX) RWAL)"

lemma wait_returns:
  assumes "frames_advance e"
  shows "\<exists>c s'. Endpoint_WaitUntilReady e s = Some (c, s')"
proof -
  obtain f s1 where "USB_Device_GetFrameNumber e s = (f, s1)" by fastforce
  moreover obtain c s' where "ready_loop e USB_STREAM_TIMEOUT_MS f s1 = Some (c, s')"
    using ready_loop_returns [OF assms] by (metis surj_pair)
  ultimately show ?thesis by (auto simp: Endpoint_WaitUntilReady_def)
qed

lemma justified_rwal:
  assumes "ready_means_rwal e" "code_justified ENDPOINT_READYWAIT_NoError h"
  shows "bit (e h UEINTX) RWAL"
proof -
  have last: "last_read r h = Some v \<Longrightarrow> \<exists>g. h = Rd r v # g" for r h v
    by (auto simp: last_read_def split: list.splits io.splits if_splits)
  obtain d v where "last_read UECFG0X (tl h) = Some d" "last_read UEINTX h = Some v"
    and b: "bit v (if bit d EPDIR then TXINI else RXOUTI)"
    using assms(2) by (auto simp: code_justified_def split: option.splits)
  then obtain g where "h = Rd UEINTX v # Rd UECFG0X d # g" by (metis last list.sel(3))
  then show ?thesis using b assms(1) unfolding ready_means_rwal_def by blast
qed

lemma rw_loop_returns:
  assumes adv: "frames_advance e" and rwal: "ready_means_rwal e"
  shows "\<exists>r. rw_loop m e p L n bp s = Some r"
proof (induction "unat L" arbitrary: p L n bp s rule: less_induct)
  case less
  have byte: "\<exists>r. rw_loop m e p L n bp s = Some r" if ne: "L \<noteq> 0" and on: "bit (e (hist s) UEINTX) RWAL" for s
  proof -
    obtain s1 where "Endpoint_IsReadWriteAllowed e s = (True, s1)"
      using on by (simp add: rwal_eq)
    then have "rw_loop m e p L n bp s
        = rw_loop m e (BUFFER_MOVE m p 1) (L - 1) (n + 1) bp (TRANSFER_BYTE m e p s1)"
      using ne by (subst rw_loop.simps) simp
    then show ?thesis using less word_pred_lt [OF ne] by simp
  qed
  show ?case
  proof (cases "L = 0 \<or> bit (e (hist s) UEINTX) RWAL")
    case True
    have "\<exists>r. rw_loop m e p 0 n bp s = Some r" by (subst rw_loop.simps) simp
    then show ?thesis using True byte by (cases "L = 0") simp_all
  next
    case False
    obtain s1 where rw: "Endpoint_IsReadWriteAllowed e s = (False, s1)"
      using False by (simp add: rwal_eq)
    show ?thesis
    proof (cases bp)
      case (Some q)
      then show ?thesis using rw False by (subst rw_loop.simps) simp
    next
      case None
      obtain c s2 where w: "Endpoint_WaitUntilReady e (CLEAR_ENDPOINT m e s1) = Some (c, s2)"
        using wait_returns [OF adv] by blast
      have eq: "rw_loop m e p L n bp s
          = (if ready_code c \<noteq> 0 then Some (ready_code c, None, s2) else rw_loop m e p L n None s2)"
        using rw w None False by (subst rw_loop.simps) simp
      show ?thesis
      proof (cases "ready_code c = 0")
        case True
        then have "bit (e (hist s2) UEINTX) RWAL" using justified_rwal [OF rwal] wait_result [OF w] by auto
        then show ?thesis using eq byte [of s2] False None True by simp
      qed (use eq in simp)
    qed
  qed
qed

subsection \<open>The stream functions of the library\<close>

lemmas macro_defs = write_up_def write_down_def read_up_def read_down_def move_up_def move_down_def

interpretation mem_up: writer "write_up mem" 1 mem
  by unfold_locales (simp_all add: macro_defs)

interpretation mem_down: writer "write_down mem" "- 1" mem
  by unfold_locales (simp_all add: macro_defs)

interpretation flash_up: writer "write_up flash" 1 flash
  by unfold_locales (simp_all add: macro_defs)

interpretation flash_down: writer "write_down flash" "- 1" flash
  by unfold_locales (simp_all add: macro_defs)

interpretation eeprom_up: writer "write_up eeprom" 1 eeprom
  by unfold_locales (simp_all add: macro_defs)

interpretation eeprom_down: writer "write_down eeprom" "- 1" eeprom
  by unfold_locales (simp_all add: macro_defs)

interpretation get_up: reader "read_up put_mem" 1 mem put_mem
  by unfold_locales (simp_all add: macro_defs put_mem_def)

interpretation get_down: reader "read_down put_mem" "- 1" mem put_mem
  by unfold_locales (simp_all add: macro_defs put_mem_def)

interpretation eeprom_get_up: reader "read_up eeprom_update_byte" 1 eeprom eeprom_update_byte
  by unfold_locales (simp_all add: macro_defs eeprom_update_byte_def)

interpretation eeprom_get_down: reader "read_down eeprom_update_byte" "- 1" eeprom eeprom_update_byte
  by unfold_locales (simp_all add: macro_defs eeprom_update_byte_def)

text \<open>
  The six functions that write a stream, with the space they read and whether they go upwards. The
  \<open>i\<close>-th byte of a buffer for a function is the \<open>i\<close>-th from its start or from its end.
\<close>

definition write_streams :: "(stream_fun \<times> (usb_dev \<Rightarrow> u16 \<Rightarrow> u8) \<times> bool) list" where
  "write_streams =
     [(Endpoint_Write_Stream_LE, mem, True), (Endpoint_Write_Stream_BE, mem, False),
      (Endpoint_Write_PStream_LE, flash, True), (Endpoint_Write_PStream_BE, flash, False),
      (Endpoint_Write_EStream_LE, eeprom, True), (Endpoint_Write_EStream_BE, eeprom, False)]"

definition read_streams :: "(stream_fun \<times> (usb_dev \<Rightarrow> u16 \<Rightarrow> u8) \<times> bool) list" where
  "read_streams =
     [(Endpoint_Read_Stream_LE, mem, True), (Endpoint_Read_Stream_BE, mem, False),
      (Endpoint_Read_EStream_LE, eeprom, True), (Endpoint_Read_EStream_BE, eeprom, False)]"

definition buffer_addr :: "bool \<Rightarrow> u16 \<Rightarrow> u16 \<Rightarrow> nat \<Rightarrow> u16" where
  "buffer_addr up Buffer Length i = (if up then Buffer + of_nat i else Buffer + (Length - 1) - of_nat i)"

definition already :: "u16 option \<Rightarrow> nat" where
  "already bp = (case bp of None \<Rightarrow> 0 | Some n \<Rightarrow> unat n)"

context writer
begin

lemma stream_writes:
  assumes adv: "frames_advance e" and rwal: "ready_means_rwal e"
    and fits: "case bp of None \<Rightarrow> True | Some n \<Rightarrow> n \<le> Length"
  shows "\<exists>code bp' h k. rw_stream m e Buffer Length bp s = Some (code, bp', s\<lparr>hist := h @ hist s\<rparr>)
    \<and> already bp + k \<le> unat Length
    \<and> writes UEDATX h = map (\<lambda>i. space s (Buffer + BUFFER_OFFSET m Length + d * of_nat (already bp + i))) [0..<k]
    \<and> (code = 0 \<longrightarrow> already bp + k = unat Length \<and> bp' = bp)
    \<and> (code = 5 \<longrightarrow> bp' = Some (of_nat (already bp + k)))"
proof -
  obtain c s1 where w: "Endpoint_WaitUntilReady e s = Some (c, s1)" using wait_returns [OF adv] by blast
  obtain g where s1: "s1 = s\<lparr>hist := g @ hist s\<rparr>" and g: "\<forall>r. writes r g = []" using wait_result [OF w] by blast
  have bp: "already bp \<le> unat Length" using fits by (auto simp: already_def word_le_nat_alt split: option.splits)
  show ?thesis
  proof (cases "ready_code c = 0")
    case False
    then have "rw_stream m e Buffer Length bp s = Some (ready_code c, bp, s1)"
      using w by (simp add: rw_stream_def)
    then show ?thesis using False ready_code_range(2) [of c] s1 g bp
      by (intro exI [of _ "ready_code c"] exI [of _ bp] exI [of _ g] exI [of _ 0]) auto
  next
    case True
    let ?p = "Buffer + BUFFER_OFFSET m Length + d * of_nat (already bp)"
    obtain r where r: "rw_loop m e ?p (Length - of_nat (already bp)) 0 bp s1 = Some r"
      using rw_loop_returns [OF adv rwal] by blast
    then have run: "rw_stream m e Buffer Length bp s = Some r"
      using w True by (cases bp) (auto simp: rw_stream_def move already_def Let_def)
    have left: "unat (Length - of_nat (already bp)) = unat Length - already bp"
      using fits by (cases bp) (auto simp: already_def unat_sub)
    obtain code bp' s' where rr: "r = (code, bp', s')" by (cases r)
    from loop_writes [OF r] obtain h k where h: "s' = s1\<lparr>hist := h @ hist s1\<rparr>"
        "k \<le> unat (Length - of_nat (already bp))" "writes UEDATX h = sent ?p k s1"
      and rest: "code = 0 \<longrightarrow> k = unat (Length - of_nat (already bp)) \<and> bp' = bp"
        "code = 5 \<longrightarrow> bp \<noteq> None \<and> bp' = Some (the bp + 0 + of_nat k)"
      unfolding loop_spec_def rr by blast
    have w: "writes UEDATX (h @ g) = map (\<lambda>i. space s (Buffer + BUFFER_OFFSET m Length + d * of_nat (already bp + i))) [0..<k]"
      using h(3) g by (simp add: sent_def s1 space_hist distrib_left add.assoc)
    have inc: "code = 5 \<longrightarrow> bp' = Some (of_nat (already bp + k))"
      using rest(2) by (auto simp: already_def)
    show ?thesis
    proof (intro exI conjI)
      show "rw_stream m e Buffer Length bp s = Some (code, bp', s\<lparr>hist := (h @ g) @ hist s\<rparr>)"
        using run rr h(1) s1 by simp
      show "already bp + k \<le> unat Length" using h(2) left bp by simp
      show "code = 0 \<longrightarrow> already bp + k = unat Length \<and> bp' = bp" using rest(1) left bp by simp
    qed (use w inc in auto)
  qed
qed

end

context reader
begin

lemma stream_reads:
  assumes adv: "frames_advance e" and rwal: "ready_means_rwal e"
  shows "\<exists>code s' h. rw_stream m e Buffer Length None s = Some (code, None, s')
    \<and> hist s' = h @ hist s \<and> length (reads UEDATX h) \<le> unat Length
    \<and> (\<forall>i < length (reads UEDATX h).
         get s' (Buffer + BUFFER_OFFSET m Length + d * of_nat i) = reads UEDATX h ! i)
    \<and> (\<forall>a. (\<forall>i < length (reads UEDATX h). a \<noteq> Buffer + BUFFER_OFFSET m Length + d * of_nat i)
         \<longrightarrow> get s' a = get s a)
    \<and> (code = 0 \<longrightarrow> length (reads UEDATX h) = unat Length)"
proof -
  obtain c s1 where w: "Endpoint_WaitUntilReady e s = Some (c, s1)" using wait_returns [OF adv] by blast
  obtain g where s1: "s1 = s\<lparr>hist := g @ hist s\<rparr>" and g: "reads UEDATX g = []" using wait_result [OF w] by blast
  show ?thesis
  proof (cases "ready_code c = 0")
    case False
    then have "rw_stream m e Buffer Length None s = Some (ready_code c, None, s1)"
      using w by (simp add: rw_stream_def)
    then show ?thesis using False s1 g
      by (intro exI [of _ "ready_code c"] exI [of _ s1] exI [of _ g]) (auto simp: get_hist)
  next
    case True
    let ?p = "Buffer + BUFFER_OFFSET m Length"
    obtain r where r: "rw_loop m e ?p Length 0 None s1 = Some r"
      using rw_loop_returns [OF adv rwal] by blast
    then have run: "rw_stream m e Buffer Length None s = Some r" using w True by (simp add: rw_stream_def)
    obtain code bp' s' where rr: "r = (code, bp', s')" by (cases r)
    from loop_reads [OF r] obtain h where h: "hist s' = h @ hist s1" "length (reads UEDATX h) \<le> unat Length"
        "get s' = stored ?p (reads UEDATX h) (get s1)"
      and rest: "code = 0 \<longrightarrow> length (reads UEDATX h) = unat Length" and bp': "bp' = None"
      unfolding loop_spec_def rr by auto
    have bs: "reads UEDATX (h @ g) = reads UEDATX h" using g by simp
    have lt: "length (reads UEDATX h) < 2 ^ 16" using h(2) unsigned_less [of Length, where 'a = nat] by simp
    show ?thesis
    proof (intro exI conjI allI impI)
      show "rw_stream m e Buffer Length None s = Some (code, None, s')" using run rr bp' by simp
      show "hist s' = (h @ g) @ hist s" using h(1) s1 by simp
      show "length (reads UEDATX (h @ g)) \<le> unat Length" unfolding bs by (rule h(2))
      show "get s' (?p + d * of_nat i) = reads UEDATX (h @ g) ! i" if "i < length (reads UEDATX (h @ g))" for i
        using that stored_at [OF lt] unfolding bs h(3) by blast
      show "get s' a = get s a" if "\<forall>i < length (reads UEDATX (h @ g)). a \<noteq> ?p + d * of_nat i" for a
        using that stored_other [of "reads UEDATX h" a ?p "get s1"] unfolding bs h(3) by (simp add: s1 get_hist)
      show "length (reads UEDATX (h @ g)) = unat Length" if "code = 0" using that rest unfolding bs by blast
    qed
  qed
qed

end



text \<open>
  An endpoint that is always ready, on a bus whose frames advance; the data it delivers is the number
  of register accesses so far.
\<close>

definition open_bus :: env where
  "open_bus h r = (if r = UEINTX then 0x25 else if r = UEDATX then of_nat (length h) else idle_bus h r)"

lemma open_bus_ok: "frames_advance open_bus" "ready_means_rwal open_bus"
proof -
  show "frames_advance open_bus" by (rule frames_advance_cong) (simp_all add: open_bus_def)
  have "bit (0x25 :: u8) 5" by simp
  then show "ready_means_rwal open_bus" by (simp add: ready_means_rwal_def open_bus_def)
qed



end
