(* ===== verification/Usb_Trace.thy ===== *)
theory Usb_Trace
  imports Stream_Facts
begin

section \<open>Accesses a function may make\<close>

text \<open>
  \<open>adds A h h'\<close>: the history \<open>h'\<close> continues \<open>h\<close> with accesses of the set \<open>A\<close> only. The lemmas for the
  polling loops say which accesses they make and that they change nothing else of the device.
\<close>

definition adds :: "io set \<Rightarrow> io list \<Rightarrow> io list \<Rightarrow> bool" where
  "adds A h h' \<longleftrightarrow> (\<exists>g. h' = g @ h \<and> set g \<subseteq> A)"

definition Reads :: "reg set \<Rightarrow> io set" where
  "Reads R = {Rd r v | r v. r \<in> R}"

definition no_fifo :: "io set" where
  "no_fifo = - (range (Rd UEDATX) \<union> range (Wr UEDATX))"

lemma adds_refl [simp, intro!]: "adds A h h"
  by (simp add: adds_def)

lemma adds_cons [intro!]: "adds A h g \<Longrightarrow> x \<in> A \<Longrightarrow> adds A h (x # g)"
  unfolding adds_def by (metis append_Cons insert_subset list.simps(15))

lemma adds_trans: "adds A h g \<Longrightarrow> adds A g k \<Longrightarrow> adds A h k"
  by (auto simp: adds_def)

lemma adds_mono: "adds A h g \<Longrightarrow> A \<subseteq> B \<Longrightarrow> adds B h g"
  by (auto simp: adds_def)

lemma Reads_simps [simp]: "Rd r v \<in> Reads R \<longleftrightarrow> r \<in> R" "Wr r v \<notin> Reads R"
  by (auto simp: Reads_def)

lemma no_fifo_simps [simp]: "Rd r v \<in> no_fifo \<longleftrightarrow> r \<noteq> UEDATX" "Wr r v \<in> no_fifo \<longleftrightarrow> r \<noteq> UEDATX"
  by (auto simp: no_fifo_def)

lemma Reads_mono: "R \<subseteq> S \<Longrightarrow> Reads R \<subseteq> Reads S"
  by (auto simp: Reads_def)

lemma Reads_no_fifo: "UEDATX \<notin> R \<Longrightarrow> Reads R \<subseteq> no_fifo"
  by (auto simp: Reads_def)

lemma writes_set: "set (writes r h) = {v. Wr r v \<in> set h}"
  by (induction r h rule: writes.induct) auto

lemma reads_set: "set (reads r h) = {v. Rd r v \<in> set h}"
  by (induction r h rule: reads.induct) auto

lemma adds_writes: "adds A h g \<Longrightarrow> (\<And>v. Wr r v \<notin> A) \<Longrightarrow> writes r g = writes r h"
proof (clarsimp simp: adds_def)
  fix k assume "set k \<subseteq> A" "\<And>v. Wr r v \<notin> A"
  then have "set (writes r k) = {}" by (auto simp: writes_set)
  then show "writes r k = []" by simp
qed

lemma adds_reads: "adds A h g \<Longrightarrow> (\<And>v. Rd r v \<notin> A) \<Longrightarrow> reads r g = reads r h"
proof (clarsimp simp: adds_def)
  fix k assume "set k \<subseteq> A" "\<And>v. Rd r v \<notin> A"
  then have "set (reads r k) = {}" by (auto simp: reads_set)
  then show "reads r k = []" by simp
qed

text \<open>A function that changes nothing but the history.\<close>

definition io_only :: "io set \<Rightarrow> usb_dev \<Rightarrow> usb_dev \<Rightarrow> bool" where
  "io_only A s s' \<longleftrightarrow> s' = s\<lparr>hist := hist s'\<rparr> \<and> adds A (hist s) (hist s')"

lemma io_only_refl [simp, intro!]: "io_only A s s"
  by (simp add: io_only_def)

lemma io_only_trans: "io_only A s t \<Longrightarrow> io_only A t u \<Longrightarrow> io_only A s u"
proof -
  assume "io_only A s t" "io_only A t u"
  then have t: "t = s\<lparr>hist := hist t\<rparr>" and u: "u = t\<lparr>hist := hist u\<rparr>"
    and a: "adds A (hist s) (hist u)" by (auto simp: io_only_def intro: adds_trans)
  have "u = s\<lparr>hist := hist u\<rparr>" by (subst u, subst t) simp
  with a show ?thesis by (simp add: io_only_def)
qed

lemma io_only_mono: "io_only A s t \<Longrightarrow> A \<subseteq> B \<Longrightarrow> io_only B s t"
  by (auto simp: io_only_def intro: adds_mono)

lemma io_only_step [intro]: "io_only A s t \<Longrightarrow> x \<in> A \<Longrightarrow> io_only A s (t\<lparr>hist := x # hist t\<rparr>)"
proof -
  assume "io_only A s t" "x \<in> A"
  then have t: "t = s\<lparr>hist := hist t\<rparr>" and a: "adds A (hist s) (x # hist t)" by (auto simp: io_only_def)
  have "t\<lparr>hist := x # hist t\<rparr> = s\<lparr>hist := x # hist t\<rparr>" by (subst (1) t) simp
  with a show ?thesis by (simp add: io_only_def)
qed

lemma io_only_update: "io_only A s (s\<lparr>hist := g\<rparr>) \<longleftrightarrow> adds A (hist s) g"
  by (simp add: io_only_def)

lemma io_only_fields:
  assumes "io_only A s t"
  shows "mem t = mem s" "flash t = flash s" "eeprom t = eeprom s" "USB_ControlRequest t = USB_ControlRequest s"
    "USB_Device_ConfigurationNumber t = USB_Device_ConfigurationNumber s"
    "VirtualSerial_CDC_Interface t = VirtualSerial_CDC_Interface s"
proof -
  from assms obtain h where "t = s\<lparr>hist := h\<rparr>" by (auto simp: io_only_def)
  then show "mem t = mem s" "flash t = flash s" "eeprom t = eeprom s" "USB_ControlRequest t = USB_ControlRequest s"
    "USB_Device_ConfigurationNumber t = USB_Device_ConfigurationNumber s"
    "VirtualSerial_CDC_Interface t = VirtualSerial_CDC_Interface s" by simp_all
qed

lemma io_only_adds: "io_only A s t \<Longrightarrow> adds A (hist s) (hist t)"
  by (simp add: io_only_def)

text \<open>The register functions, one step at a time.\<close>

lemma io_only_rd: "io_only A s t \<Longrightarrow> (\<And>v. Rd r v \<in> A) \<Longrightarrow> rd e r t = (v, u) \<Longrightarrow> io_only A s u"
  by (auto simp: rd_def Let_def)

lemma io_only_wr: "io_only A s t \<Longrightarrow> Wr r v \<in> A \<Longrightarrow> io_only A s (wr r v t)"
  by (auto simp: wr_def)

lemma io_only_rmw:
  assumes "io_only A s t" "\<And>v. Rd r v \<in> A" "\<And>v. Wr r v \<in> A"
  shows "io_only A s (set_bit_io e r n t)" "io_only A s (clear_bit_io e r n t)" "io_only A s (clear_mask_io e r m t)"
proof -
  have u: "io_only A s (t\<lparr>hist := Rd r (e (hist t) r) # hist t\<rparr>)" using assms by blast
  note io_only_wr [OF u, of r, OF assms(3)]
  then show "io_only A s (set_bit_io e r n t)" "io_only A s (clear_bit_io e r n t)" "io_only A s (clear_mask_io e r m t)"
    by (simp_all add: set_bit_io_def clear_bit_io_def clear_mask_io_def rd_def Let_def)
qed

lemma io_only_test: "io_only A s t \<Longrightarrow> (\<And>v. Rd r v \<in> A) \<Longrightarrow> test_bit_io e r n t = (b, u) \<Longrightarrow> io_only A s u"
  by (auto simp: test_bit_io_def rd_def Let_def)

lemma wait_bit_io: "wait_bit e r n s = Some s' \<Longrightarrow> io_only (Reads {r}) s s' \<and> (\<exists>v. last_read r (hist s') = Some v \<and> bit v n)"
proof -
  assume a: "wait_bit e r n s = Some s'"
  let ?P = "\<lambda>e r n s s'. io_only (Reads {r}) s s' \<and> (\<exists>v. last_read r (hist s') = Some v \<and> bit v n)"
  show ?thesis
  proof (rule wait_bit.raw_induct [of ?P, OF _ a])
    fix w e r n s s'
    assume IH: "\<And>e r n s s'. w e r n s = Some s' \<Longrightarrow> ?P e r n s s'"
      and eq: "(case test_bit_io e r n s of (b, s) \<Rightarrow> if b then Some s else w e r n s) = Some s'"
    let ?t = "s\<lparr>hist := Rd r (e (hist s) r) # hist s\<rparr>"
    have t: "test_bit_io e r n s = (bit (e (hist s) r) n, ?t)" by (simp add: io_defs)
    have s: "io_only (Reads {r}) s ?t" by auto
    show "?P e r n s s'"
    proof (cases "bit (e (hist s) r) n")
      case True
      then show ?thesis using eq s by (auto simp: t last_read_def)
    next
      case False
      then have "?P e r n ?t s'" using eq IH by (simp add: t)
      then show ?thesis using s io_only_trans by blast
    qed
  qed
qed

lemma wait_attached_io:
  "wait_attached e n s = Some (ok, s') \<Longrightarrow> io_only (Reads {UEINTX, GPIOR0}) s s'
    \<and> (if ok then \<exists>v. last_read UEINTX (hist s') = Some v \<and> bit v n
       else last_read GPIOR0 (hist s') = Some DEVICE_STATE_Unattached)
    \<and> length (hist s) < length (hist s')"
proof -
  assume a: "wait_attached e n s = Some (ok, s')"
  let ?P = "\<lambda>e n s r. io_only (Reads {UEINTX, GPIOR0}) s (snd r)
    \<and> (if fst r then \<exists>v. last_read UEINTX (hist (snd r)) = Some v \<and> bit v n
       else last_read GPIOR0 (hist (snd r)) = Some DEVICE_STATE_Unattached)
    \<and> length (hist s) < length (hist (snd r))"
  have "?P e n s (ok, s')"
  proof (rule wait_attached.raw_induct [of ?P, OF _ a])
    fix w e n s r
    assume IH: "\<And>e n s r. w e n s = Some r \<Longrightarrow> ?P e n s r"
      and eq: "(case test_bit_io e UEINTX n s of (b, s) \<Rightarrow> if b then Some (True, s)
         else (case rd e GPIOR0 s of (st, s) \<Rightarrow>
           if st = DEVICE_STATE_Unattached then Some (False, s) else w e n s)) = Some r"
    let ?t = "s\<lparr>hist := Rd UEINTX (e (hist s) UEINTX) # hist s\<rparr>"
    let ?u = "?t\<lparr>hist := Rd GPIOR0 (e (hist ?t) GPIOR0) # hist ?t\<rparr>"
    have t: "test_bit_io e UEINTX n s = (bit (e (hist s) UEINTX) n, ?t)" "rd e GPIOR0 ?t = (e (hist ?t) GPIOR0, ?u)"
      by (simp_all add: io_defs)
    have s: "io_only (Reads {UEINTX, GPIOR0}) s ?t" "io_only (Reads {UEINTX, GPIOR0}) s ?u"
      by (auto simp: io_only_update)
    consider "bit (e (hist s) UEINTX) n" "r = (True, ?t)"
      | "e (hist ?t) GPIOR0 = DEVICE_STATE_Unattached" "r = (False, ?u)" | "w e n ?u = Some r"
      using eq by (auto simp only: t split: if_splits prod.splits)
    then show "?P e n s r"
    proof cases
      case 3
      from IH [OF this] show ?thesis using io_only_trans [OF s(2)] by (auto split: if_splits)
    qed (use s in \<open>auto simp: last_read_def\<close>)
  qed
  then show ?thesis by (cases ok) simp_all
qed

lemma wait_ready_io:
  assumes "Endpoint_WaitUntilReady e s = Some (c, s')"
  shows "io_only no_fifo s s' \<and> (\<forall>r. writes r (hist s') = writes r (hist s))"
proof -
  obtain h where h: "s' = s\<lparr>hist := h @ hist s\<rparr>" "\<forall>r. writes r h = []" "reads UEDATX h = []"
    using wait_result [OF assms] by blast
  have "x \<in> no_fifo" if "x \<in> set h" for x
    by (cases x) (use that h(2,3) writes_set [of UEDATX h] reads_set [of UEDATX h] in auto)
  then show ?thesis using h by (auto simp: io_only_def adds_def)
qed

lemma status_stage_io:
  assumes "Endpoint_ClearStatusStage e s = Some s'"
  shows "io_only no_fifo s s'"
proof -
  have r: "Reads {UEINTX, GPIOR0} \<subseteq> no_fifo" by (rule Reads_no_fifo) simp
  have w: "io_only no_fifo s t" if "wait_attached e n s = Some (ok, t)" for n ok t
    using wait_attached_io [OF that] r io_only_mono by blast
  show ?thesis using assms w
    by (auto simp: Endpoint_ClearStatusStage_def bind_eq_Some_conv Endpoint_ClearOUT_def Endpoint_ClearIN_def
        clear_mask_io_def intro!: io_only_wr split: if_splits prod.splits dest!: w intro: io_only_rd)
qed

subsection \<open>Accesses by register\<close>

definition Access :: "reg set \<Rightarrow> io set" where
  "Access R = {Rd r v | r v. r \<in> R} \<union> {Wr r v | r v. r \<in> R}"

lemma Access_simps [simp]: "Rd r v \<in> Access R \<longleftrightarrow> r \<in> R" "Wr r v \<in> Access R \<longleftrightarrow> r \<in> R"
  by (auto simp: Access_def)

lemma Access_mono: "R \<subseteq> S \<Longrightarrow> Access R \<subseteq> Access S"
  by (auto simp: Access_def)

lemma Reads_Access: "R \<subseteq> S \<Longrightarrow> Reads R \<subseteq> Access S"
  by (auto simp: Access_def Reads_def)

text \<open>The status stage reads the device state and writes the flags of the endpoint only.\<close>

lemma status_stage_access:
  assumes "Endpoint_ClearStatusStage e s = Some s'"
  shows "io_only (Reads {GPIOR0} \<union> Access {UEINTX}) s s'"
proof -
  have r: "Reads {UEINTX, GPIOR0} \<subseteq> Reads {GPIOR0} \<union> Access {UEINTX}" by (auto simp: Reads_def)
  have w: "io_only (Reads {GPIOR0} \<union> Access {UEINTX}) s t" if "wait_attached e n s = Some (ok, t)" for n ok t
    using wait_attached_io [OF that] r io_only_mono by blast
  show ?thesis using assms
    by (auto simp: Endpoint_ClearStatusStage_def bind_eq_Some_conv Endpoint_ClearOUT_def Endpoint_ClearIN_def
        split: if_splits dest!: w intro!: io_only_rmw)
qed

text \<open>Configuring endpoints touches the registers of endpoints only.\<close>

abbreviation endpoint_regs :: "reg set" where
  "endpoint_regs \<equiv> {UENUM, UECFG0X, UECFG1X, UEIENX, UECONX, UESTA0X}"

lemma configure_one_io:
  assumes "configure_one e N a b n s = (ok, t)"
  shows "io_only (Access endpoint_regs) s t"
  using assms
  by (auto simp: configure_one_def Endpoint_SelectEndpoint_def Endpoint_DisableEndpoint_def Endpoint_EnableEndpoint_def
      Endpoint_IsConfigured_def io_defs io_only_update split: if_splits)

lemma configure_loop_io:
  "configure_loop e N a b n s = (ok, t) \<Longrightarrow> io_only (Access endpoint_regs) s t \<and> (ok \<longrightarrow> (\<exists>h. hist t = Wr UENUM (N AND ENDPOINT_EPNUM_MASK) # h))"
proof (induction e N a b n s arbitrary: ok t rule: configure_loop.induct)
  case (1 e N a b n s)
  obtain ok1 s1 where s1: "configure_one e N a b n s = (ok1, s1)" by fastforce
  have x: "io_only (Access endpoint_regs) s s1" using s1 by (rule configure_one_io)
  have eq: "(if n < ENDPOINT_TOTAL_ENDPOINTS then if ok1 then configure_loop e N a b (n + 1) s1 else (False, s1)
      else (True, Endpoint_SelectEndpoint N s)) = (ok, t)"
    using 1(2) unfolding configure_loop.simps [of e N a b n s] s1 Let_def prod.case .
  then consider "n < ENDPOINT_TOTAL_ENDPOINTS" "ok1" "configure_loop e N a b (n + 1) s1 = (ok, t)" | "t = s1" "\<not> ok"
    | "t = Endpoint_SelectEndpoint N s" by (auto split: if_splits)
  then show ?case
  proof cases
    case 1
    then have "io_only (Access endpoint_regs) s1 t \<and> (ok \<longrightarrow> (\<exists>h. hist t = Wr UENUM (N AND ENDPOINT_EPNUM_MASK) # h))"
      using "1.IH" [OF _ s1 [symmetric]] by simp
    then show ?thesis using io_only_trans [OF x] by blast
  qed (use x in \<open>auto simp: Endpoint_SelectEndpoint_def wr_def\<close>)
qed

lemma configure_io:
  assumes "Endpoint_ConfigureEndpoint e a ty sz bk s = Some (ok, t)"
  shows "io_only (Access endpoint_regs) s t \<and> (ok \<longrightarrow> (\<exists>h. hist t = Wr UENUM (a AND ENDPOINT_EPNUM_MASK) # h))"
proof (cases "(a AND ENDPOINT_EPNUM_MASK) \<ge> ENDPOINT_TOTAL_ENDPOINTS")
  case True
  then show ?thesis using assms by (auto simp: Endpoint_ConfigureEndpoint_def)
next
  case False
  then obtain x y where "configure_loop e (a AND ENDPOINT_EPNUM_MASK) x y (a AND ENDPOINT_EPNUM_MASK) s = (ok, t)"
    using assms by (auto simp: Endpoint_ConfigureEndpoint_def Endpoint_ConfigureEndpoint_Prv_def Let_def bind_eq_Some_conv)
  from configure_loop_io [OF this] show ?thesis by (simp add: and.assoc)
qed

lemma configure_table_io:
  "Endpoint_ConfigureEndpointTable e ts s = Some (ok, t) \<Longrightarrow> io_only (Access endpoint_regs) s t"
proof (induction e ts s arbitrary: ok t rule: Endpoint_ConfigureEndpointTable.induct)
  case (2 e p ts s)
  show ?case
  proof (cases "epAddress p = 0")
    case True
    then show ?thesis using 2 by simp
  next
    case False
    then obtain ok1 s1 where s1: "Endpoint_ConfigureEndpoint e (epAddress p) (epType p) (epSize p) (epBanks p) s = Some (ok1, s1)"
      and t: "(if \<not> ok1 then Some (False, s1) else Endpoint_ConfigureEndpointTable e ts s1) = Some (ok, t)"
      using 2(3) by (auto simp: bind_eq_Some_conv)
    note x = conjunct1 [OF configure_io [OF s1]]
    show ?thesis
    proof (cases ok1)
      case True
      then show ?thesis using 2(2) [OF False s1 refl] t io_only_trans [OF x] by auto
    qed (use t x in auto)
  qed
qed simp

end
