(* ===== verification/Cdc_Facts.thy ===== *)
theory Cdc_Facts
  imports Cdc_Device Usb_Trace
begin

section \<open>Properties of the virtual serial port\<close>

text \<open>
  Bytes through the CDC driver: what \<^verbatim>\<open>CDC_Device_SendByte\<close> and \<^verbatim>\<open>CDC_Device_ReceiveByte\<close> put into and
  take out of the endpoint banks, that the other functions of a frame leave the banks alone, and the line
  encoding requests.
\<close>

definition usable :: "env \<Rightarrow> usb_dev \<Rightarrow> bool" where
  "usable e s \<longleftrightarrow> e (hist s) GPIOR0 = DEVICE_STATE_Configured \<and> BaudRateBPS (cdc_line s) \<noteq> 0"

text \<open>The number of an endpoint, as it is written to \<^verbatim>\<open>UENUM\<close>.\<close>

definition in_number :: "usb_dev \<Rightarrow> u8" where
  "in_number s = epAddress (DataINEndpoint (VirtualSerial_CDC_Interface s)) AND ENDPOINT_EPNUM_MASK"

definition out_number :: "usb_dev \<Rightarrow> u8" where
  "out_number s = epAddress (DataOUTEndpoint (VirtualSerial_CDC_Interface s)) AND ENDPOINT_EPNUM_MASK"

lemma cdc_unusable_eq:
  "cdc_unusable e s = (\<not> usable e s, s\<lparr>hist := Rd GPIOR0 (e (hist s) GPIOR0) # hist s\<rparr>)"
  by (auto simp: cdc_unusable_def usable_def io_defs cdc_line_def)

lemmas select_defs = select_in_def select_out_def Endpoint_SelectEndpoint_def wr_def in_number_def [symmetric]
  out_number_def [symmetric]

lemma select_in_eq: "select_in s = s\<lparr>hist := Wr UENUM (in_number s) # hist s\<rparr>"
  by (simp add: select_in_def Endpoint_SelectEndpoint_def in_number_def wr_def)

lemma select_out_eq: "select_out s = s\<lparr>hist := Wr UENUM (out_number s) # hist s\<rparr>"
  by (simp add: select_out_def Endpoint_SelectEndpoint_def out_number_def wr_def)

lemma number_hist [simp]: "in_number (s\<lparr>hist := h\<rparr>) = in_number s" "out_number (s\<lparr>hist := h\<rparr>) = out_number s"
  by (simp_all add: in_number_def out_number_def)

lemmas cdc_io = Endpoint_IsReadWriteAllowed_def Endpoint_ClearIN_def Endpoint_ClearOUT_def Endpoint_Write_8_def
  Endpoint_Read_8_def Endpoint_IsOUTReceived_def Endpoint_IsINReady_def Endpoint_BytesInEndpoint_def io_defs
  cdc_unusable_eq select_in_eq select_out_eq

subsection \<open>Sending a byte\<close>

lemma send_byte_cases:
  assumes "frames_advance e"
  shows "\<exists>code h. CDC_Device_SendByte e c s = Some (code, s\<lparr>hist := h @ hist s\<rparr>)
    \<and> writes UEDATX h = (if code = 0 then [c] else []) \<and> reads UEDATX h = []
    \<and> (if usable e s then writes UENUM h = [in_number s] else code = ENDPOINT_RWSTREAM_DeviceDisconnected \<and> writes UENUM h = [])
    \<and> (usable e s \<longrightarrow> (\<forall>h'. bit (e h' UEINTX) RWAL) \<longrightarrow> code = 0)"
proof (cases "usable e s")
  case False
  then show ?thesis
    by (intro exI [of _ ENDPOINT_RWSTREAM_DeviceDisconnected] exI [of _ "[Rd GPIOR0 (e (hist s) GPIOR0)]"])
      (simp add: CDC_Device_SendByte_def cdc_io ENDPOINT_RWSTREAM_DeviceDisconnected_def)
next
  case True
  let ?h = "[Wr UENUM (in_number s), Rd GPIOR0 (e (hist s) GPIOR0)] @ hist s"
  let ?v = "e ?h UEINTX"
  show ?thesis
  proof (cases "bit ?v RWAL")
    case allowed: True
    show ?thesis
      by (intro exI [of _ 0] exI [of _ "[Wr UEDATX c, Rd UEINTX ?v, Wr UENUM (in_number s), Rd GPIOR0 (e (hist s) GPIOR0)]"])
        (use True allowed in \<open>simp add: CDC_Device_SendByte_def cdc_io\<close>)
  next
    case full: False
    let ?w = "e (Rd UEINTX ?v # ?h) UEINTX"
    let ?g = "[Wr UEINTX (?w AND NOT (push_bit TXINI 1 OR push_bit FIFOCON 1)), Rd UEINTX ?w, Rd UEINTX ?v] @ ?h"
    obtain code t where t: "Endpoint_WaitUntilReady e (s\<lparr>hist := ?g\<rparr>) = Some (code, t)"
      using wait_returns [OF assms] by blast
    with wait_result [OF t] obtain h where
      w: "Endpoint_WaitUntilReady e (s\<lparr>hist := ?g\<rparr>) = Some (code, s\<lparr>hist := h @ ?g\<rparr>)" "\<forall>r. writes r h = []"
      "reads UEDATX h = []"
      by auto
    then have "CDC_Device_SendByte e c s = Some (ready_code code,
        s\<lparr>hist := (if code = ENDPOINT_READYWAIT_NoError then [Wr UEDATX c] else []) @ h @ ?g\<rparr>)"
      using True full by (simp add: CDC_Device_SendByte_def cdc_io del: push_bit_of_1)
    moreover have "\<exists>h'. bit (e h' UEINTX) RWAL = False" using full by blast
    ultimately show ?thesis using w(2,3) True
      by (intro exI [of _ "ready_code code"] exI [of _ "(if code = ENDPOINT_READYWAIT_NoError then [Wr UEDATX c] else []) @ h @
        [Wr UEINTX (?w AND NOT (push_bit TXINI 1 OR push_bit FIFOCON 1)), Rd UEINTX ?w, Rd UEINTX ?v,
         Wr UENUM (in_number s), Rd GPIOR0 (e (hist s) GPIOR0)]"]) auto
  qed
qed

text \<open>
  C19. \<^verbatim>\<open>CDC_Device_SendByte\<close> returns while the frame number advances. The byte is written to the
  selected bank exactly once when the result is no error and never otherwise, so a caller may try again
  after an error without sending the byte twice; no byte is taken out of a bank. The bank is that of the data IN endpoint; an unusable port
  (not configured, or no baud rate set) reports a disconnected device and selects nothing, and a usable port
  whose bank always has room never reports an error.
\<close>

theorem send_byte_once:
  assumes "frames_advance e"
  shows "\<exists>code h. CDC_Device_SendByte e c s = Some (code, s\<lparr>hist := h @ hist s\<rparr>)
    \<and> writes UEDATX h = (if code = 0 then [c] else []) \<and> reads UEDATX h = []
    \<and> (if usable e s then writes UENUM h = [in_number s] else code = ENDPOINT_RWSTREAM_DeviceDisconnected \<and> writes UENUM h = [])
    \<and> (usable e s \<longrightarrow> (\<forall>h'. bit (e h' UEINTX) RWAL) \<longrightarrow> code = 0)"
  using assms by (rule send_byte_cases)

definition serial_dev :: usb_dev where
  "serial_dev = zero_dev\<lparr>VirtualSerial_CDC_Interface := zero_cdc\<lparr>
     DataINEndpoint := \<lparr>epAddress = 0x83, epSize = 16, epType = 0, epBanks = 1\<rparr>,
     DataOUTEndpoint := \<lparr>epAddress = 0x04, epSize = 16, epType = 0, epBanks = 1\<rparr>,
     LineEncoding := \<lparr>BaudRateBPS = 9600, CharFormat = 0, ParityType = 0, DataBits = 8\<rparr>\<rparr>\<rparr>"

lemma serial_dev_facts: "usable open_bus serial_dev" "in_number serial_dev = 3" "out_number serial_dev = 4"
    "hist serial_dev = []"
  by (simp_all add: usable_def serial_dev_def open_bus_def idle_bus_def cdc_line_def in_number_def out_number_def
      zero_dev_def usb_consts)

lemma open_bus_rwal: "bit (open_bus h UEINTX) RWAL"
  by (simp add: open_bus_def)

theorem send_byte_once_witness:
  "frames_advance open_bus \<and> usable open_bus serial_dev
   \<and> (\<exists>h. CDC_Device_SendByte open_bus 65 serial_dev = Some (0, serial_dev\<lparr>hist := h\<rparr>)
       \<and> writes UEDATX h = [65] \<and> writes UENUM h = [3])"
proof -
  obtain code h where h: "CDC_Device_SendByte open_bus 65 serial_dev = Some (code, serial_dev\<lparr>hist := h\<rparr>)"
    "writes UEDATX h = (if code = 0 then [65] else [])" "writes UENUM h = [3]" "code = 0"
    using send_byte_once [OF open_bus_ok(1), of 65 serial_dev] open_bus_rwal serial_dev_facts by auto
  then show ?thesis using open_bus_ok(1) serial_dev_facts(1) by auto
qed

subsection \<open>Receiving a byte\<close>

lemma count_zero [simp]: "(ucast (n :: u8) :: u16) = 0 \<longleftrightarrow> n = 0"
proof
  assume "(ucast n :: u16) = 0"
  then have "bit n i = False" for i
    using bit_ucast_iff [of n i, where 'a = 16] by (cases "i < 8") (auto dest: bit_imp_le_length)
  then show "n = 0" by (intro bit_word_eqI) simp
qed simp

lemma receive_byte_cases:
  assumes "CDC_Device_ReceiveByte e s = (r, s')"
  shows "\<exists>h. s' = s\<lparr>hist := h @ hist s\<rparr> \<and> writes UEDATX h = [] \<and> (r \<noteq> - 1 \<longrightarrow> usable e s)
    \<and> writes UENUM h = (if usable e s then [out_number s] else [])
    \<and> (if r = - 1 then reads UEDATX h = [] else \<exists>b. r = uint b \<and> reads UEDATX h = [b])"
proof (cases "usable e s")
  case False
  then have "CDC_Device_ReceiveByte e s = (- 1, s\<lparr>hist := [Rd GPIOR0 (e (hist s) GPIOR0)] @ hist s\<rparr>)"
    by (simp add: CDC_Device_ReceiveByte_def cdc_io)
  then show ?thesis using assms False by (intro exI [of _ "[Rd GPIOR0 (e (hist s) GPIOR0)]"]) auto
next
  case True
  define h0 where "h0 = Wr UENUM (out_number s) # Rd GPIOR0 (e (hist s) GPIOR0) # hist s"
  define h2 where "h2 = Rd UEINTX (e h0 UEINTX) # h0"
  define n where "n = e h2 UEBCLX"
  define b where "b = e (Rd UEBCLX n # h2) UEDATX"
  define h3 where "h3 = (if n = 0 then Rd UEBCLX n # h2 else Rd UEDATX b # Rd UEBCLX n # h2)"
  define h4 where "h4 = Rd UEBCLX (e h3 UEBCLX) # h3"
  let ?w = "e h4 UEINTX"
  define h5 where "h5 = (if e h3 UEBCLX = 0
      then Wr UEINTX (?w AND NOT (push_bit RXOUTI 1 OR push_bit FIFOCON 1)) # Rd UEINTX ?w # h4 else h4)"
  have ext: "\<exists>h. h2 = h @ hist s \<and> writes UEDATX h = [] \<and> writes UENUM h = [out_number s] \<and> reads UEDATX h = []"
    by (intro exI [of _ "[Rd UEINTX (e h0 UEINTX), Wr UENUM (out_number s), Rd GPIOR0 (e (hist s) GPIOR0)]"])
      (simp add: h2_def h0_def)
  then obtain h where h: "h2 = h @ hist s" "writes UEDATX h = []" "writes UENUM h = [out_number s]" "reads UEDATX h = []"
    by blast
  have eq: "CDC_Device_ReceiveByte e s =
    (if bit (e h0 UEINTX) RXOUTI then (if n = 0 then - 1 else uint b, s\<lparr>hist := h5\<rparr>) else (- 1, s\<lparr>hist := h2\<rparr>))"
    using True
    by (simp add: CDC_Device_ReceiveByte_def cdc_io h0_def [symmetric] h2_def [symmetric] n_def [symmetric]
        b_def [symmetric] h3_def h4_def h5_def del: push_bit_of_1)
  have "\<exists>g. h5 = g @ h2 \<and> writes UEDATX g = [] \<and> writes UENUM g = [] \<and> reads UEDATX g = (if n = 0 then [] else [b])"
    unfolding h5_def h4_def h3_def by (auto simp del: push_bit_of_1)
  then obtain g where "h5 = g @ h2" "writes UEDATX g = []" "writes UENUM g = []" "reads UEDATX g = (if n = 0 then [] else [b])"
    by blast
  moreover have "uint b \<noteq> - 1" using uint_nonnegative [of b] by linarith
  ultimately show ?thesis using assms True h unfolding eq
    by (intro exI [of _ "(if bit (e h0 UEINTX) RXOUTI then g else []) @ h"]) (auto split: if_splits)
qed

text \<open>
  C21. \<^verbatim>\<open>CDC_Device_ReceiveByte\<close>, for any hardware: it either returns -1 and takes no byte, or takes
  exactly one byte out of the bank of the data OUT endpoint and returns it as a number from 0 to 255; no byte is
  lost and none is invented. It writes nothing into a bank, and an unusable port is not touched.
\<close>

theorem receive_byte_once:
  assumes "CDC_Device_ReceiveByte e s = (r, s')"
  shows "\<exists>h. s' = s\<lparr>hist := h @ hist s\<rparr> \<and> writes UEDATX h = [] \<and> (r \<noteq> - 1 \<longrightarrow> usable e s)
    \<and> writes UENUM h = (if usable e s then [out_number s] else [])
    \<and> (if r = - 1 then reads UEDATX h = [] else \<exists>b. r = uint b \<and> reads UEDATX h = [b])"
  using assms by (rule receive_byte_cases)

theorem receive_byte_once_witness:
  "\<exists>r s' h. CDC_Device_ReceiveByte open_bus serial_dev = (r, s') \<and> s' = serial_dev\<lparr>hist := h\<rparr>
     \<and> writes UENUM h = [4] \<and> writes UEDATX h = []"
proof -
  obtain r s' where r: "CDC_Device_ReceiveByte open_bus serial_dev = (r, s')" by fastforce
  show ?thesis using receive_byte_once [OF r] r serial_dev_facts by auto
qed

subsection \<open>Flushing\<close>

lemma cdc_unusable_io: "cdc_unusable e s = (b, s') \<Longrightarrow> io_only no_fifo s s'"
  by (auto simp: cdc_unusable_eq)

lemma select_in_io: "io_only no_fifo s t \<Longrightarrow> io_only no_fifo s (select_in t)"
  by (auto simp: select_in_eq)

lemma flush_quiet:
  assumes "CDC_Device_Flush e s = Some (c, s')"
  shows "io_only no_fifo s s'"
proof -
  obtain b s1 where s1: "cdc_unusable e s = (b, s1)" by fastforce
  obtain n s2 where s2: "Endpoint_BytesInEndpoint e (select_in s1) = (n, s2)" by fastforce
  obtain r s3 where s3: "Endpoint_IsReadWriteAllowed e s2 = (r, s3)" by fastforce
  let ?s4 = "Endpoint_ClearIN e s3"
  have io: "io_only no_fifo s s1" using s1 by (rule cdc_unusable_io)
  moreover have io2: "io_only no_fifo s s2"
    using s2 io_only_rd [OF select_in_io [OF io]] by (force simp: Endpoint_BytesInEndpoint_def Let_def split: prod.splits)
  moreover have io4: "io_only no_fifo s ?s4"
    using s3 io_only_test [OF io2] by (force simp: Endpoint_IsReadWriteAllowed_def Endpoint_ClearIN_def intro: io_only_rmw)
  moreover have "io_only no_fifo s (Endpoint_ClearIN e t)" "io_only no_fifo s t" if "Endpoint_WaitUntilReady e ?s4 = Some (x, t)" for x t
    using wait_ready_io [OF that] io_only_trans [OF io4] by (auto simp: Endpoint_ClearIN_def intro: io_only_rmw)
  ultimately show ?thesis
    using assms by (auto simp: CDC_Device_Flush_def s1 s2 s3 Let_def bind_eq_Some_conv split: if_splits)
qed

lemma cdc_task_quiet:
  assumes "CDC_Device_USBTask e s = Some s'"
  shows "io_only no_fifo s s'"
proof -
  obtain b s1 where s1: "cdc_unusable e s = (b, s1)" by fastforce
  obtain n s2 where s2: "Endpoint_IsINReady e (select_in s1) = (n, s2)" by fastforce
  have io: "io_only no_fifo s s1" using s1 by (rule cdc_unusable_io)
  have io2: "io_only no_fifo s s2"
    using s2 io_only_test [OF select_in_io [OF io]] by (force simp: Endpoint_IsINReady_def)
  have "io_only no_fifo s t" if "CDC_Device_Flush e s2 = Some (c, t)" for c t
    using io2 flush_quiet [OF that] by (rule io_only_trans)
  with io io2 show ?thesis using assms by (auto simp: CDC_Device_USBTask_def s1 s2 split: if_splits)
qed

lemma flush_returns:
  assumes "frames_advance e"
  shows "\<exists>c s'. CDC_Device_Flush e s = Some (c, s')"
proof -
  have "\<exists>x. do { (ErrorCode, s) \<leftarrow> Endpoint_WaitUntilReady e t;
      if ErrorCode \<noteq> ENDPOINT_READYWAIT_NoError then Some (ready_code ErrorCode, s)
      else Some (ready_code ENDPOINT_READYWAIT_NoError, Endpoint_ClearIN e s) } = Some x" for t
    using wait_returns [OF assms, of t] by auto
  then show ?thesis by (auto simp: CDC_Device_Flush_def Let_def split: prod.splits)
qed

lemma cdc_task_returns:
  assumes "frames_advance e"
  shows "\<exists>s'. CDC_Device_USBTask e s = Some s'"
proof -
  obtain b s1 where s1: "cdc_unusable e s = (b, s1)" by fastforce
  obtain n s2 where s2: "Endpoint_IsINReady e (select_in s1) = (n, s2)" by fastforce
  obtain c s3 where "CDC_Device_Flush e s2 = Some (c, s3)" using flush_returns [OF assms] by blast
  then show ?thesis by (simp add: CDC_Device_USBTask_def s1 s2)
qed

subsection \<open>The line encoding\<close>

definition line_bytes :: "CDC_LineEncoding_t \<Rightarrow> u8 list" where
  "line_bytes l = bytes32 (BaudRateBPS l) @ [CharFormat l, ParityType l, DataBits l]"

lemma read_line:
  "Endpoint_Read_32_LE e t = (v, t') \<Longrightarrow> reads UEDATX (hist t') = reads UEDATX (hist t) @ bytes32 v \<and> cdc_line t' = cdc_line t"
  "Endpoint_Read_8 e t = (b, t') \<Longrightarrow> reads UEDATX (hist t') = reads UEDATX (hist t) @ [b] \<and> cdc_line t' = cdc_line t"
  by (auto simp: Endpoint_Read_32_LE_def Endpoint_Read_8_def rd_def Let_def cdc_line_def)

lemma set_cdc_line_simps [simp]: "hist (set_cdc_line l s) = hist s" "cdc_line (set_cdc_line l s) = l"
  by (simp_all add: set_cdc_line_def cdc_line_def)

lemma set_line_bytes:
  assumes "set_line_encoding e s = Some s'"
  shows "\<exists>d. reads UEDATX (hist s') = reads UEDATX (hist s) @ d
    \<and> (if d = [] then cdc_line s' = cdc_line s \<and> last_read GPIOR0 (hist s') = Some DEVICE_STATE_Unattached
       else line_bytes (cdc_line s') = d)"
proof -
  let ?s0 = "Endpoint_ClearSETUP e s"
  obtain ok s1 where w: "wait_attached e RXOUTI ?s0 = Some (ok, s1)"
    using assms by (auto simp: set_line_encoding_def bind_eq_Some_conv)
  have io: "io_only no_fifo s s1"
    by (rule io_only_trans [OF _ io_only_mono [OF conjunct1 [OF wait_attached_io [OF w]] Reads_no_fifo]])
      (auto simp: Endpoint_ClearSETUP_def intro!: io_only_rmw)
  have r1: "reads UEDATX (hist s1) = reads UEDATX (hist s)" "cdc_line s1 = cdc_line s"
    using io_only_fields [OF io] adds_reads [OF io_only_adds [OF io]] by (simp_all add: cdc_line_def)
  show ?thesis
  proof (cases ok)
    case False
    then show ?thesis using assms w r1 wait_attached_io [OF w] by (auto simp: set_line_encoding_def)
  next
    case True
    obtain v t1 where t1: "Endpoint_Read_32_LE e s1 = (v, t1)" by fastforce
    obtain f t2 where t2: "Endpoint_Read_8 e (set_cdc_line ((cdc_line t1)\<lparr>BaudRateBPS := v\<rparr>) t1) = (f, t2)" by fastforce
    obtain p t3 where t3: "Endpoint_Read_8 e (set_cdc_line ((cdc_line t2)\<lparr>CharFormat := f\<rparr>) t2) = (p, t3)" by fastforce
    obtain d t4 where t4: "Endpoint_Read_8 e (set_cdc_line ((cdc_line t3)\<lparr>ParityType := p\<rparr>) t3) = (d, t4)" by fastforce
    let ?s2 = "set_cdc_line ((cdc_line t4)\<lparr>DataBits := d\<rparr>) t4"
    obtain s2 where s2: "reads UEDATX (hist s2) = reads UEDATX (hist s1) @ line_bytes (cdc_line s2)"
      and st: "Endpoint_ClearStatusStage e (Endpoint_ClearOUT e s2) = Some s'"
    proof
      show "reads UEDATX (hist ?s2) = reads UEDATX (hist s1) @ line_bytes (cdc_line ?s2)"
        using read_line(1) [OF t1] read_line(2) [OF t2] read_line(2) [OF t3] read_line(2) [OF t4]
        by (simp add: line_bytes_def)
      show "Endpoint_ClearStatusStage e (Endpoint_ClearOUT e ?s2) = Some s'"
        using assms w True by (auto simp: set_line_encoding_def bind_eq_Some_conv t1 t2 t3 t4
            EVENT_CDC_Device_LineEncodingChanged_def)
    qed
    have io: "io_only no_fifo s2 s'"
      by (rule io_only_trans [OF _ status_stage_io [OF st]]) (auto simp: Endpoint_ClearOUT_def intro!: io_only_rmw)
    have "reads UEDATX (hist s') = reads UEDATX (hist s2)" "cdc_line s' = cdc_line s2"
      using io_only_fields [OF io] adds_reads [OF io_only_adds [OF io]] by (simp_all add: cdc_line_def)
    then show ?thesis using s2 r1 by (auto simp: line_bytes_def)
  qed
qed

lemma get_line_bytes:
  assumes "get_line_encoding e s = Some s'"
  shows "writes UEDATX (hist s') = writes UEDATX (hist s) @ line_bytes (cdc_line s)"
proof -
  obtain s1 where w: "wait_bit e UEINTX TXINI (Endpoint_ClearSETUP e s) = Some s1"
    using assms by (auto simp: get_line_encoding_def bind_eq_Some_conv)
  have io: "io_only no_fifo s s1"
    by (rule io_only_trans [OF _ io_only_mono [OF conjunct1 [OF wait_bit_io [OF w]] Reads_no_fifo]])
      (auto simp: Endpoint_ClearSETUP_def intro!: io_only_rmw)
  have r1: "writes UEDATX (hist s1) = writes UEDATX (hist s)" "cdc_line s1 = cdc_line s"
    using io_only_fields [OF io] adds_writes [OF io_only_adds [OF io]] by (simp_all add: cdc_line_def)
  define s2 where "s2 = s1\<lparr>hist := rev (map (Wr UEDATX) (line_bytes (cdc_line s1))) @ hist s1\<rparr>"
  have s2: "writes UEDATX (hist s2) = writes UEDATX (hist s1) @ line_bytes (cdc_line s1)"
    by (simp add: s2_def line_bytes_def bytes32_def)
  have st: "Endpoint_ClearStatusStage e (Endpoint_ClearIN e s2) = Some s'"
    using assms w by (auto simp: get_line_encoding_def Endpoint_Write_32_LE_def Endpoint_Write_8_def wr_def Let_def
        cdc_line_def line_bytes_def bytes32_def s2_def)
  have io: "io_only no_fifo s2 s'"
    by (rule io_only_trans [OF _ status_stage_io [OF st]]) (auto simp: Endpoint_ClearIN_def intro!: io_only_rmw)
  show ?thesis using adds_writes [OF io_only_adds [OF io]] s2 r1 by simp
qed

text \<open>
  C23. The line encoding the host sets is the one it gets back: when the handler of
  \<^verbatim>\<open>SET_LINE_ENCODING\<close> has returned, either the device was disconnected, no data was read and the encoding is
  unchanged, or it read seven bytes and the next \<^verbatim>\<open>GET_LINE_ENCODING\<close> sends exactly those seven bytes in the
  same order.
\<close>

theorem line_encoding_round_trip:
  assumes "set_line_encoding e s = Some s1" and "get_line_encoding e' s1 = Some s2"
  shows "\<exists>d. reads UEDATX (hist s1) = reads UEDATX (hist s) @ d
    \<and> (if d = [] then cdc_line s1 = cdc_line s \<and> last_read GPIOR0 (hist s1) = Some DEVICE_STATE_Unattached
       else length d = 7 \<and> writes UEDATX (hist s2) = writes UEDATX (hist s1) @ d)"
proof -
  obtain d where d: "reads UEDATX (hist s1) = reads UEDATX (hist s) @ d"
    "if d = [] then cdc_line s1 = cdc_line s \<and> last_read GPIOR0 (hist s1) = Some DEVICE_STATE_Unattached
     else line_bytes (cdc_line s1) = d"
    using set_line_bytes [OF assms(1)] by blast
  have "length (line_bytes l) = 7" for l by (simp add: line_bytes_def)
  then show ?thesis using d get_line_bytes [OF assms(2)] by (intro exI [of _ d]) (auto split: if_splits)
qed

lemma open_bus_waits:
  "wait_bit open_bus UEINTX TXINI s = Some (s\<lparr>hist := Rd UEINTX 0x25 # hist s\<rparr>)"
  "wait_attached open_bus TXINI s = Some (True, s\<lparr>hist := Rd UEINTX 0x25 # hist s\<rparr>)"
  "wait_attached open_bus RXOUTI s = Some (True, s\<lparr>hist := Rd UEINTX 0x25 # hist s\<rparr>)"
  by (subst wait_bit.simps wait_attached.simps, simp add: io_defs open_bus_def)+

lemma open_bus_status: "Endpoint_ClearStatusStage open_bus s \<noteq> None"
  by (simp add: Endpoint_ClearStatusStage_def open_bus_waits Let_def)

lemma open_bus_line: "set_line_encoding open_bus s \<noteq> None" "get_line_encoding open_bus s \<noteq> None"
  by (simp_all add: set_line_encoding_def get_line_encoding_def open_bus_waits open_bus_status Let_def bind_eq_None_conv
      split: prod.split del: not_None_eq)

theorem line_encoding_round_trip_witness:
  "\<exists>s1 s2 d. set_line_encoding open_bus serial_dev = Some s1 \<and> get_line_encoding open_bus s1 = Some s2
     \<and> reads UEDATX (hist s1) = d \<and> (d \<noteq> [] \<longrightarrow> length d = 7)"
proof -
  obtain s1 where s1: "set_line_encoding open_bus serial_dev = Some s1" using open_bus_line(1) by blast
  obtain s2 where s2: "get_line_encoding open_bus s1 = Some s2" using open_bus_line(2) by blast
  show ?thesis using line_encoding_round_trip [OF s1 s2] s1 s2 by (auto simp: serial_dev_facts split: if_splits)
qed

end
