(* ===== verification/Hid_Device.thy ===== *)
theory Hid_Device
  imports Cdc_Device Cdc_Facts
begin

section \<open>HID class driver: HIDClassDevice.c\<close>

text \<open>
  The device side of the HID class, which the build compiles and the application does not call. The class
  information is a value of its own, passed with the device. The two callbacks are the application's: they
  are parameters, state transformers that get the address of the report and may change the information and the
  device. The arrays on the stack start at the address \<open>buf\<close>.
\<close>

record USB_ClassInfo_HID_Device_t =
  hid_InterfaceNumber :: u8
  ReportINEndpoint :: USB_Endpoint_Table_t
  PrevReportINBuffer :: u16
  PrevReportINBufferSize :: u8
  UsingReportProtocol :: bool
  PrevFrameNum :: u16
  IdleCount :: u16
  IdleMSRemaining :: u16

type_synonym hid_dev = "USB_ClassInfo_HID_Device_t \<times> usb_dev"

text \<open>From the report ID, the report type and the address of the report: whether to force it, its ID and its size.\<close>

type_synonym create_report = "u8 \<Rightarrow> u8 \<Rightarrow> u16 \<Rightarrow> hid_dev \<Rightarrow> bool \<times> u8 \<times> u16 \<times> hid_dev"

text \<open>From the report ID, the report type, the address and the size of the report.\<close>

type_synonym process_report = "u8 \<Rightarrow> u8 \<Rightarrow> u16 \<Rightarrow> u16 \<Rightarrow> hid_dev \<Rightarrow> hid_dev"

definition HID_REQ_GetReport :: u8 where "HID_REQ_GetReport = 0x01"
definition HID_REQ_GetIdle :: u8 where "HID_REQ_GetIdle = 0x02"
definition HID_REQ_GetProtocol :: u8 where "HID_REQ_GetProtocol = 0x03"
definition HID_REQ_SetReport :: u8 where "HID_REQ_SetReport = 0x09"
definition HID_REQ_SetIdle :: u8 where "HID_REQ_SetIdle = 0x0A"
definition HID_REQ_SetProtocol :: u8 where "HID_REQ_SetProtocol = 0x0B"

declare HID_REQ_GetReport_def [req_consts] HID_REQ_GetIdle_def [req_consts] HID_REQ_GetProtocol_def [req_consts]
  HID_REQ_SetReport_def [req_consts] HID_REQ_SetIdle_def [req_consts] HID_REQ_SetProtocol_def [req_consts]

text \<open>\<^verbatim>\<open>memset\<close> to zero, \<^verbatim>\<open>memcpy\<close> and the bytes \<^verbatim>\<open>memcmp\<close> compares.\<close>

definition mem_bytes :: "u16 \<Rightarrow> nat \<Rightarrow> usb_dev \<Rightarrow> u8 list" where
  "mem_bytes p n s = map (\<lambda>i. mem s (p + of_nat i)) [0..<n]"

definition memset_0 :: "u16 \<Rightarrow> nat \<Rightarrow> usb_dev \<Rightarrow> usb_dev" where
  "memset_0 p n = put_bytes p (replicate n 0)"

definition memcpy :: "u16 \<Rightarrow> u16 \<Rightarrow> nat \<Rightarrow> usb_dev \<Rightarrow> usb_dev" where
  "memcpy dst src n s = put_bytes dst (mem_bytes src n s) s"

subsection \<open>Control requests\<close>

definition hid_get_report :: "create_report \<Rightarrow> u16 \<Rightarrow> env \<Rightarrow> hid_dev \<Rightarrow> hid_dev option" where
  "hid_get_report create buf e = (\<lambda>(i, s).
     (let r = USB_ControlRequest s;
          ReportID = ucast (wValue r AND 0xFF);
          ReportType = ucast (drop_bit 8 (wValue r)) - 1;
          s = memset_0 buf (unat (PrevReportINBufferSize i)) s;
          (force, ReportID, ReportSize, i, s) = create ReportID ReportType buf (i, s);
          s = (if PrevReportINBuffer i \<noteq> 0
               then memcpy (PrevReportINBuffer i) buf (unat (PrevReportINBufferSize i)) s else s);
          s = Endpoint_SelectEndpoint ENDPOINT_CONTROLEP s;
          s = Endpoint_ClearSETUP e s
      in do {
        (code, s) \<leftarrow> Endpoint_Write_Control_Stream_LE e buf ReportSize s;
        Some (i, Endpoint_ClearOUT e s)
      }))"

definition hid_set_report :: "process_report \<Rightarrow> u16 \<Rightarrow> env \<Rightarrow> hid_dev \<Rightarrow> hid_dev option" where
  "hid_set_report process buf e = (\<lambda>(i, s).
     (let r = USB_ControlRequest s;
          ReportSize = wLength r;
          ReportID = ucast (wValue r AND 0xFF);
          ReportType = ucast (drop_bit 8 (wValue r)) - 1;
          skip = (if ReportID \<noteq> 0 then 1 else 0)
      in do {
        (code, s) \<leftarrow> Endpoint_Read_Control_Stream_LE e buf ReportSize (Endpoint_ClearSETUP e s);
        Some (process ReportID ReportType (buf + skip) (ReportSize - skip) (i, Endpoint_ClearIN e s))
      }))"

definition hid_send_byte :: "env \<Rightarrow> u8 \<Rightarrow> usb_dev \<Rightarrow> usb_dev option" where
  "hid_send_byte e b s = do {
     s \<leftarrow> wait_bit e UEINTX TXINI (Endpoint_ClearSETUP e s);
     Endpoint_ClearStatusStage e (Endpoint_ClearIN e (Endpoint_Write_8 b s))
   }"

definition hid_set_protocol :: "env \<Rightarrow> hid_dev \<Rightarrow> hid_dev option" where
  "hid_set_protocol e = (\<lambda>(i, s). do {
     s \<leftarrow> Endpoint_ClearStatusStage e (Endpoint_ClearSETUP e s);
     Some (i\<lparr>UsingReportProtocol := (wValue (USB_ControlRequest s) AND 0xFF \<noteq> 0)\<rparr>, s)
   })"

definition hid_set_idle :: "env \<Rightarrow> hid_dev \<Rightarrow> hid_dev option" where
  "hid_set_idle e = (\<lambda>(i, s). do {
     s \<leftarrow> Endpoint_ClearStatusStage e (Endpoint_ClearSETUP e s);
     Some (i\<lparr>IdleCount := drop_bit 6 (wValue (USB_ControlRequest s) AND 0xFF00)\<rparr>, s)
   })"

definition HID_Device_ProcessControlRequest ::
    "create_report \<Rightarrow> process_report \<Rightarrow> u16 \<Rightarrow> env \<Rightarrow> hid_dev \<Rightarrow> hid_dev option" where
  "HID_Device_ProcessControlRequest create process buf e = (\<lambda>(i, s).
     (let (setup, s) = Endpoint_IsSETUPReceived e s;
          r = USB_ControlRequest s;
          to_host = (bmRequestType r = REQDIR_DEVICETOHOST OR REQTYPE_CLASS OR REQREC_INTERFACE);
          to_device = (bmRequestType r = REQDIR_HOSTTODEVICE OR REQTYPE_CLASS OR REQREC_INTERFACE)
      in if \<not> setup then Some (i, s)
         else if wIndex r \<noteq> ucast (hid_InterfaceNumber i) then Some (i, s)
         else if bRequest r = HID_REQ_GetReport then
           if to_host then hid_get_report create buf e (i, s) else Some (i, s)
         else if bRequest r = HID_REQ_SetReport then
           if to_device then hid_set_report process buf e (i, s) else Some (i, s)
         else if bRequest r = HID_REQ_GetProtocol then
           if to_host
           then map_option (\<lambda>s. (i, s)) (hid_send_byte e (if UsingReportProtocol i then 1 else 0) s) else Some (i, s)
         else if bRequest r = HID_REQ_SetProtocol then
           if to_device then hid_set_protocol e (i, s) else Some (i, s)
         else if bRequest r = HID_REQ_SetIdle then
           if to_device then hid_set_idle e (i, s) else Some (i, s)
         else if bRequest r = HID_REQ_GetIdle then
           if to_host
           then map_option (\<lambda>s. (i, s)) (hid_send_byte e (ucast (drop_bit 2 (IdleCount i))) s) else Some (i, s)
         else Some (i, s)))"

subsection \<open>Endpoints and the task\<close>

definition HID_Device_ConfigureEndpoints :: "env \<Rightarrow> hid_dev \<Rightarrow> (bool \<times> hid_dev) option" where
  "HID_Device_ConfigureEndpoints e = (\<lambda>(i, s).
     (let i = i\<lparr>UsingReportProtocol := False, PrevFrameNum := 0, IdleCount := 0, IdleMSRemaining := 0\<rparr>;
          i = i\<lparr>UsingReportProtocol := True\<rparr>;
          i = i\<lparr>IdleCount := 500\<rparr>;
          i = i\<lparr>ReportINEndpoint := (ReportINEndpoint i)\<lparr>epType := EP_TYPE_INTERRUPT\<rparr>\<rparr>
      in do {
        (ok, s) \<leftarrow> Endpoint_ConfigureEndpointTable e [ReportINEndpoint i] s;
        if \<not> ok then Some (False, i, s) else Some (True, i, s)
      }))"

definition HID_Device_MillisecondElapsed :: "USB_ClassInfo_HID_Device_t \<Rightarrow> USB_ClassInfo_HID_Device_t" where
  "HID_Device_MillisecondElapsed i =
     (if IdleMSRemaining i \<noteq> 0 then i\<lparr>IdleMSRemaining := IdleMSRemaining i - 1\<rparr> else i)"

text \<open>The part of the task that runs when the bank takes data.\<close>

definition hid_poll :: "create_report \<Rightarrow> u16 \<Rightarrow> env \<Rightarrow> hid_dev \<Rightarrow> hid_dev option" where
  "hid_poll create buf e = (\<lambda>(i, s).
     (let s = memset_0 buf (unat (PrevReportINBufferSize i)) s;
          (ForceSend, ReportID, ReportINSize, i, s) = create 0 0 buf (i, s);
          IdlePeriodElapsed = (IdleCount i \<noteq> 0 \<and> IdleMSRemaining i = 0);
          prev = PrevReportINBuffer i;
          StatesChanged = (prev \<noteq> 0 \<and> mem_bytes buf (unat ReportINSize) s \<noteq> mem_bytes prev (unat ReportINSize) s);
          s = (if prev \<noteq> 0 then memcpy prev buf (unat (PrevReportINBufferSize i)) s else s)
      in do {
        (i, s) \<leftarrow> (if ReportINSize \<noteq> 0 \<and> (ForceSend \<or> StatesChanged \<or> IdlePeriodElapsed)
          then (let i = i\<lparr>IdleMSRemaining := IdleCount i\<rparr>;
                    s = Endpoint_SelectEndpoint (epAddress (ReportINEndpoint i)) s;
                    s = (if ReportID \<noteq> 0 then Endpoint_Write_8 ReportID s else s)
                in do {
                  (code, bp, s) \<leftarrow> Endpoint_Write_Stream_LE e buf ReportINSize None s;
                  Some (i, Endpoint_ClearIN e s)
                })
          else Some (i, s));
        let (f, s) = USB_Device_GetFrameNumber e s in Some (i\<lparr>PrevFrameNum := f\<rparr>, s)
      }))"

definition HID_Device_USBTask :: "create_report \<Rightarrow> u16 \<Rightarrow> env \<Rightarrow> hid_dev \<Rightarrow> hid_dev option" where
  "HID_Device_USBTask create buf e = (\<lambda>(i, s).
     (let (st, s) = rd e GPIOR0 s
      in if st \<noteq> DEVICE_STATE_Configured then Some (i, s)
         else
           (let (f, s) = USB_Device_GetFrameNumber e s
            in if PrevFrameNum i = f then Some (i, s)
               else
                 (let s = Endpoint_SelectEndpoint (epAddress (ReportINEndpoint i)) s;
                      (allowed, s) = Endpoint_IsReadWriteAllowed e s
                  in if allowed then hid_poll create buf e (i, s) else Some (i, s)))))"

end
