(* ===== verification/Debounce.thy ===== *)
theory Debounce
  imports Locc_Prelude
begin

section \<open>Debouncing: the contract of the input scanners\<close>

text \<open>
  \<^verbatim>\<open>keypad.c\<close> and \<^verbatim>\<open>dial.c\<close> write the same debouncer out inline, once per key and once per
  contact. This theory holds what such a debouncer promises: the reference step \<open>debounce\<close>, its
  behaviour over a sequence of samples, and the locale \<open>debouncer\<close> with the facts the scanners
  rely on. The scanners' own definitions follow the code; their theories prove that they take
  these steps and interpret the locale at the hold times of the code.
\<close>

definition debounce :: "u8 \<Rightarrow> bool \<Rightarrow> u8 \<Rightarrow> bool \<times> u8" where
  "debounce hold active st =
     (if st \<le> 1 then
        (if active then (if st = 0 then (True, hold) else (False, st)) else (False, 0))
      else (False, st - 1))"

fun deb_trace :: "u8 \<Rightarrow> bool list \<Rightarrow> u8 \<Rightarrow> bool list" where
  "deb_trace hold [] st = []"
| "deb_trace hold (a # as) st = fst (debounce hold a st) # deb_trace hold as (snd (debounce hold a st))"

fun deb_state :: "u8 \<Rightarrow> bool list \<Rightarrow> u8 \<Rightarrow> u8" where
  "deb_state hold [] st = st"
| "deb_state hold (a # as) st = deb_state hold as (snd (debounce hold a st))"

lemma length_deb_trace [simp]: "length (deb_trace hold as st) = length as"
  by (induction as arbitrary: st) simp_all

lemma deb_trace_append:
  "deb_trace hold (as @ bs) st = deb_trace hold as st @ deb_trace hold bs (deb_state hold as st)"
  by (induction as arbitrary: st) simp_all

lemma deb_trace_nth_state:
  "i < length as \<Longrightarrow> deb_trace hold as st ! i = fst (debounce hold (as ! i) (deb_state hold (take i as) st))"
  by (induction as arbitrary: st i) (auto simp: nth_Cons split: nat.splits)

lemma u8_le_1: "(st :: u8) \<le> 1 \<longleftrightarrow> st = 0 \<or> st = 1"
  by unat_arith

lemma debounce_fires: "fst (debounce hold a st) \<longleftrightarrow> a \<and> st = 0"
  by (auto simp: debounce_def)

lemma debounce_next:
  "snd (debounce hold a st) =
     (if st = 0 then (if a then hold else 0) else if st = 1 then (if a then 1 else 0) else st - 1)"
  by (auto simp: debounce_def u8_le_1)

lemma debounce_slow: "unat st \<le> Suc (unat (snd (debounce hold a st)))"
  using unat_pred [of st] by (auto simp: debounce_next)

text \<open>A debouncer that is still counting fires only after it has counted down and seen a release.\<close>

lemma deb_quiet:
  "j < length as \<Longrightarrow> deb_trace hold as st ! j \<Longrightarrow> st \<noteq> 0 \<Longrightarrow> unat st \<le> j \<and> (\<exists>k<j. \<not> as ! k)"
proof (induction as arbitrary: st j)
  case (Cons a as)
  from Cons.prems obtain j' where j: "j = Suc j'"
    by (cases j) (auto simp: debounce_fires)
  show ?case
  proof (cases "snd (debounce hold a st) = 0")
    case True
    with Cons.prems(3) have "st = 1" "\<not> a"
      by (auto simp: debounce_next split: if_splits)
    then show ?thesis using j by auto
  next
    case False
    with Cons j have "unat (snd (debounce hold a st)) \<le> j'" "\<exists>k<j'. \<not> as ! k"
      by auto
    moreover have "unat st \<le> Suc (unat (snd (debounce hold a st)))"
      by (rule debounce_slow)
    ultimately show ?thesis using j by auto
  qed
qed simp

locale debouncer =
  fixes hold :: u8
  assumes hold_pos: "hold \<noteq> 0"
begin

text \<open>Two events of one contact are more than \<open>hold\<close> samples apart, with a release between them.\<close>

lemma separated:
  assumes "i < j" "j < length as" "deb_trace hold as st ! i" "deb_trace hold as st ! j"
  shows "unat hold < j - i \<and> (\<exists>k. i < k \<and> k < j \<and> \<not> as ! k)"
proof -
  let ?st = "deb_state hold (take (Suc i) as) st"
  have len: "i < length as" using assms(1,2) by simp
  from assms(3) len have "as ! i \<and> deb_state hold (take i as) st = 0"
    by (simp add: deb_trace_nth_state debounce_fires)
  moreover have "deb_state hold (take (Suc i) as) st
      = snd (debounce hold (as ! i) (deb_state hold (take i as) st))"
    using len
  proof (induction as arbitrary: st i)
    case (Cons a as)
    then show ?case by (cases i) simp_all
  qed simp
  ultimately have st: "?st = hold" by (simp add: debounce_next)
  have "deb_trace hold as st = deb_trace hold (take (Suc i) as) st @ deb_trace hold (drop (Suc i) as) ?st"
    using deb_trace_append [of hold "take (Suc i) as" "drop (Suc i) as" st] by simp
  then have "deb_trace hold (drop (Suc i) as) ?st ! (j - Suc i)"
    using assms len by (simp add: nth_append)
  with deb_quiet [of "j - Suc i" "drop (Suc i) as" hold ?st] st hold_pos assms
  have "unat hold \<le> j - Suc i" "\<exists>k<j - Suc i. \<not> drop (Suc i) as ! k"
    by auto
  moreover then obtain k where "k < j - Suc i" "\<not> as ! (Suc i + k)"
    using assms by auto
  ultimately show ?thesis
    by (intro conjI exI [of _ "Suc i + k"]) (use assms in auto)
qed

text \<open>After \<open>hold\<close> released samples the debouncer is ready, whatever it did before.\<close>

lemma released_ready:
  "unat st \<le> n \<Longrightarrow> deb_state hold (replicate n False) st = 0"
proof (induction n arbitrary: st)
  case 0
  then show ?case by (simp add: unat_eq_zero)
next
  case (Suc n)
  have "unat (snd (debounce hold False st)) \<le> n"
    using Suc.prems unat_pred [of st] by (auto simp: debounce_next unat_eq_zero)
  then show ?case using Suc.IH by simp
qed

lemma released_quiet: "deb_trace hold (replicate n False) st = replicate n False"
  by (induction n arbitrary: st) (simp_all add: debounce_fires)

lemma fires_after_release:
  "unat st \<le> n \<Longrightarrow> deb_trace hold (replicate n False @ [True]) st = replicate n False @ [True]"
proof -
  assume n: "unat st \<le> n"
  show ?thesis
    by (simp add: deb_trace_append released_quiet released_ready [OF n] debounce_fires)
qed

lemma state_bound: "st \<le> hold \<Longrightarrow> snd (debounce hold a st) \<le> hold"
  by (auto simp: debounce_next word_le_nat_alt unat_pred)

end

end
