(* ===== verification/Cylinder.thy ===== *)
theory Cylinder
  imports Locc_Prelude
begin

section \<open>The cylinder interface of locc.c\<close>

text \<open>
  The pins of the microcontroller and the part of \<^verbatim>\<open>locc.c\<close> that drives the electronic cylinder:
  power, wake-up pulse and telegrams.

  \<open>mcu\<close> holds the special function registers the firmware writes. A port or data direction
  register reads back what was written. \<open>wave\<close> records what the cylinder sees on its data line:
  every \<^verbatim>\<open>_delay_us\<close> or \<^verbatim>\<open>_delay_ms\<close> holds the pin in its current configuration for that many
  microseconds.

  \<^verbatim>\<open>sendCylinderTelegram\<close> takes a pointer to C \<open>int\<close>s. The model takes the memory seen from that
  pointer, \<open>nat \<Rightarrow> u16\<close>, because the loop runs to \<^verbatim>\<open>j <= length\<close> and reads one element more than
  the arrays of \<^verbatim>\<open>locc.c\<close> hold; what lies behind the array is the parameter \<open>past\<close>.
\<close>

datatype pinlevel = Driven bool | Pulled bool

record mcu =
  DDRB :: u8
  DDRD :: u8
  PORTC :: u8
  PORTD :: u8
  MCUSR :: u8
  SPCR :: u8
  SPDR :: u8
  TIMSK0 :: u8
  TCCR0B :: u8
  TCNT0 :: u8
  wave :: "(pinlevel \<times> nat) list"

definition CYLINDER_IO_PIN :: nat where
  "CYLINDER_IO_PIN = 5"

definition CYLINDER_VCC_PIN :: nat where
  "CYLINDER_VCC_PIN = 6"

definition CYLINDER_TELEGRAM_TIMING_DELAY :: u8 where
  "CYLINDER_TELEGRAM_TIMING_DELAY = 50"

lemmas pin_defs = CYLINDER_IO_PIN_def CYLINDER_VCC_PIN_def

definition io_level :: "'a mcu_scheme \<Rightarrow> pinlevel" where
  "io_level m =
     (if bit (DDRD m) CYLINDER_IO_PIN then Driven (bit (PORTD m) CYLINDER_IO_PIN)
      else Pulled (bit (PORTD m) CYLINDER_IO_PIN))"

definition delay_us :: "nat \<Rightarrow> 'a mcu_scheme \<Rightarrow> 'a mcu_scheme" where
  "delay_us n m = m\<lparr>wave := wave m @ [(io_level m, n)]\<rparr>"

definition delay_ms :: "nat \<Rightarrow> 'a mcu_scheme \<Rightarrow> 'a mcu_scheme" where
  "delay_ms n m = delay_us (1000 * n) m"

subsection \<open>Delays\<close>

function systemDelay10us :: "u8 \<Rightarrow> 'a mcu_scheme \<Rightarrow> 'a mcu_scheme" where
  "systemDelay10us value m =
     (if value \<noteq> 0 then systemDelay10us (value - 1) (delay_us 10 m) else m)"
  by pat_completeness auto
termination
  by (relation "measure (\<lambda>(value, m). unat value)") (auto intro: word_pred_lt)

function systemDelay1ms :: "u8 \<Rightarrow> 'a mcu_scheme \<Rightarrow> 'a mcu_scheme" where
  "systemDelay1ms value m =
     (if value \<noteq> 0 then systemDelay1ms (value - 1) (delay_ms 1 m) else m)"
  by pat_completeness auto
termination
  by (relation "measure (\<lambda>(value, m). unat value)") (auto intro: word_pred_lt)

function systemDelay10ms :: "u8 \<Rightarrow> 'a mcu_scheme \<Rightarrow> 'a mcu_scheme" where
  "systemDelay10ms value m =
     (if value \<noteq> 0 then systemDelay10ms (value - 1) (delay_ms 10 m) else m)"
  by pat_completeness auto
termination
  by (relation "measure (\<lambda>(value, m). unat value)") (auto intro: word_pred_lt)

function systemDelay1s :: "u8 \<Rightarrow> 'a mcu_scheme \<Rightarrow> 'a mcu_scheme" where
  "systemDelay1s value m =
     (if value \<noteq> 0 then systemDelay1s (value - 1) (delay_ms 1000 m) else m)"
  by pat_completeness auto
termination
  by (relation "measure (\<lambda>(value, m). unat value)") (auto intro: word_pred_lt)

declare systemDelay10us.simps [simp del] systemDelay1ms.simps [simp del]
  systemDelay10ms.simps [simp del] systemDelay1s.simps [simp del]

subsection \<open>Line levels, power and wake-up\<close>

text \<open>
  The pair of register writes that the code repeats under the comments "generate logical HIGH"
  (release the pin, pull-up on) and "generate logical LOW" (drive the pin low).
\<close>

definition line_high :: "'a mcu_scheme \<Rightarrow> 'a mcu_scheme" where
  "line_high m = (let m = m\<lparr>DDRD := cbi CYLINDER_IO_PIN (DDRD m)\<rparr>
                  in m\<lparr>PORTD := sbi CYLINDER_IO_PIN (PORTD m)\<rparr>)"

definition line_low :: "'a mcu_scheme \<Rightarrow> 'a mcu_scheme" where
  "line_low m = (let m = m\<lparr>DDRD := sbi CYLINDER_IO_PIN (DDRD m)\<rparr>
                 in m\<lparr>PORTD := cbi CYLINDER_IO_PIN (PORTD m)\<rparr>)"

definition powerdown_locc :: "'a mcu_scheme \<Rightarrow> 'a mcu_scheme" where
  "powerdown_locc m = (let m = line_low m
                       in m\<lparr>PORTD := cbi CYLINDER_VCC_PIN (PORTD m)\<rparr>)"

definition powerup_locc :: "'a mcu_scheme \<Rightarrow> 'a mcu_scheme" where
  "powerup_locc m = (let m = line_high m
                     in m\<lparr>PORTD := sbi CYLINDER_VCC_PIN (PORTD m)\<rparr>)"

definition wakeup_locc :: "'a mcu_scheme \<Rightarrow> 'a mcu_scheme" where
  "wakeup_locc m =
     (let m = line_high m;
          m = systemDelay10us CYLINDER_TELEGRAM_TIMING_DELAY m;
          m = line_low m;
          m = systemDelay10us (2 * CYLINDER_TELEGRAM_TIMING_DELAY) m
      in line_high m)"

subsection \<open>Telegrams\<close>

definition statusTelegram :: "u16 list" where
  "statusTelegram = [0x01, 0x00, 0x00, 0x00, 0x00, 0x00, 0x20, 0x00]"

definition openTelegram :: "u16 list" where
  "openTelegram = [0x02, 0x23, 0x42, 0xb7, 0x00, 0x00, 0x63, 0x00]"

text \<open>The memory seen from a pointer to the first element of an array.\<close>

definition array_mem :: "u16 list \<Rightarrow> u16 \<Rightarrow> nat \<Rightarrow> u16" where
  "array_mem xs past k = (if k < length xs then xs ! k else past)"

text \<open>One bit: the body of the inner loop.\<close>

definition send_bit :: "bool \<Rightarrow> 'a mcu_scheme \<Rightarrow> 'a mcu_scheme" where
  "send_bit b m =
     (if b then
        (let m = line_high m;
             m = systemDelay10us CYLINDER_TELEGRAM_TIMING_DELAY m;
             m = line_low m
         in systemDelay10us CYLINDER_TELEGRAM_TIMING_DELAY m)
      else
        (let m = line_low m;
             m = systemDelay10us CYLINDER_TELEGRAM_TIMING_DELAY m;
             m = line_high m
         in systemDelay10us CYLINDER_TELEGRAM_TIMING_DELAY m))"

function send_bits :: "u16 \<Rightarrow> int \<Rightarrow> 'a mcu_scheme \<Rightarrow> 'a mcu_scheme" where
  "send_bits v i m =
     (if i \<ge> 0 then send_bits v (i - 1) (send_bit (signed_drop_bit (nat i) v AND 1 \<noteq> 0) m) else m)"
  by pat_completeness auto
termination
  by (relation "measure (\<lambda>(v, i, m). nat (i + 1))") auto

function send_elems :: "(nat \<Rightarrow> u16) \<Rightarrow> int \<Rightarrow> int \<Rightarrow> nat \<Rightarrow> 'a mcu_scheme \<Rightarrow> 'a mcu_scheme" where
  "send_elems mem length' j p m =
     (if j \<le> length' then send_elems mem length' (j + 1) (p + 1) (send_bits (mem p) 7 m) else m)"
  by pat_completeness auto
termination
  by (relation "measure (\<lambda>(mem, length', j, p, m). nat (length' + 1 - j))") auto

declare send_bits.simps [simp del] send_elems.simps [simp del]

definition sendCylinderTelegram :: "(nat \<Rightarrow> u16) \<Rightarrow> int \<Rightarrow> 'a mcu_scheme \<Rightarrow> 'a mcu_scheme" where
  "sendCylinderTelegram telegram length' m = line_high (send_elems telegram length' 0 0 m)"

definition open_locc :: "u16 \<Rightarrow> 'a mcu_scheme \<Rightarrow> 'a mcu_scheme" where
  "open_locc past m = sendCylinderTelegram (array_mem openTelegram past) 8 m"

subsection \<open>What a receiver sees\<close>

text \<open>
  The specification side: the line protocol as a receiver would state it. Logical high is the
  released, pulled-up line and logical low the driven line; a bit is two halves of fifty samples
  of ten microseconds, high-low for 1 and low-high for 0; a byte is eight bits, most significant
  first.
\<close>

abbreviation HIGH :: pinlevel where "HIGH \<equiv> Pulled True"
abbreviation LOW :: pinlevel where "LOW \<equiv> Driven False"

definition half :: "pinlevel \<Rightarrow> (pinlevel \<times> nat) list" where
  "half l = replicate 50 (l, 10)"

definition bit_wave :: "bool \<Rightarrow> (pinlevel \<times> nat) list" where
  "bit_wave b = (if b then half HIGH @ half LOW else half LOW @ half HIGH)"

function rx_bits :: "(pinlevel \<times> nat) list \<Rightarrow> bool list option" where
  "rx_bits w =
     (if w = [] then Some []
      else if take 100 w = bit_wave True then map_option (Cons True) (rx_bits (drop 100 w))
      else if take 100 w = bit_wave False then map_option (Cons False) (rx_bits (drop 100 w))
      else None)"
  by pat_completeness auto
termination
  by (relation "measure length") auto

declare rx_bits.simps [simp del]

function rx_bytes :: "bool list \<Rightarrow> u16 list" where
  "rx_bytes bs =
     (if bs = [] then [] else horner_sum of_bool 2 (rev (take 8 bs)) # rx_bytes (drop 8 bs))"
  by pat_completeness auto
termination
  by (relation "measure length") auto

declare rx_bytes.simps [simp del]

definition msb_bits :: "u16 \<Rightarrow> nat \<Rightarrow> bool list" where
  "msb_bits v n = map (bit v) (rev [0..<n])"

subsection \<open>Lemmas: levels and delays\<close>

lemma io_level_line_high [simp]: "io_level (line_high m) = HIGH"
  by (simp add: io_level_def line_high_def Let_def pin_defs reg_simps)

lemma io_level_line_low [simp]: "io_level (line_low m) = LOW"
  by (simp add: io_level_def line_low_def Let_def pin_defs reg_simps)

lemma io_level_wave [simp]: "io_level (m\<lparr>wave := w\<rparr>) = io_level m"
  by (simp add: io_level_def)

lemma wave_line [simp]: "wave (line_high m) = wave m" "wave (line_low m) = wave m"
  by (simp_all add: line_high_def line_low_def Let_def)

lemma line_wave [simp]:
  "line_high (m\<lparr>wave := w\<rparr>) = (line_high m)\<lparr>wave := w\<rparr>"
  "line_low (m\<lparr>wave := w\<rparr>) = (line_low m)\<lparr>wave := w\<rparr>"
  by (simp_all add: line_high_def line_low_def Let_def)

lemma line_line [simp]:
  "line_high (line_low m) = line_high m" "line_low (line_high m) = line_low m"
  "line_high (line_high m) = line_high m" "line_low (line_low m) = line_low m"
  by (simp_all add: line_high_def line_low_def Let_def cbi_sbi cbi_idem sbi_idem)
     (auto intro!: mcu.equality word8_eqI simp: reg_simps)

lemma systemDelay10us_eq:
  "systemDelay10us v m = m\<lparr>wave := wave m @ replicate (unat v) (io_level m, 10)\<rparr>"
proof (induction v m rule: systemDelay10us.induct)
  case (1 v m)
  show ?case
  proof (cases "v = 0")
    case True
    then show ?thesis by (simp add: systemDelay10us.simps)
  next
    case False
    then have "unat v = Suc (unat (v - 1))"
      by (simp add: unat_pred) (metis Suc_pred unat_gt_0)
    with 1 False show ?thesis
      by (simp add: systemDelay10us.simps [of v m] delay_us_def)
  qed
qed

lemma half_delay: "systemDelay10us CYLINDER_TELEGRAM_TIMING_DELAY m = m\<lparr>wave := wave m @ half (io_level m)\<rparr>"
  by (simp add: systemDelay10us_eq CYLINDER_TELEGRAM_TIMING_DELAY_def half_def)

lemma length_bit_wave [simp]: "length (bit_wave b) = 100"
  by (simp add: bit_wave_def half_def)

lemma bit_wave_inject [simp]: "bit_wave a = bit_wave b \<longleftrightarrow> a = b"
  by (auto simp: bit_wave_def half_def numeral_eq_Suc)

subsection \<open>Lemmas: closed forms of the transmitter\<close>

lemma send_bit_eq:
  "send_bit b m = (if b then line_low m else line_high m)\<lparr>wave := wave m @ bit_wave b\<rparr>"
  by (simp add: send_bit_def half_delay bit_wave_def Let_def)

lemma and_1_odd: "(w AND (1 :: 'a::len word) \<noteq> 0) = bit w 0"
  by (simp add: and_one_eq bit_0 flip: even_iff_mod_2_eq_zero)

lemma shifted_bit: "i < 16 \<Longrightarrow> (signed_drop_bit i v AND (1 :: u16) \<noteq> 0) = bit v i"
  unfolding and_1_odd by (simp only: bit_signed_drop_bit_iff) simp

lemma msb_bits_Suc [simp]: "msb_bits v (Suc n) = bit v n # msb_bits v n"
  by (simp add: msb_bits_def)

lemma msb_bits_0 [simp]: "msb_bits v 0 = []"
  by (simp add: msb_bits_def)

lemma length_msb_bits [simp]: "length (msb_bits v n) = n"
  by (simp add: msb_bits_def)

lemma line_high_send_bits:
  assumes "n \<le> 16"
  shows "line_high (send_bits v (int n - 1) m) =
           (line_high m)\<lparr>wave := wave m @ concat (map bit_wave (msb_bits v n))\<rparr>"
  using assms
proof (induction n arbitrary: m)
  case 0
  show ?case by (simp add: send_bits.simps)
next
  case (Suc n)
  then have "(signed_drop_bit n v AND (1 :: u16) \<noteq> 0) = bit v n"
    by (intro shifted_bit) simp
  then have "send_bits v (int (Suc n) - 1) m = send_bits v (int n - 1) (send_bit (bit v n) m)"
    by (simp add: send_bits.simps [of v "int n"])
  then show ?case
    using Suc by (simp add: send_bit_eq)
qed

lemma line_high_send_byte:
  "line_high (send_bits v 7 m) = (line_high m)\<lparr>wave := wave m @ concat (map bit_wave (msb_bits v 8))\<rparr>"
  using line_high_send_bits [of 8 v m] by simp

lemma wave_send_byte:
  "wave (send_bits v 7 m) = wave m @ concat (map bit_wave (msb_bits v 8))"
  using arg_cong [OF line_high_send_byte, of wave] by simp

lemma line_high_send_elems:
  "line_high (send_elems mem (j + int n - 1) j p m) =
     (line_high m)\<lparr>wave := wave m @ concat (map bit_wave (concat (map (\<lambda>k. msb_bits (mem k) 8) [p..<p + n])))\<rparr>"
proof (induction n arbitrary: j p m)
  case 0
  show ?case by (simp add: send_elems.simps)
next
  case (Suc n)
  have "send_elems mem (j + int (Suc n) - 1) j p m =
          send_elems mem ((j + 1) + int n - 1) (j + 1) (p + 1) (send_bits (mem p) 7 m)"
    by (simp add: send_elems.simps [of mem _ j] algebra_simps)
  then show ?case
    using Suc [of "j + 1" "p + 1" "send_bits (mem p) 7 m"]
    by (simp add: line_high_send_byte wave_send_byte upt_conv_Cons del: upt_Suc)
qed

lemma sendCylinderTelegram_eq:
  "sendCylinderTelegram mem (int n) m =
     (line_high m)\<lparr>wave := wave m @ concat (map bit_wave (concat (map (\<lambda>k. msb_bits (mem k) 8) [0..<Suc n])))\<rparr>"
  using line_high_send_elems [of mem 0 "Suc n" 0 m]
  by (simp add: sendCylinderTelegram_def del: upt_Suc)

lemma wakeup_locc_eq:
  "wakeup_locc m = (line_high m)\<lparr>wave := wave m @ half HIGH @ half LOW @ half LOW\<rparr>"
  by (simp add: wakeup_locc_def half_delay Let_def systemDelay10us_eq
      CYLINDER_TELEGRAM_TIMING_DELAY_def half_def flip: replicate_add)

subsection \<open>Lemmas: the receiver inverts the transmitter\<close>

lemma rx_bits_append: "rx_bits (bit_wave b @ w) = map_option (Cons b) (rx_bits w)"
  by (cases b) (simp_all add: rx_bits.simps [of "bit_wave b @ w" for b] flip: length_0_conv)

lemma rx_bits_concat: "rx_bits (concat (map bit_wave bs)) = Some bs"
  by (induction bs) (simp_all add: rx_bits_append rx_bits.simps [of "[]"])

lemma rx_byte: "horner_sum of_bool 2 (rev (msb_bits v 8)) = take_bit 8 v"
  by (simp add: msb_bits_def rev_map flip: horner_sum_bit_eq_take_bit)

lemma rx_bytes_concat:
  "rx_bytes (concat (map (\<lambda>k. msb_bits (f k) 8) ks)) = map (\<lambda>k. take_bit 8 (f k)) ks"
proof (induction ks)
  case Nil
  show ?case by (simp add: rx_bytes.simps)
next
  case (Cons k ks)
  let ?r = "concat (map (\<lambda>k. msb_bits (f k) 8) ks)"
  have "rx_bytes (msb_bits (f k) 8 @ ?r) = horner_sum of_bool 2 (rev (msb_bits (f k) 8)) # rx_bytes ?r"
    by (simp add: rx_bytes.simps [of "msb_bits (f k) 8 @ ?r"] flip: length_0_conv)
  with Cons show ?case by (simp add: rx_byte)
qed

lemma map_array_mem: "map (array_mem xs past) [0..<Suc (length xs)] = xs @ [past]"
  by (rule nth_equalityI) (auto simp: array_mem_def nth_append less_Suc_eq simp del: upt_Suc)

lemma take_bit_openTelegram: "map (take_bit 8) openTelegram = openTelegram"
  by (simp add: openTelegram_def)

lemma wave_length_us: "sum_list (map snd (concat (map bit_wave bs))) = 1000 * length bs"
  by (induction bs) (simp_all add: bit_wave_def half_def sum_list_replicate)

lemma length_concat_bytes: "length (concat (map (\<lambda>k. msb_bits (f k) 8) ks)) = 8 * length ks"
  by (induction ks) simp_all

lemma open_locc_eq:
  "open_locc past m = (line_high m)\<lparr>wave := wave m @
     concat (map bit_wave (concat (map (\<lambda>v. msb_bits v 8) (openTelegram @ [past]))))\<rparr>"
proof -
  have "(8 :: int) = int (length openTelegram)"
    by (simp add: openTelegram_def)
  moreover have "map (\<lambda>k. msb_bits (array_mem openTelegram past k) 8) [0..<Suc (length openTelegram)]
          = map (\<lambda>v. msb_bits v 8) (openTelegram @ [past])"
    by (simp only: map_array_mem [symmetric] map_map comp_def)
  ultimately show ?thesis
    by (simp only: open_locc_def sendCylinderTelegram_eq)
qed

subsection \<open>Lemmas: which pins the cylinder code writes\<close>

text \<open>Every operation is a line level plus an extension of the recorded waveform.\<close>

lemma line_high_regs [simp]:
  "DDRD (line_high m) = cbi 5 (DDRD m)" "PORTD (line_high m) = sbi 5 (PORTD m)"
  by (simp_all add: line_high_def Let_def pin_defs)

lemma line_low_regs [simp]:
  "DDRD (line_low m) = sbi 5 (DDRD m)" "PORTD (line_low m) = cbi 5 (PORTD m)"
  by (simp_all add: line_low_def Let_def pin_defs)

definition same_but_cylinder_pins :: "'a mcu_scheme \<Rightarrow> 'a mcu_scheme \<Rightarrow> bool" where
  "same_but_cylinder_pins m m' \<longleftrightarrow>
     m'\<lparr>DDRD := DDRD m, PORTD := PORTD m, wave := wave m\<rparr> = m \<and>
     (\<forall>n. n \<noteq> 5 \<and> n \<noteq> 6 \<longrightarrow> bit (DDRD m') n = bit (DDRD m) n \<and> bit (PORTD m') n = bit (PORTD m) n) \<and>
     bit (DDRD m') 6 = bit (DDRD m) 6"

lemma powerdown_locc_eq:
  "powerdown_locc m = m\<lparr>DDRD := sbi 5 (DDRD m), PORTD := cbi 6 (cbi 5 (PORTD m))\<rparr>"
  by (simp add: powerdown_locc_def line_low_def Let_def pin_defs)

lemma powerup_locc_eq:
  "powerup_locc m = m\<lparr>DDRD := cbi 5 (DDRD m), PORTD := sbi 6 (sbi 5 (PORTD m))\<rparr>"
  by (simp add: powerup_locc_def line_high_def Let_def pin_defs)

lemma line_high_wave_eq:
  "(line_high m)\<lparr>wave := w\<rparr> = m\<lparr>DDRD := cbi 5 (DDRD m), PORTD := sbi 5 (PORTD m), wave := w\<rparr>"
  by (simp add: line_high_def Let_def pin_defs)

lemma frame_powerdown: "same_but_cylinder_pins m (powerdown_locc m)"
  by (simp add: same_but_cylinder_pins_def powerdown_locc_eq reg_simps)

lemma frame_powerup: "same_but_cylinder_pins m (powerup_locc m)"
  by (simp add: same_but_cylinder_pins_def powerup_locc_eq reg_simps)

lemma frame_wakeup: "same_but_cylinder_pins m (wakeup_locc m)"
  by (simp add: same_but_cylinder_pins_def wakeup_locc_eq line_high_wave_eq reg_simps)

lemma frame_open: "same_but_cylinder_pins m (open_locc past m)"
  by (simp add: same_but_cylinder_pins_def open_locc_eq line_high_wave_eq reg_simps)

lemmas cylinder_frames = frame_powerdown frame_powerup frame_wakeup frame_open

subsection \<open>Properties\<close>


text \<open>
  C14. The opening telegram. \<^verbatim>\<open>open_locc\<close> transmits the eight bytes of \<^verbatim>\<open>openTelegram\<close> and then a
  ninth byte: the low byte of whatever \<open>int\<close> lies behind the array in memory.
\<close>

theorem open_locc_sends_ninth_byte:
  "\<exists>w. wave (open_locc past m) = wave m @ w \<and>
       map_option rx_bytes (rx_bits w) = Some (openTelegram @ [take_bit 8 past])"
proof -
  let ?bs = "concat (map (\<lambda>v. msb_bits v 8) (openTelegram @ [past]))"
  have "rx_bytes ?bs = map (take_bit 8) (openTelegram @ [past])"
    using rx_bytes_concat [of "\<lambda>v. v" "openTelegram @ [past]"] by simp
  then have "map_option rx_bytes (rx_bits (concat (map bit_wave ?bs))) = Some (openTelegram @ [take_bit 8 past])"
    by (simp only: rx_bits_concat option.map map_append list.map take_bit_openTelegram)
  moreover have "wave (open_locc past m) = wave m @ concat (map bit_wave ?bs)"
    by (simp add: open_locc_eq)
  ultimately show ?thesis by blast
qed

end
