(* ===== verification/Keypad.thy ===== *)
theory Keypad
  imports Debounce Cylinder
begin

section \<open>The matrix keypad of keypad.c\<close>

text \<open>
  \<^verbatim>\<open>keypad_scan\<close> reads the four columns of the row that the shift register selects, debounces
  each key of that row, and moves the selector to the next row. Its \<^verbatim>\<open>static\<close> variables and the
  global \<^verbatim>\<open>matrix_selector\<close> are the record \<open>keypad\<close>; the port input \<^verbatim>\<open>PIND\<close> is an argument. The
  array accesses are within bounds under \<open>keypad_inv\<close>, which every scan keeps.
\<close>

record keypad =
  matrix_selector :: u8
  kp_row :: u8
  debouncing :: "u8 list list"

definition keypad_init :: keypad where
  "keypad_init = \<lparr>matrix_selector = 0x10, kp_row = 0, debouncing = replicate 4 (replicate 4 0)\<rparr>"

definition KEYPAD_COLS_FIRST_PIN :: nat where
  "KEYPAD_COLS_FIRST_PIN = 0"

definition keypad_setup :: "'a mcu_scheme \<Rightarrow> 'a mcu_scheme" where
  "keypad_setup m = m\<lparr>PORTD := PORTD m OR push_bit KEYPAD_COLS_FIRST_PIN 0xF\<rparr>"

definition lookup :: string where
  "lookup = ''2580147afedc369b''"

text \<open>The body of the column loop; \<open>ret\<close> and the debouncing array are what it updates.\<close>

definition keypad_col :: "u8 \<Rightarrow> u8 \<Rightarrow> nat \<Rightarrow> u8 \<times> u8 list list \<Rightarrow> u8 \<times> u8 list list" where
  "keypad_col row_state row i = (\<lambda>(ret, deb).
     (let r = unat row in
      if deb ! r ! i \<le> 1 then
        (if row_state AND push_bit i 1 \<noteq> 0 then
           (if deb ! r ! i = 0 then
              (ch (lookup ! (r * 4 + i)), deb[r := (deb ! r)[i := 0x40]])
            else (ret, deb))
         else (ret, deb[r := (deb ! r)[i := 0]]))
      else (ret, deb[r := (deb ! r)[i := deb ! r ! i - 1]])))"

definition keypad_scan :: "u8 \<Rightarrow> keypad \<Rightarrow> u8 \<times> keypad" where
  "keypad_scan pind k =
     (let row_state = NOT (drop_bit KEYPAD_COLS_FIRST_PIN pind);
          (ret, deb) = fold (keypad_col row_state (kp_row k)) [0..<4] (0, debouncing k);
          sel = push_bit 1 (matrix_selector k);
          row = kp_row k + 1
      in (ret,
          if sel = 0 then \<lparr>matrix_selector = 0x10, kp_row = 0, debouncing = deb\<rparr>
          else \<lparr>matrix_selector = sel, kp_row = row, debouncing = deb\<rparr>))"

definition keypad_inv :: "keypad \<Rightarrow> bool" where
  "keypad_inv k \<longleftrightarrow>
     kp_row k < 4 \<and> matrix_selector k = push_bit (unat (kp_row k)) 0x10 \<and>
     length (debouncing k) = 4 \<and>
     (\<forall>r<4. length (debouncing k ! r) = 4 \<and> (\<forall>i<4. debouncing k ! r ! i \<le> 0x40))"

interpretation key: debouncer "0x40"
  by unfold_locales simp

subsection \<open>Lemmas: one scan is one debouncing step of every key of the row\<close>

definition pressed :: "u8 \<Rightarrow> nat \<Rightarrow> bool" where
  "pressed pind i \<longleftrightarrow> \<not> bit pind i"

definition newly :: "u8 \<Rightarrow> keypad \<Rightarrow> nat \<Rightarrow> bool" where
  "newly pind k i \<longleftrightarrow> pressed pind i \<and> debouncing k ! unat (kp_row k) ! i = 0"

lemma keypad_col_eq:
  assumes "r < length deb" "i < length (deb ! r)" "r = unat row"
  shows "keypad_col rs row i (ret, deb) =
           (if fst (debounce 0x40 (bit rs i) (deb ! r ! i)) then ch (lookup ! (r * 4 + i)) else ret,
            deb[r := (deb ! r)[i := snd (debounce 0x40 (bit rs i) (deb ! r ! i))]])"
  using assms by (simp add: keypad_col_def debounce_def and_exp_eq_0_iff_not_bit Let_def)

lemma keypad_loop:
  fixes deb :: "u8 list list"
  assumes "r < length deb" "length (deb ! r) = 4" "r = unat row" "n \<le> 4"
  shows "fold (keypad_col rs row) [0..<n] (0, deb) =
     (let fs = filter (\<lambda>i. fst (debounce 0x40 (bit rs i) (deb ! r ! i))) [0..<n]
      in (if fs = [] then 0 else ch (lookup ! (r * 4 + last fs)),
          deb[r := map (\<lambda>i. if i < n then snd (debounce 0x40 (bit rs i) (deb ! r ! i)) else deb ! r ! i) [0..<4]]))"
  using assms(4)
proof (induction n)
  case 0
  have "map (\<lambda>i. deb ! r ! i) [0..<4] = deb ! r"
    using assms(2) by (metis map_nth)
  then show ?case by (simp add: Let_def)
next
  case (Suc n)
  let ?d = "\<lambda>i. debounce 0x40 (bit rs i) (deb ! r ! i)"
  let ?deb = "deb[r := map (\<lambda>i. if i < n then snd (?d i) else deb ! r ! i) [0..<4]]"
  have n: "n < 4" using Suc.prems by simp
  have r: "?deb ! r = map (\<lambda>i. if i < n then snd (?d i) else deb ! r ! i) [0..<4]"
    using assms(1) by simp
  have "keypad_col rs row n (ret, ?deb) =
     (if fst (?d n) then ch (lookup ! (r * 4 + n)) else ret,
      ?deb[r := (?deb ! r)[n := snd (?d n)]])" for ret
    using keypad_col_eq [of r ?deb n row rs ret] assms(1,3) n by simp
  moreover have "(map (\<lambda>i. if i < n then snd (?d i) else deb ! r ! i) [0..<4])[n := snd (?d n)]
      = map (\<lambda>i. if i < Suc n then snd (?d i) else deb ! r ! i) [0..<4]"
    by (rule nth_equalityI) (auto simp: nth_list_update less_Suc_eq)
  ultimately show ?case
    using Suc n r assms(1) by (simp add: Let_def)
qed

lemma keypad_sel_wrap:
  "x < 4 \<Longrightarrow> (push_bit 1 (push_bit (unat x) (0x10 :: u8)) = 0) = (x = 3)"
  "x < 4 \<Longrightarrow> x \<noteq> 3 \<Longrightarrow> push_bit 1 (push_bit (unat x) (0x10 :: u8)) = push_bit (unat (x + 1)) 0x10 \<and> x + 1 < 4"
  for x :: u8
  by (auto simp: u8_lt_4)

text \<open>The closed form of a scan, which the properties below rest on.\<close>

lemma keypad_scan_eq:
  assumes "keypad_inv k"
  defines "r \<equiv> unat (kp_row k)"
  shows "keypad_scan pind k =
     (let fs = filter (newly pind k) [0..<4]
      in (if fs = [] then 0 else ch (lookup ! (r * 4 + last fs)),
          \<lparr>matrix_selector = push_bit (unat (if kp_row k = 3 then 0 else kp_row k + 1)) 0x10,
           kp_row = (if kp_row k = 3 then 0 else kp_row k + 1),
           debouncing = (debouncing k)[r := map (\<lambda>i. snd (debounce 0x40 (pressed pind i) (debouncing k ! r ! i))) [0..<4]]\<rparr>))"
proof -
  have r: "r < 4" "kp_row k < 4"
    using assms by (auto simp: keypad_inv_def word_less_nat_alt)
  then have len: "r < length (debouncing k)" "length (debouncing k ! r) = 4"
    using assms by (auto simp: keypad_inv_def)
  have p: "i < 8 \<Longrightarrow> bit (NOT pind) i = pressed pind i" for i
    by (simp add: pressed_def bit_simps)
  have f: "filter (\<lambda>i. fst (debounce 0x40 (bit (NOT pind) i) (debouncing k ! r ! i))) [0..<4] = filter (newly pind k) [0..<4]"
    by (rule filter_cong) (auto simp: newly_def debounce_fires p r_def)
  have m: "map (\<lambda>i. if i < 4 then snd (debounce 0x40 (bit (NOT pind) i) (debouncing k ! r ! i)) else debouncing k ! r ! i) [0..<4]
      = map (\<lambda>i. snd (debounce 0x40 (pressed pind i) (debouncing k ! r ! i))) [0..<4]"
    by (rule map_cong) (auto simp: p)
  have "fold (keypad_col (NOT pind) (kp_row k)) [0..<4] (0, debouncing k) =
      (let fs = filter (newly pind k) [0..<4] in (if fs = [] then 0 else ch (lookup ! (r * 4 + last fs)),
        (debouncing k)[r := map (\<lambda>i. snd (debounce 0x40 (pressed pind i) (debouncing k ! r ! i))) [0..<4]]))"
    using keypad_loop [OF len meta_eq_to_obj_eq [OF r_def] order_refl, where rs = "NOT pind"] unfolding f m .
  moreover have "matrix_selector k = push_bit (unat (kp_row k)) 0x10"
    using assms by (simp add: keypad_inv_def)
  ultimately show ?thesis
    using keypad_sel_wrap [OF r(2)]
    by (simp add: keypad_scan_def KEYPAD_COLS_FIRST_PIN_def Let_def)
qed

lemma keypad_inv_scan: "keypad_inv k \<Longrightarrow> keypad_inv (snd (keypad_scan pind k))"
proof -
  assume inv: "keypad_inv k"
  then have "unat (kp_row k) < 4" "kp_row k < 4"
    by (auto simp: keypad_inv_def word_less_nat_alt)
  with inv show ?thesis
    by (auto simp: keypad_scan_eq [OF inv] Let_def keypad_inv_def nth_list_update key.state_bound keypad_sel_wrap)
qed

lemma keypad_inv_init: "keypad_inv keypad_init"
  by (simp add: keypad_inv_def keypad_init_def)

interpretation kp: step_system "\<lambda>pind k. snd (keypad_scan pind k)" keypad_inv
  by unfold_locales (rule keypad_inv_scan)

subsection \<open>Lemmas: which key a report names, and how reports of one key are spaced\<close>

fun kp_trace :: "u8 list \<Rightarrow> keypad \<Rightarrow> u8 list" where
  "kp_trace [] k = []"
| "kp_trace (p # ps) k = fst (keypad_scan p k) # kp_trace ps (snd (keypad_scan p k))"

definition row_at :: "keypad \<Rightarrow> nat \<Rightarrow> nat" where
  "row_at k n = (unat (kp_row k) + n) mod 4"

lemma lookup_inject: "a < 16 \<Longrightarrow> b < 16 \<Longrightarrow> ch (lookup ! a) = ch (lookup ! b) \<longleftrightarrow> a = b"
proof -
  assume ab: "a < 16" "b < 16"
  have "distinct (map ch lookup)" and l: "length lookup = 16"
    by (simp_all add: lookup_def ch_def)
  then show ?thesis
    using nth_eq_iff_index_eq [of "map ch lookup" a b] ab by simp
qed

lemma lookup_nonzero: "a < 16 \<Longrightarrow> ch (lookup ! a) \<noteq> 0"
proof -
  assume "a < 16"
  moreover have "list_all (\<lambda>c. ch c \<noteq> 0) lookup" and "length lookup = 16"
    by (simp_all add: lookup_def ch_def)
  ultimately show ?thesis by (simp add: list_all_length)
qed

lemma scan_fired:
  assumes "keypad_inv k"
  shows "fst (keypad_scan pind k) =
     (if \<exists>i<4. newly pind k i then ch (lookup ! (unat (kp_row k) * 4 + Max {i. i < 4 \<and> newly pind k i})) else 0)"
proof -
  let ?fs = "filter (newly pind k) [0..<4]"
  have set: "set ?fs = {i. i < 4 \<and> newly pind k i}" by auto
  have "?fs \<noteq> [] \<Longrightarrow> last ?fs = Max (set ?fs)"
    by (intro last_sorted_Max) (simp_all add: sorted_wrt_filter)
  moreover have "(?fs = []) = (\<not> (\<exists>i<4. newly pind k i))"
    by (auto simp: filter_empty_conv)
  ultimately show ?thesis
    by (auto simp: keypad_scan_eq [OF assms] Let_def set)
qed

lemma scan_reports:
  assumes "keypad_inv k" "r < 4" "i < 4" "fst (keypad_scan pind k) = ch (lookup ! (r * 4 + i))"
  shows "unat (kp_row k) = r \<and> newly pind k i"
proof -
  let ?S = "{i. i < 4 \<and> newly pind k i}"
  have row: "unat (kp_row k) < 4"
    using assms(1) by (simp add: keypad_inv_def word_less_nat_alt)
  have "\<exists>i<4. newly pind k i"
    using assms scan_fired [OF assms(1)] lookup_nonzero [of "r * 4 + i"] by (auto split: if_splits)
  then have "Max ?S \<in> ?S"
    by (intro Max_in) auto
  moreover from this row assms have "unat (kp_row k) * 4 + Max ?S = r * 4 + i"
    using scan_fired [OF assms(1), of pind] lookup_inject [of "unat (kp_row k) * 4 + Max ?S" "r * 4 + i"]
    by (auto split: if_splits)
  ultimately have "unat (kp_row k) = r" "Max ?S = i"
    using assms(3) by (auto, presburger+)
  with \<open>Max ?S \<in> ?S\<close> show ?thesis by auto
qed


lemma keypad_row_bound: "keypad_inv k \<Longrightarrow> unat (kp_row k) < 4"
  by (simp add: keypad_inv_def word_less_nat_alt)

lemma keypad_scan_debouncing:
  assumes "keypad_inv k" "r < 4" "i < 4"
  shows "debouncing (snd (keypad_scan pind k)) ! r ! i =
    (if r = unat (kp_row k) then snd (debounce 0x40 (pressed pind i) (debouncing k ! r ! i))
     else debouncing k ! r ! i)"
  using assms keypad_row_bound [OF assms(1)]
  by (auto simp: keypad_scan_eq [OF assms(1)] Let_def nth_list_update keypad_inv_def)

lemma keypad_scan_row:
  assumes "keypad_inv k"
  shows "unat (kp_row (snd (keypad_scan pind k))) = Suc (unat (kp_row k)) mod 4"
proof -
  have "kp_row k < 4" using assms by (simp add: keypad_inv_def)
  then show ?thesis
    by (auto simp: keypad_scan_eq [OF assms] Let_def u8_lt_4)
qed

lemma row_at_scan: "keypad_inv k \<Longrightarrow> row_at (snd (keypad_scan p k)) n = row_at k (Suc n)"
  by (simp add: row_at_def keypad_scan_row mod_simps)

lemma turn_dist:
  fixes r x :: nat
  assumes "r < 4" "x < 4"
  shows "(r + 4 - Suc x mod 4) mod 4 = (if r = x then 3 else (r + 4 - x) mod 4 - 1)"
    "r \<noteq> x \<Longrightarrow> 0 < (r + 4 - x) mod 4"
proof -
  have "r = 0 \<or> r = 1 \<or> r = 2 \<or> r = 3" "x = 0 \<or> x = 1 \<or> x = 2 \<or> x = 3"
    using assms by auto
  then show "(r + 4 - Suc x mod 4) mod 4 = (if r = x then 3 else (r + 4 - x) mod 4 - 1)"
    "r \<noteq> x \<Longrightarrow> 0 < (r + 4 - x) mod 4"
    by (elim disjE; simp)+
qed

text \<open>
  A report of a key whose debouncer stands at \<open>st\<close> comes no sooner than the scan of its row
  after \<open>st\<close> full turns of the matrix, and, when \<open>st\<close> is not zero, not before a release.
\<close>

lemma key_quiet:
  assumes "keypad_inv k" "r < 4" "i < 4" "j < length ps" "kp_trace ps k ! j = ch (lookup ! (r * 4 + i))"
  shows "(r + 4 - unat (kp_row k)) mod 4 + 4 * unat (debouncing k ! r ! i) \<le> j
    \<and> (debouncing k ! r ! i \<noteq> 0 \<longrightarrow> (\<exists>n<j. row_at k n = r \<and> \<not> pressed (ps ! n) i))"
  using assms(1,4,5)
proof (induction ps arbitrary: k j)
  case (Cons p ps)
  let ?k = "snd (keypad_scan p k)"
  note inv = Cons.prems(1)
  have row: "unat (kp_row k) < 4" by (rule keypad_row_bound [OF inv])
  show ?case
  proof (cases j)
    case 0
    then show ?thesis
      using Cons.prems scan_reports [OF inv assms(2,3), of p] by (auto simp: newly_def)
  next
    case (Suc j')
    have IH: "(r + 4 - unat (kp_row ?k)) mod 4 + 4 * unat (debouncing ?k ! r ! i) \<le> j'
        \<and> (debouncing ?k ! r ! i \<noteq> 0 \<longrightarrow> (\<exists>n<j'. row_at ?k n = r \<and> \<not> pressed (ps ! n) i))"
      using Cons.prems Suc by (intro Cons.IH keypad_inv_scan) auto
    have later: "\<exists>n<j. row_at k n = r \<and> \<not> pressed ((p # ps) ! n) i"
      if "debouncing ?k ! r ! i \<noteq> 0"
    proof -
      from IH that obtain n where "n < j'" "row_at ?k n = r" "\<not> pressed (ps ! n) i" by blast
      then show ?thesis
        by (intro exI [of _ "Suc n"]) (simp add: Suc row_at_scan [OF inv])
    qed
    have dist: "(r + 4 - unat (kp_row ?k)) mod 4 =
        (if r = unat (kp_row k) then 3 else (r + 4 - unat (kp_row k)) mod 4 - 1)"
      "r \<noteq> unat (kp_row k) \<Longrightarrow> (r + 4 - unat (kp_row k)) mod 4 > 0"
      unfolding keypad_scan_row [OF inv] using turn_dist [OF assms(2) row] by auto
    show ?thesis
    proof (cases "r = unat (kp_row k)")
      case False
      then have st': "debouncing ?k ! r ! i = debouncing k ! r ! i"
        by (simp add: keypad_scan_debouncing [OF inv assms(2,3)])
      define d where "d = (r + 4 - unat (kp_row k)) mod 4"
      have "(r + 4 - unat (kp_row k)) mod 4 + 4 * unat (debouncing k ! r ! i) \<le> j"
        using conjunct1 [OF IH] dist(2) [OF False] Suc unfolding st' dist(1) if_not_P [OF False]
        unfolding d_def [symmetric] by linarith
      then show ?thesis using later unfolding st' by blast
    next
      case True
      let ?st = "debouncing k ! r ! i"
      have st': "debouncing ?k ! r ! i = snd (debounce 0x40 (pressed p i) ?st)"
        using True keypad_scan_debouncing [OF inv assms(2,3), of p] by (simp only: simp_thms if_True)
      have "4 * unat ?st \<le> j"
        using conjunct1 [OF IH] debounce_slow [of ?st "0x40" "pressed p i"] Suc
        unfolding dist(1) if_P [OF True] st' by linarith
      moreover have "\<exists>n<j. row_at k n = r \<and> \<not> pressed ((p # ps) ! n) i" if "?st \<noteq> 0"
      proof (cases "debouncing ?k ! r ! i = 0")
        case zero: True
        with that have "\<not> pressed p i" by (auto simp: st' debounce_next split: if_splits)
        then show ?thesis using Suc True row by (intro exI [of _ 0]) (simp add: row_at_def)
      qed (rule later)
      ultimately show ?thesis using True by simp
    qed
  qed
qed simp

lemma length_kp_trace [simp]: "length (kp_trace ps k) = length ps"
  by (induction ps arbitrary: k) simp_all

lemma kp_trace_append:
  "kp_trace (ps @ qs) k = kp_trace ps k @ kp_trace qs (run (\<lambda>p k. snd (keypad_scan p k)) ps k)"
  by (induction ps arbitrary: k) simp_all

lemma kp_run_row:
  "keypad_inv k \<Longrightarrow> unat (kp_row (run (\<lambda>p k. snd (keypad_scan p k)) ps k)) = row_at k (length ps)"
  by (induction ps arbitrary: k)
     (simp_all add: keypad_inv_scan row_at_scan, simp add: row_at_def keypad_row_bound)

lemma kp_trace_report:
  assumes "keypad_inv k" "t < length ps" "kp_trace ps k ! t \<noteq> 0"
  obtains i where "i < 4" "kp_trace ps k ! t = ch (lookup ! (row_at k t * 4 + i))"
    "newly (ps ! t) (run (\<lambda>p k. snd (keypad_scan p k)) (take t ps) k) i"
proof -
  let ?k = "run (\<lambda>p k. snd (keypad_scan p k)) (take t ps) k"
  let ?S = "{i. i < 4 \<and> newly (ps ! t) ?k i}"
  have inv: "keypad_inv ?k" by (rule kp.inv_run [OF assms(1)])
  have "kp_trace (take t ps @ ps ! t # drop (Suc t) ps) k ! t = fst (keypad_scan (ps ! t) ?k)"
    using assms(2) by (simp only: kp_trace_append) (simp add: nth_append)
  then have t: "kp_trace ps k ! t = fst (keypad_scan (ps ! t) ?k)"
    using id_take_nth_drop [OF assms(2)] by metis
  with assms(3) scan_fired [OF inv, of "ps ! t"] have ex: "\<exists>i<4. newly (ps ! t) ?k i"
    by (auto split: if_splits)
  then have "Max ?S \<in> ?S" by (intro Max_in) auto
  with that [of "Max ?S"] t ex scan_fired [OF inv, of "ps ! t"] show ?thesis
    using kp_run_row [OF assms(1), of "take t ps"] assms(2) by auto
qed

subsection \<open>Properties\<close>

text \<open>
  C15. At every moment of every run from the initial state, the state of the keypad is well formed:
  the row counter is below 4 and equal to the number of scans modulo 4, the selector has exactly
  the bit of that row set, and every array access of the next scan is in bounds. The next scan
  returns the character of the highest column of that row whose key is pressed and whose debouncer
  is at rest, and 0 when there is none.
\<close>

theorem keypad_scan_correct:
  "let k = run (\<lambda>p k. snd (keypad_scan p k)) ps keypad_init; r = length ps mod 4
   in keypad_inv k \<and> unat (kp_row k) = r \<and> matrix_selector k = push_bit r 0x10 \<and>
      fst (keypad_scan pind k) =
        (if \<exists>i<4. newly pind k i then ch (lookup ! (r * 4 + Max {i. i < 4 \<and> newly pind k i})) else 0)"
proof -
  let ?k = "run (\<lambda>p k. snd (keypad_scan p k)) ps keypad_init"
  have inv: "keypad_inv ?k" by (rule kp.inv_run [OF keypad_inv_init])
  have "unat (kp_row ?k) = length ps mod 4"
    using kp_run_row [OF keypad_inv_init, of ps] by (simp add: row_at_def keypad_init_def)
  then show ?thesis
    using inv scan_fired [OF inv, of pind] by (auto simp: Let_def keypad_inv_def)
qed

text \<open>
  C17. One report per press. When two scans of a run report the same character, they are at least
  260 scans (65 turns of the matrix) apart, the character belongs to one key, and some scan of that
  key's row between the two saw the key released.
\<close>

theorem keypad_one_report_per_press:
  assumes "t1 < t2" "t2 < length ps" "kp_trace ps keypad_init ! t1 = c" "kp_trace ps keypad_init ! t2 = c"
    "c \<noteq> 0"
  shows "260 \<le> t2 - t1 \<and>
    (\<exists>r<4. \<exists>i<4. c = ch (lookup ! (r * 4 + i)) \<and>
       (\<exists>t. t1 < t \<and> t < t2 \<and> t mod 4 = r \<and> \<not> pressed (ps ! t) i))"
proof -
  let ?run = "\<lambda>ps. run (\<lambda>p k. snd (keypad_scan p k)) ps keypad_init"
  let ?k = "?run (take t1 ps)" and ?k' = "?run (take (Suc t1) ps)"
  have t1: "t1 < length ps" using assms(1,2) by simp
  obtain i where i: "i < 4" "c = ch (lookup ! (row_at keypad_init t1 * 4 + i))" "newly (ps ! t1) ?k i"
    using kp_trace_report [OF keypad_inv_init t1] assms(3,5) by metis
  define r where "r = t1 mod 4"
  have r: "row_at keypad_init t = t mod 4" for t by (simp add: row_at_def keypad_init_def)
  have r4: "r < 4" by (simp add: r_def)
  have inv: "keypad_inv ?k" "keypad_inv ?k'" by (rule kp.inv_run [OF keypad_inv_init])+
  have row: "unat (kp_row ?k) = r" "unat (kp_row ?k') = Suc t1 mod 4"
    using kp_run_row [OF keypad_inv_init] r t1 Suc_leI [OF t1] by (simp_all add: r_def min_absorb2)
  have "?k' = snd (keypad_scan (ps ! t1) ?k)"
    using t1 by (simp add: take_Suc_conv_app_nth)
  then have st: "debouncing ?k' ! r ! i = 0x40"
    using i(3) row(1) by (simp add: keypad_scan_debouncing [OF inv(1) r4 i(1)] newly_def debounce_next)
  have "kp_trace (take (Suc t1) ps @ drop (Suc t1) ps) keypad_init ! t2
      = kp_trace (drop (Suc t1) ps) ?k' ! (t2 - Suc t1)"
    using assms(1) t1 by (simp only: kp_trace_append) (simp add: nth_append)
  then have "kp_trace (drop (Suc t1) ps) ?k' ! (t2 - Suc t1) = ch (lookup ! (r * 4 + i))"
    using assms(4) i(2) r by (simp add: r_def)
  from key_quiet [OF inv(2) r4 i(1) _ this] assms(1,2) st
  have *: "(r + 4 - unat (kp_row ?k')) mod 4 + 256 \<le> t2 - Suc t1"
    and "\<exists>n<t2 - Suc t1. row_at ?k' n = r \<and> \<not> pressed (drop (Suc t1) ps ! n) i"
    by auto
  then obtain n where n: "n < t2 - Suc t1" "row_at ?k' n = r" "\<not> pressed (ps ! (Suc t1 + n)) i"
    using assms(2) by auto
  have "(r + 4 - unat (kp_row ?k')) mod 4 = 3"
    using turn_dist(1) [OF r4 r4] by (simp add: row(2) r_def mod_Suc_eq)
  moreover have "(Suc t1 + n) mod 4 = r"
    using n(2) by (simp add: row_at_def row(2) mod_simps)
  ultimately show ?thesis
    using * n assms(1) i(1,2) r4 r
    by (intro conjI exI [of _ r] exI [of _ i] exI [of _ "Suc t1 + n"]) (auto simp: r_def)
qed

text \<open>
  The hypotheses hold in a run: the key of row 0 and column 0 is pressed at scan 0, released at
  scans 1 to 259 and pressed again at scan 260.
\<close>

theorem keypad_one_report_per_press_witness:
  "let ps = 0xFE # replicate 259 0xFF @ [0xFE] in
   kp_trace ps keypad_init ! 0 = ch (CHR ''2'') \<and> kp_trace ps keypad_init ! 260 = ch (CHR ''2'') \<and>
   260 \<le> (260 :: nat) - 0 \<and>
   (\<exists>r<4. \<exists>i<4. ch (CHR ''2'') = ch (lookup ! (r * 4 + i)) \<and>
       (\<exists>t. 0 < t \<and> t < 260 \<and> t mod 4 = r \<and> \<not> pressed (ps ! t) i))"
proof -
  let ?ps = "0xFE # replicate 259 0xFF @ [0xFE :: u8]"
  have *: "kp_trace ?ps keypad_init ! 0 = ch (CHR ''2'')" "kp_trace ?ps keypad_init ! 260 = ch (CHR ''2'')"
    by code_simp+
  have "ch (CHR ''2'') \<noteq> 0" by (simp add: ch_def)
  from keypad_one_report_per_press [OF _ _ * this] * show ?thesis
    by (simp add: Let_def)
qed

end
