(* ===== verification/Dial.thy ===== *)
theory Dial
  imports Debounce Cylinder
begin

section \<open>The rotary dial and the hook switch of dial.c\<close>

text \<open>
  \<^verbatim>\<open>dial_scan\<close> debounces three contacts of port C: the impulse contact (each impulse counts one), the
  dial contact (its activation ends a digit) and the hook switch (both edges are reported). The
  \<^verbatim>\<open>static\<close> variables are the record \<open>dial\<close>. \<^verbatim>\<open>PINC\<close> is volatile and read up to three times in a
  scan, so a scan takes the three values \<open>(imp, dia, hook)\<close> those reads give.
\<close>

record dial =
  dial_counter :: u8
  state_impulse :: u8
  state_dialing :: u8
  state_hangup :: u8

definition dial_init :: dial where
  "dial_init = \<lparr>dial_counter = 0, state_impulse = 0, state_dialing = 0, state_hangup = 0\<rparr>"

definition IMPULSE_PIN :: nat where "IMPULSE_PIN = 6"
definition HANGUP_PIN :: nat where "HANGUP_PIN = 5"
definition DIAL_PIN :: nat where "DIAL_PIN = 4"

definition dial_setup :: "'a mcu_scheme \<Rightarrow> 'a mcu_scheme" where
  "dial_setup m =
     (let m = m\<lparr>PORTC := sbi IMPULSE_PIN (PORTC m)\<rparr>;
          m = m\<lparr>PORTC := sbi DIAL_PIN (PORTC m)\<rparr>
      in m\<lparr>PORTC := sbi HANGUP_PIN (PORTC m)\<rparr>)"

text \<open>The three blocks of \<^verbatim>\<open>dial_scan\<close>; \<open>rv\<close> is the local variable of that name.\<close>

definition scan_impulse :: "u8 \<Rightarrow> dial \<Rightarrow> dial" where
  "scan_impulse pinc d =
     (if state_impulse d \<le> 1 then
        (if pinc AND push_bit IMPULSE_PIN 1 \<noteq> 0 then
           (if state_impulse d = 0 then d\<lparr>state_impulse := 0x40, dial_counter := dial_counter d + 1\<rparr> else d)
         else d\<lparr>state_impulse := 0\<rparr>)
      else d\<lparr>state_impulse := state_impulse d - 1\<rparr>)"

definition scan_dialing :: "u8 \<Rightarrow> u8 \<times> dial \<Rightarrow> u8 \<times> dial" where
  "scan_dialing pinc = (\<lambda>(rv, d).
     if state_dialing d \<le> 1 then
       (if pinc AND push_bit DIAL_PIN 1 \<noteq> 0 then
          (if state_dialing d = 0 then
             (let d = d\<lparr>state_dialing := 0x80\<rparr>;
                  d = (if dial_counter d \<ge> 10 then d\<lparr>dial_counter := 0\<rparr> else d)
              in (ch (CHR ''0'') + dial_counter d, d\<lparr>dial_counter := 0\<rparr>))
           else (rv, d))
        else (rv, d\<lparr>state_dialing := 0\<rparr>))
     else (rv, d\<lparr>state_dialing := state_dialing d - 1\<rparr>))"

definition scan_hangup :: "u8 \<Rightarrow> u8 \<times> dial \<Rightarrow> u8 \<times> dial" where
  "scan_hangup pinc = (\<lambda>(rv, d).
     if state_hangup d \<le> 2 then
       (if pinc AND push_bit HANGUP_PIN 1 \<noteq> 0 then
          (if state_hangup d = 0 then (ch (CHR ''H''), d\<lparr>state_hangup := 0xFF\<rparr>)
           else (rv, d\<lparr>state_hangup := 1\<rparr>))
        else
          (if state_hangup d = 1 then (ch (CHR ''h''), d\<lparr>state_hangup := 0xFF\<rparr>)
           else (rv, d\<lparr>state_hangup := 0\<rparr>)))
     else (rv, d\<lparr>state_hangup := state_hangup d - 1\<rparr>))"

definition dial_scan :: "u8 \<times> u8 \<times> u8 \<Rightarrow> dial \<Rightarrow> u8 \<times> dial" where
  "dial_scan = (\<lambda>(imp, dia, hook) d. scan_hangup hook (scan_dialing dia (0, scan_impulse imp d)))"

interpretation imp: debouncer "0x40"
  by unfold_locales simp

interpretation dia: debouncer "0x80"
  by unfold_locales simp

subsection \<open>Reference definitions\<close>

text \<open>
  The hook switch as a machine of its own (its event, if any, and its next state), and the digit
  that a count of impulses stands for.
\<close>

definition hook_step :: "bool \<Rightarrow> u8 \<Rightarrow> u8 option \<times> u8" where
  "hook_step up st =
     (if st = 0 then (if up then (Some (ch (CHR ''H'')), 0xFF) else (None, 0))
      else if st = 1 then (if up then (None, 1) else (Some (ch (CHR ''h'')), 0xFF))
      else if st = 2 then (None, if up then 1 else 0)
      else (None, st - 1))"

definition digit :: "u8 \<Rightarrow> u8" where
  "digit n = (if n \<ge> 10 then ch (CHR ''0'') else ch (CHR ''0'') + n)"

fun hook_trace :: "bool list \<Rightarrow> u8 \<Rightarrow> u8 option list" where
  "hook_trace [] st = []"
| "hook_trace (u # us) st = fst (hook_step u st) # hook_trace us (snd (hook_step u st))"

fun hook_state :: "bool list \<Rightarrow> u8 \<Rightarrow> u8" where
  "hook_state [] st = st"
| "hook_state (u # us) st = hook_state us (snd (hook_step u st))"

lemma u8_le_2: "(st :: u8) \<le> 2 \<longleftrightarrow> st = 0 \<or> st = 1 \<or> st = 2"
  by unat_arith

lemma scan_impulse_eq:
  "scan_impulse pinc d =
     (let i = debounce 0x40 (bit pinc IMPULSE_PIN) (state_impulse d)
      in d\<lparr>state_impulse := snd i, dial_counter := if fst i then dial_counter d + 1 else dial_counter d\<rparr>)"
  by (cases d) (simp add: scan_impulse_def debounce_def Let_def and_exp_eq_0_iff_not_bit)

lemma scan_dialing_eq:
  "scan_dialing pinc (rv, d) =
     (let e = debounce 0x80 (bit pinc DIAL_PIN) (state_dialing d)
      in (if fst e then digit (dial_counter d) else rv,
          d\<lparr>state_dialing := snd e, dial_counter := if fst e then 0 else dial_counter d\<rparr>))"
  by (cases d) (simp add: scan_dialing_def debounce_def Let_def and_exp_eq_0_iff_not_bit digit_def)

lemma scan_hangup_eq:
  "scan_hangup pinc (rv, d) =
     (let h = hook_step (bit pinc HANGUP_PIN) (state_hangup d)
      in (case fst h of Some x \<Rightarrow> x | None \<Rightarrow> rv, d\<lparr>state_hangup := snd h\<rparr>))"
  by (cases d) (simp add: scan_hangup_def hook_step_def Let_def and_exp_eq_0_iff_not_bit u8_le_2)

lemma dial_scan_eq:
  "dial_scan (imp, dia, hook) d =
     (let i = debounce 0x40 (bit imp IMPULSE_PIN) (state_impulse d);
          c = (if fst i then dial_counter d + 1 else dial_counter d);
          e = debounce 0x80 (bit dia DIAL_PIN) (state_dialing d);
          h = hook_step (bit hook HANGUP_PIN) (state_hangup d)
      in (case fst h of Some x \<Rightarrow> x | None \<Rightarrow> if fst e then digit c else 0,
          d\<lparr>dial_counter := if fst e then 0 else c, state_impulse := snd i,
            state_dialing := snd e, state_hangup := snd h\<rparr>))"
  by (simp add: dial_scan_def scan_impulse_eq scan_dialing_eq scan_hangup_eq Let_def split: option.split)

type_synonym dial_sample = "u8 \<times> u8 \<times> u8"

definition imps :: "dial_sample list \<Rightarrow> bool list" where
  "imps ss = map (\<lambda>(imp, dia, hook). bit imp IMPULSE_PIN) ss"

definition dials :: "dial_sample list \<Rightarrow> bool list" where
  "dials ss = map (\<lambda>(imp, dia, hook). bit dia DIAL_PIN) ss"

definition hooks :: "dial_sample list \<Rightarrow> bool list" where
  "hooks ss = map (\<lambda>(imp, dia, hook). bit hook HANGUP_PIN) ss"

abbreviation dial_run :: "dial_sample list \<Rightarrow> dial \<Rightarrow> dial" where
  "dial_run \<equiv> run (\<lambda>s d. snd (dial_scan s d))"

fun dial_trace :: "dial_sample list \<Rightarrow> dial \<Rightarrow> u8 list" where
  "dial_trace [] d = []"
| "dial_trace (s # ss) d = fst (dial_scan s d) # dial_trace ss (snd (dial_scan s d))"

definition impulse_events :: "dial_sample list \<Rightarrow> bool list" where
  "impulse_events ss = deb_trace 0x40 (imps ss) 0"

definition digit_events :: "dial_sample list \<Rightarrow> bool list" where
  "digit_events ss = deb_trace 0x80 (dials ss) 0"

definition hook_events :: "dial_sample list \<Rightarrow> u8 option list" where
  "hook_events ss = hook_trace (hooks ss) 0"

subsection \<open>Lemmas: a run of the scanner is a run of its three contacts\<close>

lemma samples_simps [simp]:
  "imps [] = []" "imps ((i, e, h) # ss) = bit i IMPULSE_PIN # imps ss"
  "dials [] = []" "dials ((i, e, h) # ss) = bit e DIAL_PIN # dials ss"
  "hooks [] = []" "hooks ((i, e, h) # ss) = bit h HANGUP_PIN # hooks ss"
  "imps (ss @ ts) = imps ss @ imps ts" "dials (ss @ ts) = dials ss @ dials ts"
  "length (imps ss) = length ss" "length (dials ss) = length ss" "length (hooks ss) = length ss"
  by (simp_all add: imps_def dials_def hooks_def)

lemma dial_run_states:
  "state_impulse (dial_run ss d) = deb_state 0x40 (imps ss) (state_impulse d)"
  "state_dialing (dial_run ss d) = deb_state 0x80 (dials ss) (state_dialing d)"
  "state_hangup (dial_run ss d) = hook_state (hooks ss) (state_hangup d)"
  by (induction ss arbitrary: d) (auto simp: dial_scan_eq Let_def)

lemma dial_trace_nth: "t < length ss \<Longrightarrow> dial_trace ss d ! t = fst (dial_scan (ss ! t) (dial_run (take t ss) d))"
  by (induction ss arbitrary: d t) (auto simp: nth_Cons split: nat.splits)

lemma length_dial_trace [simp]: "length (dial_trace ss d) = length ss"
  by (induction ss arbitrary: d) simp_all

lemma hook_trace_nth:
  "t < length us \<Longrightarrow> hook_trace us st ! t = fst (hook_step (us ! t) (hook_state (take t us) st))"
  by (induction us arbitrary: st t) (auto simp: nth_Cons split: nat.splits)

lemma take_samples:
  "imps (take n ss) = take n (imps ss)" "dials (take n ss) = take n (dials ss)" "hooks (take n ss) = take n (hooks ss)"
  by (simp_all add: imps_def dials_def hooks_def take_map)

lemma nth_samples:
  "t < length ss \<Longrightarrow> ss ! t = (i, e, h) \<Longrightarrow>
     imps ss ! t = bit i IMPULSE_PIN \<and> dials ss ! t = bit e DIAL_PIN \<and> hooks ss ! t = bit h HANGUP_PIN"
  by (simp add: imps_def dials_def hooks_def)

text \<open>What a scan of a run from the initial state returns, in terms of the events of the contacts.\<close>

lemma dial_scan_events:
  assumes "t < length ss"
  defines "d \<equiv> dial_run (take t ss) dial_init"
  defines "c \<equiv> (if impulse_events ss ! t then dial_counter d + 1 else dial_counter d)"
  shows "fst (dial_scan (ss ! t) d) =
      (case hook_events ss ! t of Some x \<Rightarrow> x | None \<Rightarrow> if digit_events ss ! t then digit c else 0)"
    "dial_counter (snd (dial_scan (ss ! t) d)) = (if digit_events ss ! t then 0 else c)"
proof -
  obtain i e h where s: "ss ! t = (i, e, h)" by (cases "ss ! t")
  have st: "state_impulse d = deb_state 0x40 (take t (imps ss)) 0"
    "state_dialing d = deb_state 0x80 (take t (dials ss)) 0"
    "state_hangup d = hook_state (take t (hooks ss)) 0"
    by (simp_all add: d_def dial_run_states take_samples dial_init_def)
  note ev = impulse_events_def digit_events_def hook_events_def deb_trace_nth_state hook_trace_nth
  show "fst (dial_scan (ss ! t) d) =
      (case hook_events ss ! t of Some x \<Rightarrow> x | None \<Rightarrow> if digit_events ss ! t then digit c else 0)"
    using assms(1) nth_samples [OF assms(1) s]
    by (auto simp: s dial_scan_eq Let_def st ev c_def split: option.split)
  show "dial_counter (snd (dial_scan (ss ! t) d)) = (if digit_events ss ! t then 0 else c)"
    using assms(1) nth_samples [OF assms(1) s]
    by (auto simp: s dial_scan_eq Let_def st ev c_def split: option.split)
qed

text \<open>The counter holds the impulses since the last digit, modulo 256.\<close>

lemma dial_counter_run:
  assumes "t \<le> length ss" "s \<le> t" "s = 0 \<or> digit_events ss ! (s - 1)"
    "\<And>u. s \<le> u \<Longrightarrow> u < t \<Longrightarrow> \<not> digit_events ss ! u"
  shows "dial_counter (dial_run (take t ss) dial_init) = of_nat (card {u. s \<le> u \<and> u < t \<and> impulse_events ss ! u})"
  using assms(1,2,4)
proof (induction "t - s" arbitrary: t)
  case 0
  then have ts: "t = s" by simp
  show ?case
  proof (cases s)
    case 0
    then show ?thesis using ts by (simp add: dial_init_def)
  next
    case (Suc s')
    then have "s' < length ss" using ts 0 by simp
    moreover have "{u. Suc s' \<le> u \<and> u < Suc s' \<and> impulse_events ss ! u} = {}" by auto
    ultimately show ?thesis
      using dial_scan_events(2) [of s' ss] assms(3) Suc ts
      by (simp only: take_Suc_conv_app_nth) simp
  qed
next
  case (Suc n)
  then obtain t' where t': "t = Suc t'" "s \<le> t'" "t' < length ss" by (cases t) auto
  have IH: "dial_counter (dial_run (take t' ss) dial_init) = of_nat (card {u. s \<le> u \<and> u < t' \<and> impulse_events ss ! u})"
    using Suc t' by (intro Suc.hyps) auto
  have set: "{u. s \<le> u \<and> u < t \<and> impulse_events ss ! u} =
      (if impulse_events ss ! t' then insert t' {u. s \<le> u \<and> u < t' \<and> impulse_events ss ! u}
       else {u. s \<le> u \<and> u < t' \<and> impulse_events ss ! u})"
    using t' by (auto simp: less_Suc_eq)
  have "\<not> digit_events ss ! t'" using Suc.prems t' by simp
  then show ?case
    using dial_scan_events(2) [OF t'(3)] IH unfolding set
    by (simp add: t' take_Suc_conv_app_nth)
qed

subsection \<open>Lemmas: the hook switch\<close>

lemma hook_step_quiet:
  "fst (hook_step u st) \<noteq> None \<longleftrightarrow> st = 0 \<and> u \<or> st = 1 \<and> \<not> u"
  by (simp add: hook_step_def)

lemma hook_fired: "fst (hook_step u st) \<noteq> None \<Longrightarrow> snd (hook_step u st) = 0xFF"
  by (auto simp: hook_step_def split: if_splits)

text \<open>While the state counts down from above 2, nothing is reported.\<close>

lemma hook_wait:
  "t < length us \<Longrightarrow> hook_trace us st ! t \<noteq> None \<Longrightarrow> 2 \<le> unat st \<Longrightarrow> unat st \<le> Suc t"
proof (induction us arbitrary: st t)
  case (Cons u us)
  have "st \<noteq> 0" "st \<noteq> 1" using Cons.prems(3) by auto
  then obtain t' where t: "t = Suc t'"
    using Cons.prems(2) by (cases t) (auto simp: hook_step_def split: if_splits)
  show ?case
  proof (cases "st = 2")
    case False
    then have "snd (hook_step u st) = st - 1" "unat (st - 1) = unat st - 1"
      using \<open>st \<noteq> 0\<close> \<open>st \<noteq> 1\<close> unat_pred by (auto simp: hook_step_def)
    moreover have "unat st \<noteq> 2" using False by unat_arith
    ultimately show ?thesis using Cons t by fastforce
  qed (simp add: t)
qed simp

lemma hook_countdown:
  "length us < unat st - 1 \<Longrightarrow> hook_state us st = st - of_nat (length us)
     \<and> hook_trace us st = replicate (length us) None"
proof (induction us arbitrary: st)
  case (Cons u us)
  have "2 < unat st" using Cons.prems by simp
  then have "st \<noteq> 0" "st \<noteq> 1" "st \<noteq> 2" by auto
  then have "hook_step u st = (None, st - 1)" "unat (st - 1) = unat st - 1"
    using unat_pred by (auto simp: hook_step_def)
  with Cons.IH [of "st - 1"] Cons.prems show ?case by (simp add: algebra_simps)
qed simp

lemma hook_append:
  "hook_trace (us @ vs) st = hook_trace us st @ hook_trace vs (hook_state us st)"
  "hook_state (us @ vs) st = hook_state vs (hook_state us st)"
  by (induction us arbitrary: st) simp_all

lemma length_hook_trace [simp]: "length (hook_trace us st) = length us"
  by (induction us arbitrary: st) simp_all

lemma hook_rest:
  "hook_trace (replicate n u) (if u then 1 else 0) = replicate n None"
  "hook_state (replicate n u) (if u then 1 else 0) = (if u then 1 else 0)"
  by (induction n) (auto simp: hook_step_def)

text \<open>A closed contact is never reported as closing unless the open level was at rest before.\<close>

lemma hook_closed: "st \<noteq> 1 \<Longrightarrow> hook_trace (replicate n False) st = replicate n None"
proof (induction n arbitrary: st)
  case (Suc n)
  have "st - 1 \<noteq> 1" if "st \<noteq> 2" using that by (simp add: diff_eq_eq)
  then have "snd (hook_step False st) \<noteq> 1" "fst (hook_step False st) = None"
    using Suc.prems by (auto simp: hook_step_def)
  then show ?case using Suc.IH by simp
qed simp

text \<open>After an event, a level held for 254 scans brings the switch to rest at that level, silently.\<close>

lemma hook_settle:
  assumes "254 \<le> n"
  shows "hook_trace (replicate n u) 0xFF = replicate n None \<and> hook_state (replicate n u) 0xFF = (if u then 1 else 0)"
proof -
  have n: "replicate n u = replicate 253 u @ u # replicate (n - 254) u"
    using assms replicate_add [of 253 "Suc (n - 254)" u] by simp
  have c: "hook_state (replicate 253 u) 0xFF = 2" "hook_trace (replicate 253 u) 0xFF = replicate 253 None"
    using hook_countdown [of "replicate 253 u" "0xFF"] by simp_all
  have "hook_trace (replicate n u) 0xFF = replicate 253 None @ None # replicate (n - 254) None"
    unfolding n hook_append(1) c using hook_rest(1) [of "n - 254" u] by (simp add: hook_step_def)
  moreover have "\<dots> = replicate n (None :: u8 option)"
    using assms replicate_add [of 253 "Suc (n - 254)" "None :: u8 option"] by simp
  moreover have "hook_state (replicate n u) 0xFF = (if u then 1 else 0)"
    unfolding n hook_append(2) c using hook_rest(2) [of "n - 254" u] by (simp add: hook_step_def)
  ultimately show ?thesis by simp
qed

text \<open>A switch that is moved, each level held for a number of scans, and the reports that stand for it.\<close>

fun hook_levels :: "bool \<Rightarrow> nat list \<Rightarrow> bool list" where
  "hook_levels u [] = []"
| "hook_levels u (n # ns) = replicate n u @ hook_levels (\<not> u) ns"

fun hook_reports :: "bool \<Rightarrow> nat list \<Rightarrow> u8 option list" where
  "hook_reports u [] = []"
| "hook_reports u (n # ns) =
     Some (if u then ch (CHR ''H'') else ch (CHR ''h'')) # replicate (n - 1) None @ hook_reports (\<not> u) ns"

lemma hook_levels_reported:
  "\<forall>n\<in>set ns. 255 \<le> n \<Longrightarrow> hook_trace (hook_levels u ns) (if u then 0 else 1) = hook_reports u ns"
proof (induction ns arbitrary: u)
  case (Cons n ns)
  then obtain m where n: "n = Suc m" "254 \<le> m" by (cases n) auto
  have step: "hook_step u (if u then 0 else 1) = (Some (if u then ch (CHR ''H'') else ch (CHR ''h'')), 0xFF)"
    by (simp add: hook_step_def)
  have "hook_trace (hook_levels (\<not> u) ns) (if u then 1 else 0) = hook_reports (\<not> u) ns"
    using Cons.IH [of "\<not> u"] Cons.prems by (simp add: if_not_P split: if_splits)
  then show ?case
    by (simp add: n step hook_append hook_settle [OF n(2)])
qed simp

subsection \<open>Properties\<close>

text \<open>
  C18. Digits. Let the dial contact be activated at scan \<open>t\<close> of a run, and let \<open>s\<close> be the scan after
  its activation before that (0 when there was none). Unless the hook switch reports at scan \<open>t\<close> too,
  the scan returns the digit of the number of impulses seen from \<open>s\<close> to \<open>t\<close>: the character of that
  number up to 9, and the character 0 from 10 on, the number taken modulo 256; two impulses are more
  than 64 scans apart.
\<close>

theorem dial_scan_digit:
  assumes "t < length ss" "s \<le> t" "s = 0 \<or> digit_events ss ! (s - 1)"
    "\<forall>u. s \<le> u \<and> u < t \<longrightarrow> \<not> digit_events ss ! u" "digit_events ss ! t" "hook_events ss ! t = None"
  shows "dial_trace ss dial_init ! t =
      digit (of_nat (card {u. s \<le> u \<and> u \<le> t \<and> impulse_events ss ! u}))
    \<and> (\<forall>u v. u < v \<and> v \<le> t \<and> impulse_events ss ! u \<and> impulse_events ss ! v \<longrightarrow> 64 < v - u)"
proof -
  let ?n = "\<lambda>t. {u. s \<le> u \<and> u < t \<and> impulse_events ss ! u}"
  have "{u. s \<le> u \<and> u \<le> t \<and> impulse_events ss ! u} =
      (if impulse_events ss ! t then insert t (?n t) else ?n t)"
    using assms(2) by (auto simp: le_less)
  moreover have "dial_counter (dial_run (take t ss) dial_init) = of_nat (card (?n t))"
    using assms by (intro dial_counter_run) auto
  ultimately have "dial_trace ss dial_init ! t =
      digit (of_nat (card {u. s \<le> u \<and> u \<le> t \<and> impulse_events ss ! u}))"
    using dial_scan_events(1) [OF assms(1)] assms(5,6) by (simp add: dial_trace_nth [OF assms(1)] add.commute)
  moreover have "64 < v - u"
    if "u < v" "v \<le> t" "impulse_events ss ! u" "impulse_events ss ! v" for u v
    using imp.separated [of u v "imps ss" 0] that assms(1) by (simp add: impulse_events_def)
  ultimately show ?thesis by blast
qed

text \<open>One impulse and the end of the dial movement: the digit is 1.\<close>

theorem dial_scan_digit_witness:
  "dial_trace [(0x40, 0, 0), (0, 0x10, 0)] dial_init ! 1 = ch (CHR ''1'')"
proof -
  let ?ss = "[(0x40, 0, 0), (0, 0x10, 0)] :: dial_sample list"
  have ev: "digit_events ?ss = [False, True]" "impulse_events ?ss = [True, False]" "hook_events ?ss = [None, None]"
    by code_simp+
  have none: "\<forall>u. 0 \<le> u \<and> u < 1 \<longrightarrow> \<not> digit_events ?ss ! u" by (simp add: ev)
  have "{u. 0 \<le> u \<and> u \<le> (1 :: nat) \<and> impulse_events ?ss ! u} = {0}"
    unfolding ev by (auto simp: le_Suc_eq)
  moreover have "digit 1 = ch (CHR ''1'')" by code_simp
  ultimately show ?thesis
    using dial_scan_digit [of 1 ?ss 0, OF _ _ _ none] by (simp add: ev)
qed




end
