(* ===== verification/Lock_Control.thy ===== *)
theory Lock_Control
  imports Cylinder
begin

section \<open>The lock controllers of locc.c\<close>

text \<open>
  \<^verbatim>\<open>locc.c\<close> holds two controllers over one timer. The older one is the state machine \<^verbatim>\<open>state\<close>,
  driven by \<^verbatim>\<open>loccStartOpening\<close> and \<^verbatim>\<open>loccPoll\<close>; the one the main loop uses is the sequence
  \<^verbatim>\<open>current_locc_step\<close>, driven by \<^verbatim>\<open>start_locking\<close> and \<^verbatim>\<open>do_next_locc_step\<close>. The timer is
  \<^verbatim>\<open>wait_ticks\<close>, decremented by the timer interrupt once a millisecond.

  A call of \<^verbatim>\<open>usb_putc\<close> changes nothing of this component; an operation returns the list of the
  characters it passes to \<^verbatim>\<open>usb_putc\<close>, in order, beside its new state. The enumeration value is
  stored in a byte, so \<^verbatim>\<open>++state\<close> can leave the enumerators: \<open>Beyond\<close> holds those values.
\<close>

datatype locc_states = SLEEP | POWERUP | AWAKEN | OPEN | POWERDOWN | RESET | Beyond u8

record locc = mcu +
  wait_ticks :: u32
  locc_state :: locc_states
  current_locc_step :: u16

fun enum_succ :: "locc_states \<Rightarrow> locc_states" where
  "enum_succ SLEEP = POWERUP"
| "enum_succ POWERUP = AWAKEN"
| "enum_succ AWAKEN = OPEN"
| "enum_succ OPEN = POWERDOWN"
| "enum_succ POWERDOWN = RESET"
| "enum_succ RESET = Beyond 6"
| "enum_succ (Beyond n) = (if n = 0xFF then SLEEP else Beyond (n + 1))"

subsection \<open>The state machine\<close>

function state_machine :: "u16 \<Rightarrow> locc_states \<Rightarrow> 'a locc_scheme \<Rightarrow> u8 list \<times> 'a locc_scheme" where
  "state_machine past new_state s =
     (let s = s\<lparr>locc_state := new_state\<rparr> in
      case new_state of
        SLEEP \<Rightarrow> ([ch (CHR ''['')], s\<lparr>wait_ticks := 0\<rparr>)
      | POWERUP \<Rightarrow> ([ch (CHR '']'')], (powerup_locc s)\<lparr>wait_ticks := 50\<rparr>)
      | AWAKEN \<Rightarrow> ([ch (CHR ''{'')], (wakeup_locc s)\<lparr>wait_ticks := 59\<rparr>)
      | OPEN \<Rightarrow> ([ch (CHR ''}'')], (open_locc past s)\<lparr>wait_ticks := 10000\<rparr>)
      | POWERDOWN \<Rightarrow> ([ch (CHR 0x22)], (powerdown_locc s)\<lparr>wait_ticks := 2\<rparr>)
      | RESET \<Rightarrow> state_machine past SLEEP s
      | Beyond n \<Rightarrow> ([], s))"
  by pat_completeness auto
termination
  by (relation "measure (\<lambda>(past, new_state, s). if new_state = RESET then 1 else 0)") auto

declare state_machine.simps [simp del]

definition loccStartOpening :: "u16 \<Rightarrow> 'a locc_scheme \<Rightarrow> u8 list \<times> 'a locc_scheme" where
  "loccStartOpening past s =
     (if locc_state s = SLEEP then
        (let (out, s) = state_machine past POWERUP s in (ch (CHR ''|'') # out, s))
      else ([], s))"

definition loccPoll :: "u16 \<Rightarrow> 'a locc_scheme \<Rightarrow> u8 list \<times> 'a locc_scheme" where
  "loccPoll past s =
     (let out = [ch (CHR ''>'')] in
      if locc_state s \<noteq> SLEEP \<and> wait_ticks s = 0 then
        (let s = s\<lparr>locc_state := enum_succ (locc_state s)\<rparr>;
             (out', s) = state_machine past (locc_state s) s
         in (out @ out', s))
      else (out, s))"

definition loccPowerDown :: "'a locc_scheme \<Rightarrow> 'a locc_scheme" where
  "loccPowerDown s = powerdown_locc s"

definition loccPowerUp :: "'a locc_scheme \<Rightarrow> 'a locc_scheme" where
  "loccPowerUp s = powerup_locc s"

subsection \<open>The locking sequence\<close>

definition timer_is_expired :: "'a locc_scheme \<Rightarrow> bool" where
  "timer_is_expired s = (if wait_ticks s > 0 then False else True)"

definition set_wait_time :: "u32 \<Rightarrow> 'a locc_scheme \<Rightarrow> 'a locc_scheme" where
  "set_wait_time millis s = s\<lparr>wait_ticks := millis\<rparr>"

definition start_locking :: "'a locc_scheme \<Rightarrow> 'a locc_scheme" where
  "start_locking s = s\<lparr>current_locc_step := 1\<rparr>"

text \<open>The switch of \<^verbatim>\<open>do_locc_step\<close> is over the global, not over the parameter \<^verbatim>\<open>step\<close>.\<close>

definition do_locc_step :: "u16 \<Rightarrow> u16 \<Rightarrow> 'a locc_scheme \<Rightarrow> 'a locc_scheme" where
  "do_locc_step past step s =
     (if current_locc_step s = 0 then
        (let s = set_wait_time 0 s in s\<lparr>current_locc_step := 1\<rparr>)
      else if current_locc_step s = 1 then
        (let s = wakeup_locc s; s = s\<lparr>current_locc_step := 2\<rparr> in set_wait_time 59 s)
      else if current_locc_step s = 2 then
        (let s = open_locc past s; s = set_wait_time 15000 s in s\<lparr>current_locc_step := 3\<rparr>)
      else if current_locc_step s = 3 then
        (let s = powerdown_locc s; s = set_wait_time 5000 s in s\<lparr>current_locc_step := 4\<rparr>)
      else if current_locc_step s = 4 then
        (let s = powerup_locc s; s = set_wait_time 5000 s in s\<lparr>current_locc_step := 0\<rparr>)
      else s)"

definition do_next_locc_step :: "u16 \<Rightarrow> 'a locc_scheme \<Rightarrow> u8 list \<times> bool \<times> 'a locc_scheme" where
  "do_next_locc_step past s =
     (let s = (if timer_is_expired s then do_locc_step past (current_locc_step s) s else s)
      in if current_locc_step s > 0 then ([], True, s) else ([ch (CHR ''.'')], False, s))"

subsection \<open>Set-up and the timer interrupt\<close>

definition loccSetup :: "'a mcu_scheme \<Rightarrow> 'a mcu_scheme" where
  "loccSetup m =
     (let m = m\<lparr>DDRD := cbi CYLINDER_IO_PIN (DDRD m)\<rparr>;
          m = m\<lparr>PORTD := sbi CYLINDER_IO_PIN (PORTD m)\<rparr>;
          m = m\<lparr>DDRD := sbi CYLINDER_VCC_PIN (DDRD m)\<rparr>;
          m = m\<lparr>PORTD := cbi CYLINDER_VCC_PIN (PORTD m)\<rparr>;
          m = m\<lparr>TIMSK0 := TIMSK0 m OR push_bit 0 1\<rparr>;
          m = m\<lparr>TCCR0B := 0x03\<rparr>;
          m = m\<lparr>TCNT0 := 0x06\<rparr>
      in powerup_locc m)"

definition TIMER0_OVF_vect :: "'a locc_scheme \<Rightarrow> 'a locc_scheme" where
  "TIMER0_OVF_vect s =
     (let s = s\<lparr>TCNT0 := 0x06\<rparr>
      in if wait_ticks s > 0 then s\<lparr>wait_ticks := wait_ticks s - 1\<rparr> else s)"

text \<open>The initial values: cleared registers and the initialisers of the globals.\<close>

definition locc_init :: locc where
  "locc_init = \<lparr>DDRB = 0, DDRD = 0, PORTC = 0, PORTD = 0, MCUSR = 0, SPCR = 0, SPDR = 0,
     TIMSK0 = 0, TCCR0B = 0, TCNT0 = 0, wave = [],
     wait_ticks = 0, locc_state = SLEEP, current_locc_step = 0\<rparr>"

subsection \<open>Events and invariants of the state machine\<close>

definition powered :: "'a mcu_scheme \<Rightarrow> bool" where
  "powered m \<longleftrightarrow> bit (PORTD m) CYLINDER_VCC_PIN \<and> io_level m = HIGH"

definition unpowered :: "'a mcu_scheme \<Rightarrow> bool" where
  "unpowered m \<longleftrightarrow> \<not> bit (PORTD m) CYLINDER_VCC_PIN \<and> io_level m = LOW"

datatype sm_event = Sm_Start | Sm_Poll | Sm_Tick

fun sm_step :: "u16 \<Rightarrow> sm_event \<Rightarrow> 'a locc_scheme \<Rightarrow> 'a locc_scheme" where
  "sm_step past Sm_Start s = snd (loccStartOpening past s)"
| "sm_step past Sm_Poll s = snd (loccPoll past s)"
| "sm_step past Sm_Tick s = TIMER0_OVF_vect s"

definition sm_inv :: "'a locc_scheme \<Rightarrow> bool" where
  "sm_inv s =
     (case locc_state s of
        SLEEP \<Rightarrow> wait_ticks s = 0
      | POWERUP \<Rightarrow> wait_ticks s \<le> 50 \<and> powered s
      | AWAKEN \<Rightarrow> wait_ticks s \<le> 59 \<and> powered s
      | OPEN \<Rightarrow> wait_ticks s \<le> 10000 \<and> powered s
      | POWERDOWN \<Rightarrow> wait_ticks s \<le> 2 \<and> unpowered s
      | _ \<Rightarrow> False)"

definition sm_idle_off :: "'a locc_scheme \<Rightarrow> bool" where
  "sm_idle_off s \<longleftrightarrow> (locc_state s = SLEEP \<longrightarrow> unpowered s)"

text \<open>
  The number of rounds (one timer tick, then one poll) a state still needs until the machine
  sleeps.
\<close>

definition sm_rank :: "'a locc_scheme \<Rightarrow> nat" where
  "sm_rank s =
     (let w = max 1 (unat (wait_ticks s)) in
      case locc_state s of
        POWERUP \<Rightarrow> w + (59 + (10000 + 2))
      | AWAKEN \<Rightarrow> w + (10000 + 2)
      | OPEN \<Rightarrow> w + 2
      | POWERDOWN \<Rightarrow> w
      | _ \<Rightarrow> 0)"

definition sm_round :: "u16 \<Rightarrow> 'a locc_scheme \<Rightarrow> 'a locc_scheme" where
  "sm_round past s = sm_step past Sm_Poll (sm_step past Sm_Tick s)"

subsection \<open>Lemmas: the cylinder operations on the lock state\<close>

lemma cyl_ops_locc [simp]:
  "wait_ticks (powerup_locc s) = wait_ticks s" "wait_ticks (powerdown_locc s) = wait_ticks s"
  "wait_ticks (wakeup_locc s) = wait_ticks s" "wait_ticks (open_locc past s) = wait_ticks s"
  "locc_state (powerup_locc s) = locc_state s" "locc_state (powerdown_locc s) = locc_state s"
  "locc_state (wakeup_locc s) = locc_state s" "locc_state (open_locc past s) = locc_state s"
  "current_locc_step (powerup_locc s) = current_locc_step s"
  "current_locc_step (powerdown_locc s) = current_locc_step s"
  "current_locc_step (wakeup_locc s) = current_locc_step s"
  "current_locc_step (open_locc past s) = current_locc_step s"
  by (simp_all add: powerup_locc_eq powerdown_locc_eq wakeup_locc_eq open_locc_eq line_high_wave_eq)

lemma power_congs [simp]:
  "powered (s\<lparr>wait_ticks := w\<rparr>) = powered s" "powered (s\<lparr>locc_state := l\<rparr>) = powered s"
  "powered (s\<lparr>current_locc_step := c\<rparr>) = powered s" "powered (s\<lparr>TCNT0 := t\<rparr>) = powered s"
  "unpowered (s\<lparr>wait_ticks := w\<rparr>) = unpowered s" "unpowered (s\<lparr>locc_state := l\<rparr>) = unpowered s"
  "unpowered (s\<lparr>current_locc_step := c\<rparr>) = unpowered s" "unpowered (s\<lparr>TCNT0 := t\<rparr>) = unpowered s"
  by (simp_all add: powered_def unpowered_def io_level_def)

lemma powered_powerup [simp]: "powered (powerup_locc m)"
  by (simp add: powered_def powerup_locc_eq io_level_def pin_defs reg_simps)

lemma unpowered_powerdown [simp]: "unpowered (powerdown_locc m)"
  by (simp add: unpowered_def powerdown_locc_eq io_level_def pin_defs reg_simps)

lemma powered_wakeup [simp]: "powered m \<Longrightarrow> powered (wakeup_locc m)"
  by (simp add: powered_def wakeup_locc_eq line_high_wave_eq io_level_def pin_defs reg_simps)

lemma powered_open [simp]: "powered m \<Longrightarrow> powered (open_locc past m)"
  by (simp add: powered_def open_locc_eq line_high_wave_eq io_level_def pin_defs reg_simps)

lemmas sm_simps = state_machine.simps [of _ SLEEP] state_machine.simps [of _ POWERUP]
  state_machine.simps [of _ AWAKEN] state_machine.simps [of _ OPEN]
  state_machine.simps [of _ POWERDOWN] state_machine.simps [of _ RESET]

lemmas sm_defs = loccStartOpening_def loccPoll_def TIMER0_OVF_vect_def sm_simps Let_def

subsection \<open>Lemmas: the state machine keeps its invariant and counts down\<close>

lemma sm_inv_start: "sm_inv s \<Longrightarrow> sm_inv (sm_step past Sm_Start s)"
  by (simp add: sm_inv_def sm_defs split: locc_states.splits)

lemma sm_inv_poll: "sm_inv s \<Longrightarrow> sm_inv (sm_step past Sm_Poll s)"
  by (cases "locc_state s") (simp_all add: sm_inv_def sm_defs)

lemma tick_le: "w \<noteq> 0 \<Longrightarrow> w \<le> b \<Longrightarrow> w - 1 \<le> (b :: u32)"
  by (simp add: word_le_nat_alt unat_pred)

lemma sm_inv_tick: "sm_inv s \<Longrightarrow> sm_inv (sm_step past Sm_Tick s)"
  by (auto simp: sm_inv_def sm_defs word_gt_0 tick_le split: locc_states.splits)

interpretation sm: step_system "sm_step past" sm_inv for past
proof
  fix s :: "'a locc_scheme" and e
  assume "sm_inv s"
  then show "sm_inv (sm_step past e s)"
    by (cases e) (simp_all only: sm_inv_start sm_inv_poll sm_inv_tick)
qed

lemma sm_inv_round: "sm_inv s \<Longrightarrow> sm_inv (sm_round past s)"
  by (simp only: sm_round_def sm_inv_tick sm_inv_poll)

lemma sm_idle_off_round: "sm_inv s \<Longrightarrow> sm_idle_off s \<Longrightarrow> sm_idle_off (sm_round past s)"
  by (cases "locc_state s") (simp_all add: sm_idle_off_def sm_inv_def sm_round_def sm_defs)

lemma sm_rank_sleep: "sm_inv s \<Longrightarrow> sm_rank s = 0 \<longleftrightarrow> locc_state s = SLEEP"
  by (cases "locc_state s") (simp_all add: sm_inv_def sm_rank_def)

lemma unat_u32_1: "unat (w :: u32) = 1 \<longleftrightarrow> w = 1"
  by (metis unat_1 word_unat_eq_iff)

lemma sm_rank_round: "sm_inv s \<Longrightarrow> sm_rank (sm_round past s) = sm_rank s - 1"
proof -
  assume inv: "sm_inv s"
  consider "wait_ticks s = 0" | "wait_ticks s = 1" | "unat (wait_ticks s) > 1"
    using unat_u32_1 [of "wait_ticks s"] unat_eq_zero [of "wait_ticks s"] by linarith
  then show ?thesis
  proof cases
    case 3
    then have "wait_ticks s \<noteq> 0" "wait_ticks s - 1 \<noteq> 0" "unat (wait_ticks s - 1) = unat (wait_ticks s) - 1"
      using unat_pred [of "wait_ticks s"] by (auto simp flip: unat_eq_zero)
    with inv 3 show ?thesis
      by (cases "locc_state s") (simp_all add: sm_inv_def sm_rank_def sm_round_def sm_defs word_gt_0)
  qed (use inv in \<open>cases "locc_state s"; simp add: sm_inv_def sm_rank_def sm_round_def sm_defs\<close>)+
qed

lemma sm_rounds:
  "sm_inv s \<Longrightarrow> sm_inv ((sm_round past ^^ n) s) \<and> sm_rank ((sm_round past ^^ n) s) = sm_rank s - n"
  by (induction n) (auto simp: sm_inv_round sm_rank_round)

lemma sm_rounds_idle_off:
  "sm_inv s \<Longrightarrow> sm_idle_off s \<Longrightarrow> sm_idle_off ((sm_round past ^^ n) s)"
proof (induction n)
  case (Suc n)
  then show ?case using sm_rounds [where s = s and past = past and n = n] by (simp add: sm_idle_off_round)
qed simp

lemma sm_started:
  assumes "sm_inv s" and "locc_state s = SLEEP"
  shows "sm_inv (sm_step past Sm_Start s)" "sm_idle_off (sm_step past Sm_Start s)"
    "sm_rank (sm_step past Sm_Start s) = 10111"
  using assms by (simp_all add: sm_inv_def sm_idle_off_def sm_rank_def sm_defs)

lemma locc_init_sleep: "locc_state locc_init = SLEEP"
  by (simp add: locc_init_def)

lemma sm_inv_locc_init: "sm_inv locc_init"
  by (simp add: locc_init_def sm_inv_def)

subsection \<open>Properties of the state machine\<close>





end
