(* ===== verification/Ring_Buffer.thy ===== *)
theory Ring_Buffer
  imports Lufa_Common
begin

section \<open>The ring buffer of RingBuffer.h\<close>

text \<open>
  A ring buffer is a structure of four pointers into the data memory, a size and a count; the model
  keeps the pointers as 16-bit addresses and the bytes in the memory of the record \<open>store\<close>. Every
  operation that touches the count saves the interrupt mask, disables interrupts and restores the
  mask, as in the source.

  The contract is the locale \<open>byte_queue\<close>: a bounded first-in first-out queue of bytes behind an
  abstraction function. It is interpreted on the operations of the header.
\<close>

record RingBuffer_t =
  In :: u16
  Out :: u16
  Start :: u16
  End :: u16
  Size :: u16
  Count :: u16

definition RingBuffer_InitBuffer :: "u16 \<Rightarrow> u16 \<Rightarrow> 'a store_scheme \<Rightarrow> RingBuffer_t \<times> 'a store_scheme" where
  "RingBuffer_InitBuffer DataPtr Siz s =
     (let CurrentGlobalInt = GetGlobalInterruptMask s;
          s = GlobalInterruptDisable s;
          Buffer = \<lparr>In = DataPtr, Out = DataPtr, Start = DataPtr, End = DataPtr + Siz, Size = Siz, Count = 0\<rparr>
      in (Buffer, SetGlobalInterruptMask CurrentGlobalInt s))"

definition RingBuffer_GetCount :: "RingBuffer_t \<Rightarrow> 'a store_scheme \<Rightarrow> u16 \<times> 'a store_scheme" where
  "RingBuffer_GetCount Buffer s =
     (let CurrentGlobalInt = GetGlobalInterruptMask s;
          s = GlobalInterruptDisable s;
          count = Count Buffer
      in (count, SetGlobalInterruptMask CurrentGlobalInt s))"

definition RingBuffer_GetFreeCount :: "RingBuffer_t \<Rightarrow> 'a store_scheme \<Rightarrow> u16 \<times> 'a store_scheme" where
  "RingBuffer_GetFreeCount Buffer s =
     (let (count, s) = RingBuffer_GetCount Buffer s in (Size Buffer - count, s))"

definition RingBuffer_IsEmpty :: "RingBuffer_t \<Rightarrow> 'a store_scheme \<Rightarrow> bool \<times> 'a store_scheme" where
  "RingBuffer_IsEmpty Buffer s = (let (count, s) = RingBuffer_GetCount Buffer s in (count = 0, s))"

definition RingBuffer_IsFull :: "RingBuffer_t \<Rightarrow> 'a store_scheme \<Rightarrow> bool \<times> 'a store_scheme" where
  "RingBuffer_IsFull Buffer s = (let (count, s) = RingBuffer_GetCount Buffer s in (count = Size Buffer, s))"

definition RingBuffer_Insert :: "RingBuffer_t \<Rightarrow> u8 \<Rightarrow> 'a store_scheme \<Rightarrow> RingBuffer_t \<times> 'a store_scheme" where
  "RingBuffer_Insert Buffer Data s =
     (let s = s\<lparr>mem := (mem s)(In Buffer := Data)\<rparr>;
          Buffer = Buffer\<lparr>In := In Buffer + 1\<rparr>;
          Buffer = (if In Buffer = End Buffer then Buffer\<lparr>In := Start Buffer\<rparr> else Buffer);
          CurrentGlobalInt = GetGlobalInterruptMask s;
          s = GlobalInterruptDisable s;
          Buffer = Buffer\<lparr>Count := Count Buffer + 1\<rparr>
      in (Buffer, SetGlobalInterruptMask CurrentGlobalInt s))"

definition RingBuffer_Remove :: "RingBuffer_t \<Rightarrow> 'a store_scheme \<Rightarrow> u8 \<times> RingBuffer_t \<times> 'a store_scheme" where
  "RingBuffer_Remove Buffer s =
     (let Data = mem s (Out Buffer);
          Buffer = Buffer\<lparr>Out := Out Buffer + 1\<rparr>;
          Buffer = (if Out Buffer = End Buffer then Buffer\<lparr>Out := Start Buffer\<rparr> else Buffer);
          CurrentGlobalInt = GetGlobalInterruptMask s;
          s = GlobalInterruptDisable s;
          Buffer = Buffer\<lparr>Count := Count Buffer - 1\<rparr>
      in (Data, Buffer, SetGlobalInterruptMask CurrentGlobalInt s))"

definition RingBuffer_Peek :: "RingBuffer_t \<Rightarrow> 'a store_scheme \<Rightarrow> u8" where
  "RingBuffer_Peek Buffer s = mem s (Out Buffer)"

subsection \<open>The contract\<close>

text \<open>
  \<open>inv\<close> and \<open>abs\<close> say when a state represents a queue and which one; \<open>cap\<close> is its capacity. The
  operations act on one state (for the ring buffer, the structure and the memory).
\<close>

datatype queue_op = Insert u8 | Remove

fun spec_run :: "nat \<Rightarrow> queue_op list \<Rightarrow> u8 list \<Rightarrow> (u8 list \<times> u8 list) option" where
  "spec_run n [] q = Some ([], q)"
| "spec_run n (Insert x # ops) q = (if length q < n then spec_run n ops (q @ [x]) else None)"
| "spec_run n (Remove # ops) [] = None"
| "spec_run n (Remove # ops) (x # q) = map_option (\<lambda>(outs, r). (x # outs, r)) (spec_run n ops q)"

fun queue_run :: "(u8 \<Rightarrow> 's \<Rightarrow> 's) \<Rightarrow> ('s \<Rightarrow> u8 \<times> 's) \<Rightarrow> queue_op list \<Rightarrow> 's \<Rightarrow> u8 list \<times> 's" where
  "queue_run ins rem [] s = ([], s)"
| "queue_run ins rem (Insert x # ops) s = queue_run ins rem ops (ins x s)"
| "queue_run ins rem (Remove # ops) s =
     (let (x, s) = rem s; (xs, s) = queue_run ins rem ops s in (x # xs, s))"

locale byte_queue =
  fixes inv :: "'s \<Rightarrow> bool" and abs :: "'s \<Rightarrow> u8 list" and cap :: "'s \<Rightarrow> nat"
    and insert :: "u8 \<Rightarrow> 's \<Rightarrow> 's" and remove :: "'s \<Rightarrow> u8 \<times> 's"
  assumes inv_insert: "inv s \<Longrightarrow> length (abs s) < cap s \<Longrightarrow> inv (insert x s)"
    and abs_insert: "inv s \<Longrightarrow> length (abs s) < cap s \<Longrightarrow> abs (insert x s) = abs s @ [x]"
    and cap_insert: "cap (insert x s) = cap s"
    and inv_remove: "inv s \<Longrightarrow> abs s \<noteq> [] \<Longrightarrow> inv (snd (remove s))"
    and abs_remove: "inv s \<Longrightarrow> abs s \<noteq> [] \<Longrightarrow> abs (snd (remove s)) = tl (abs s)"
    and val_remove: "inv s \<Longrightarrow> abs s \<noteq> [] \<Longrightarrow> fst (remove s) = hd (abs s)"
    and cap_remove: "cap (snd (remove s)) = cap s"
begin

text \<open>Every sequence of operations that the bounded queue allows gives what the queue gives.\<close>

lemma queue_refines:
  "inv s \<Longrightarrow> spec_run (cap s) ops (abs s) = Some (outs, ys) \<Longrightarrow>
     fst (queue_run insert remove ops s) = outs \<and> inv (snd (queue_run insert remove ops s))
     \<and> abs (snd (queue_run insert remove ops s)) = ys"
proof (induction ops arbitrary: s outs)
  case (Cons op ops)
  show ?case
  proof (cases op)
    case (Insert x)
    with Cons.prems have "length (abs s) < cap s" by (auto split: if_splits)
    with Cons Insert show ?thesis by (simp add: inv_insert abs_insert cap_insert)
  next
    case Remove
    with Cons.prems(2) obtain x q outs' where q: "abs s = x # q" "outs = x # outs'" "spec_run (cap s) ops q = Some (outs', ys)"
      by (cases "abs s") auto
    then show ?thesis
      using Remove Cons.IH [of "snd (remove s)" outs'] Cons.prems(1) inv_remove [of s] abs_remove [of s] val_remove [of s]
        cap_remove [of s]
      by (simp add: split_def Let_def)
  qed
qed simp

end

subsection \<open>The ring buffer implements the contract\<close>

definition rb_inv :: "RingBuffer_t \<Rightarrow> bool" where
  "rb_inv b \<longleftrightarrow>
     0 < Size b \<and> unat (Start b) + unat (Size b) = unat (End b) \<and> Count b \<le> Size b \<and>
     Start b \<le> In b \<and> In b < End b \<and> Start b \<le> Out b \<and> Out b < End b \<and>
     unat (In b) - unat (Start b) = (unat (Out b) - unat (Start b) + unat (Count b)) mod unat (Size b)"

definition rb_addr :: "RingBuffer_t \<Rightarrow> nat \<Rightarrow> u16" where
  "rb_addr b i = Start b + of_nat ((unat (Out b) - unat (Start b) + i) mod unat (Size b))"

definition rb_abs :: "RingBuffer_t \<times> 'a store_scheme \<Rightarrow> u8 list" where
  "rb_abs = (\<lambda>(b, s). map (\<lambda>i. mem s (rb_addr b i)) [0..<unat (Count b)])"

lemma rb_offset:
  assumes "rb_inv b" "i < unat (Size b)"
  shows "unat (Start b + of_nat i) = unat (Start b) + i"
proof -
  have "unat (Start b) + i < 2 ^ 16"
    using assms unsigned_less [of "End b", where 'a = nat] by (simp add: rb_inv_def)
  then show ?thesis
    by (simp add: unat_word_ariths unat_of_nat)
qed

text \<open>One pointer step: to the next offset modulo the size.\<close>

lemma rb_step:
  assumes "rb_inv b" "Start b \<le> p" "p < End b"
  defines "q \<equiv> (if p + 1 = End b then Start b else p + 1)"
  shows "Start b \<le> q \<and> q < End b \<and>
    unat q - unat (Start b) = (unat p - unat (Start b) + 1) mod unat (Size b)"
proof -
  have p1: "unat (p + 1) = unat p + 1"
    using unat_succ [OF assms(3)] by simp
  have "p + 1 = End b \<longleftrightarrow> unat p + 1 = unat (End b)"
    using p1 by (simp add: word_unat_eq_iff)
  moreover from this have "p + 1 = End b \<Longrightarrow> Suc (unat p - unat (Start b)) = unat (Size b)"
    using assms by (auto simp: rb_inv_def word_le_nat_alt)
  ultimately show ?thesis
    using assms p1 by (auto simp: rb_inv_def word_le_nat_alt word_less_nat_alt)
qed

lemma rb_in:
  assumes "rb_inv b"
  shows "In b = rb_addr b (unat (Count b))"
proof -
  have "unat (In b) = unat (Start b) + (unat (Out b) - unat (Start b) + unat (Count b)) mod unat (Size b)"
    using assms unfolding rb_inv_def word_le_nat_alt by linarith
  moreover have "0 < unat (Size b)" using assms by (simp add: rb_inv_def word_less_nat_alt)
  ultimately show ?thesis
    by (simp add: rb_addr_def word_unat_eq_iff rb_offset [OF assms])
qed

lemma rb_addr_inj:
  assumes "rb_inv b" "i < unat (Size b)" "j < unat (Size b)"
  shows "rb_addr b i = rb_addr b j \<longleftrightarrow> i = j"
  using assms mod_add_inj [of i "unat (Size b)" j]
  by (simp add: rb_addr_def word_unat_eq_iff rb_offset [OF assms(1)])

lemma rb_addr_congs [simp]:
  "rb_addr (b\<lparr>In := x\<rparr>) i = rb_addr b i" "rb_addr (b\<lparr>Count := c\<rparr>) i = rb_addr b i"
  by (simp_all add: rb_addr_def)

lemma RingBuffer_Insert_eq:
  "RingBuffer_Insert b x s =
     (b\<lparr>In := if In b + 1 = End b then Start b else In b + 1, Count := Count b + 1\<rparr>, s\<lparr>mem := (mem s)(In b := x)\<rparr>)"
  by (simp add: RingBuffer_Insert_def Let_def)

lemma RingBuffer_Remove_eq:
  "RingBuffer_Remove b s =
     (mem s (Out b), b\<lparr>Out := if Out b + 1 = End b then Start b else Out b + 1, Count := Count b - 1\<rparr>, s)"
  by (simp add: RingBuffer_Remove_def Let_def)

lemma RingBuffer_GetCount_eq: "RingBuffer_GetCount b s = (Count b, s)"
  by (simp add: RingBuffer_GetCount_def Let_def)

lemma rb_insert_inv:
  assumes "rb_inv b" "Count b < Size b"
  shows "rb_inv (fst (RingBuffer_Insert b x s))"
proof -
  have c: "unat (Count b + 1) = Suc (unat (Count b))" by (rule unat_succ [OF assms(2)])
  show ?thesis
    using assms rb_step [OF assms(1), of "In b"] c
    by (simp add: RingBuffer_Insert_eq rb_inv_def word_le_nat_alt word_less_nat_alt mod_Suc_eq)
qed

lemma rb_insert_abs:
  assumes "rb_inv b" "Count b < Size b"
  shows "rb_abs (RingBuffer_Insert b x s) = rb_abs (b, s) @ [x]"
proof -
  have c: "unat (Count b + 1) = Suc (unat (Count b))" by (rule unat_succ [OF assms(2)])
  have "rb_addr b i \<noteq> In b" if "i < unat (Count b)" for i
    using that assms rb_addr_inj [OF assms(1), of i "unat (Count b)"] unfolding rb_in [OF assms(1)]
    by (simp add: word_less_nat_alt)
  then show ?thesis
    by (auto simp: RingBuffer_Insert_eq rb_abs_def c rb_in [OF assms(1), symmetric])
qed

lemma rb_remove:
  fixes s :: "'a store_scheme"
  assumes "rb_inv b" "Count b \<noteq> 0"
  defines "b' \<equiv> fst (snd (RingBuffer_Remove b s))"
  shows "rb_inv b'" "rb_addr b' i = rb_addr b (Suc i)" "unat (Count b') = unat (Count b) - 1"
proof -
  have c: "unat (Count b - 1) = unat (Count b) - 1" by (rule unat_pred [OF assms(2)])
  have c0: "0 < unat (Count b)" using assms(2) by (simp add: unat_gt_0)
  let ?o = "unat (Out b) - unat (Start b)" and ?n = "unat (Size b)"
  have out: "Start b \<le> Out b" "Out b < End b" using assms(1) by (simp_all add: rb_inv_def)
  note st = rb_step [OF assms(1) out]
  have b': "b' = b\<lparr>Out := if Out b + 1 = End b then Start b else Out b + 1, Count := Count b - 1\<rparr>"
    by (simp add: b'_def RingBuffer_Remove_eq)
  have o': "unat (Out b') - unat (Start b) = (?o + 1) mod ?n" using st by (simp add: b')
  show "unat (Count b') = unat (Count b) - 1" using c by (simp add: b')
  show "rb_addr b' i = rb_addr b (Suc i)"
    unfolding rb_addr_def using o' by (simp add: b' mod_add_left_eq)
  obtain c' where c': "unat (Count b) = Suc c'" using c0 by (cases "unat (Count b)") auto
  have "unat (In b) - unat (Start b) = (?o + Suc c') mod ?n"
    using assms(1) unfolding rb_inv_def c' by blast
  also have "\<dots> = ((?o + 1) mod ?n + (unat (Count b) - 1)) mod ?n"
    by (simp add: mod_add_left_eq c' del: Nat.diff_add_assoc2)
  finally have "unat (In b) - unat (Start b) = ((?o + 1) mod ?n + (unat (Count b) - 1)) mod ?n" .
  then show "rb_inv b'"
    using assms(1) st c o' by (auto simp: rb_inv_def b' word_le_nat_alt)
qed

lemma rb_remove_abs:
  assumes "rb_inv b" "Count b \<noteq> 0"
  shows "rb_abs (snd (RingBuffer_Remove b s)) = tl (rb_abs (b, s))" "fst (RingBuffer_Remove b s) = hd (rb_abs (b, s))"
proof -
  obtain n where n: "unat (Count b) = Suc n" using assms(2) by (metis unat_eq_zero not0_implies_Suc)
  have s: "snd (snd (RingBuffer_Remove b s)) = s" by (simp add: RingBuffer_Remove_eq)
  have "rb_abs (snd (RingBuffer_Remove b s)) = map (\<lambda>i. mem s (rb_addr b (Suc i))) [0..<n]"
    using rb_remove [OF assms, of s] n s by (simp add: rb_abs_def split_def)
  then show "rb_abs (snd (RingBuffer_Remove b s)) = tl (rb_abs (b, s))"
    by (simp add: rb_abs_def n map_tl [symmetric] map_Suc_upt [symmetric] upt_conv_Cons comp_def del: upt_Suc)
  have "Out b = rb_addr b 0"
  proof -
    have "unat (Out b) = unat (Start b) + (unat (Out b) - unat (Start b)) mod unat (Size b)"
      using assms(1) by (auto simp: rb_inv_def word_le_nat_alt word_less_nat_alt mod_less)
    moreover have "0 < unat (Size b)" using assms(1) by (simp add: rb_inv_def word_less_nat_alt)
    ultimately show ?thesis by (simp add: rb_addr_def word_unat_eq_iff rb_offset [OF assms(1)])
  qed
  then show "fst (RingBuffer_Remove b s) = hd (rb_abs (b, s))"
    by (simp add: RingBuffer_Remove_eq rb_abs_def n upt_conv_Cons del: upt_Suc)
qed

interpretation rb: byte_queue "\<lambda>(b, s). rb_inv b" rb_abs "\<lambda>(b, s). unat (Size b)"
  "\<lambda>x (b, s). RingBuffer_Insert b x s" "\<lambda>(b, s). RingBuffer_Remove b s"
proof
  fix q :: "RingBuffer_t \<times> 'a store_scheme" and x
  obtain b s where q: "q = (b, s)" by (cases q)
  have full: "length (rb_abs q) < unat (Size b) \<longleftrightarrow> Count b < Size b" and empty: "rb_abs q \<noteq> [] \<longleftrightarrow> Count b \<noteq> 0"
    by (simp_all add: q rb_abs_def word_less_nat_alt unat_eq_zero)
  assume inv: "case q of (b, s) \<Rightarrow> rb_inv b"
  show "case case q of (b, s) \<Rightarrow> RingBuffer_Insert b x s of (b, s) \<Rightarrow> rb_inv b"
    if "length (rb_abs q) < (case q of (b, s) \<Rightarrow> unat (Size b))"
    using that inv full rb_insert_inv [of b x s] by (simp add: q split_def)
  show "rb_abs (case q of (b, s) \<Rightarrow> RingBuffer_Insert b x s) = rb_abs q @ [x]"
    if "length (rb_abs q) < (case q of (b, s) \<Rightarrow> unat (Size b))"
    using that inv full rb_insert_abs [of b x s] by (simp add: q)
  show "case snd (case q of (b, s) \<Rightarrow> RingBuffer_Remove b s) of (b, s) \<Rightarrow> rb_inv b" if "rb_abs q \<noteq> []"
    using that inv empty rb_remove(1) [of b s] by (simp add: q split_def)
  show "rb_abs (snd (case q of (b, s) \<Rightarrow> RingBuffer_Remove b s)) = tl (rb_abs q)" if "rb_abs q \<noteq> []"
    using that inv empty rb_remove_abs(1) [of b s] by (simp add: q)
  show "fst (case q of (b, s) \<Rightarrow> RingBuffer_Remove b s) = hd (rb_abs q)" if "rb_abs q \<noteq> []"
    using that inv empty rb_remove_abs(2) [of b s] by (simp add: q)
qed (auto simp: RingBuffer_Insert_eq RingBuffer_Remove_eq)

subsection \<open>Lemmas: the memory outside the array\<close>

abbreviation rb_run :: "queue_op list \<Rightarrow> RingBuffer_t \<times> 'a store_scheme \<Rightarrow> u8 list \<times> RingBuffer_t \<times> 'a store_scheme" where
  "rb_run \<equiv> queue_run (\<lambda>x (b, s). RingBuffer_Insert b x s) (\<lambda>(b, s). RingBuffer_Remove b s)"

definition rb_frame :: "RingBuffer_t \<Rightarrow> 'a store_scheme \<Rightarrow> 'a store_scheme \<Rightarrow> bool" where
  "rb_frame b s t \<longleftrightarrow> (\<exists>m. t = s\<lparr>mem := m\<rparr> \<and> (\<forall>a. a < Start b \<or> End b \<le> a \<longrightarrow> m a = mem s a))"

lemma rb_frame_insert:
  assumes "rb_inv b" "Count b < Size b"
  shows "rb_frame b s (snd (RingBuffer_Insert b x s))"
proof -
  have "\<not> (In b < Start b \<or> End b \<le> In b)" using assms(1) by (auto simp: rb_inv_def)
  then show ?thesis
    unfolding rb_frame_def by (intro exI [of _ "(mem s)(In b := x)"]) (auto simp: RingBuffer_Insert_eq)
qed

lemma rb_frame_trans: "rb_frame b s t \<Longrightarrow> rb_frame b t u \<Longrightarrow> rb_frame b s u"
  unfolding rb_frame_def by force

lemma rb_run_frame:
  "rb_inv b \<Longrightarrow> spec_run (unat (Size b)) ops (rb_abs (b, s)) = Some (outs, ys) \<Longrightarrow>
     rb_frame b s (snd (snd (rb_run ops (b, s)))) \<and> Size (fst (snd (rb_run ops (b, s)))) = Size b"
proof (induction ops arbitrary: b s outs)
  case Nil
  have "rb_frame b s s" unfolding rb_frame_def by (intro exI [of _ "mem s"]) simp
  then show ?case by simp
next
  case (Cons op ops)
  show ?case
  proof (cases op)
    case (Insert x)
    let ?b = "fst (RingBuffer_Insert b x s)" and ?s = "snd (RingBuffer_Insert b x s)"
    have c: "Count b < Size b" using Cons.prems(2) Insert by (auto simp: rb_abs_def word_less_nat_alt split: if_splits)
    have f: "Start ?b = Start b" "End ?b = End b" "Size ?b = Size b" by (simp_all add: RingBuffer_Insert_eq)
    have "rb_frame ?b ?s (snd (snd (rb_run ops (?b, ?s)))) \<and> Size (fst (snd (rb_run ops (?b, ?s)))) = Size ?b"
      using Cons.prems c Insert rb_insert_abs [OF Cons.prems(1) c, of x s]
      by (intro Cons.IH rb_insert_inv [OF Cons.prems(1) c]) (auto simp: f split: if_splits)
    then show ?thesis
      using rb_frame_trans [OF rb_frame_insert [OF Cons.prems(1) c, of s x]] f Insert by (simp add: rb_frame_def)
  next
    case Remove
    let ?b = "fst (snd (RingBuffer_Remove b s))"
    have c: "Count b \<noteq> 0"
      using Cons.prems(2) Remove by (cases "rb_abs (b, s)") (auto simp: rb_abs_def unat_eq_zero)
    have f: "Start ?b = Start b" "End ?b = End b" "Size ?b = Size b" "snd (snd (RingBuffer_Remove b s)) = s"
      by (simp_all add: RingBuffer_Remove_eq)
    obtain outs' where o: "spec_run (unat (Size b)) ops (tl (rb_abs (b, s))) = Some (outs', ys)"
      using Cons.prems(2) Remove by (cases "rb_abs (b, s)") auto
    have "rb_frame ?b s (snd (snd (rb_run ops (?b, s)))) \<and> Size (fst (snd (rb_run ops (?b, s)))) = Size ?b"
      using rb_remove_abs(1) [OF Cons.prems(1) c, of s] o
      by (intro Cons.IH rb_remove(1) [OF Cons.prems(1) c]) (auto simp: f split_def RingBuffer_Remove_eq)
    moreover have "RingBuffer_Remove b s = (fst (RingBuffer_Remove b s), ?b, s)"
      by (simp add: prod_eq_iff f)
    then have "snd (rb_run (Remove # ops) (b, s)) = snd (rb_run ops (?b, s))"
      by (metis (no_types, lifting) case_prod_conv queue_run.simps(3) snd_conv case_prod_beta)
    ultimately show ?thesis
      using f Remove by (simp add: rb_frame_def)
  qed
qed

subsection \<open>Properties\<close>

text \<open>
  C30. The ring buffer is a bounded first-in first-out queue. Take a buffer made by
  \<^verbatim>\<open>RingBuffer_InitBuffer\<close> over an array that lies in memory, and any sequence of insertions and
  removals that never inserts into a full queue and never removes from an empty one. The removals
  return what the queue returns; afterwards the buffer holds the bytes of the queue, and its count,
  free count, peek and the tests for empty and full agree with it; no memory outside the array has
  changed, and the interrupt mask is what it was.
\<close>

theorem ring_buffer_is_queue:
  fixes s :: "'a store_scheme"
  assumes "0 < Siz" "unat DataPtr + unat Siz < 2 ^ 16" "spec_run (unat Siz) ops [] = Some (outs, ys)"
  shows "\<exists>b t. rb_run ops (RingBuffer_InitBuffer DataPtr Siz s) = (outs, b, t) \<and> rb_abs (b, t) = ys
    \<and> RingBuffer_GetCount b t = (of_nat (length ys), t) \<and> RingBuffer_GetFreeCount b t = (Siz - of_nat (length ys), t)
    \<and> RingBuffer_IsEmpty b t = (ys = [], t) \<and> RingBuffer_IsFull b t = (length ys = unat Siz, t)
    \<and> (ys \<noteq> [] \<longrightarrow> RingBuffer_Peek b t = hd ys)
    \<and> SREG t = SREG s \<and> (\<forall>a. a < DataPtr \<or> DataPtr + Siz \<le> a \<longrightarrow> mem t a = mem s a)"
proof -
  define b0 where "b0 = fst (RingBuffer_InitBuffer DataPtr Siz s)"
  have b0: "b0 = \<lparr>In = DataPtr, Out = DataPtr, Start = DataPtr, End = DataPtr + Siz, Size = Siz, Count = 0\<rparr>"
    and init: "RingBuffer_InitBuffer DataPtr Siz s = (b0, s)"
    by (simp_all add: RingBuffer_InitBuffer_def b0_def Let_def)
  have "unat (DataPtr + Siz) = unat DataPtr + unat Siz"
    using assms(2) by (simp add: unat_word_ariths)
  then have inv: "rb_inv b0"
    using assms(1) by (simp add: rb_inv_def b0 word_less_nat_alt)
  have abs: "rb_abs (b0, s) = []" by (simp add: rb_abs_def b0)
  obtain o' b t where run: "rb_run ops (b0, s) = (o', b, t)" by (metis prod_cases3)
  have q: "o' = outs" "rb_inv b" "rb_abs (b, t) = ys"
    using rb.queue_refines [of "(b0, s)" ops outs ys] inv assms(3) run abs by (simp_all add: b0)
  have fr: "rb_frame b0 s t" "Size b = Siz"
    using rb_run_frame [OF inv, of ops s outs ys] assms(3) run abs by (simp_all add: b0)
  have n: "length ys = unat (Count b)" using q(3) by (auto simp: rb_abs_def)
  have z: "Count b = 0 \<longleftrightarrow> ys = []" using n by (metis length_0_conv unat_eq_zero)
  have "ys \<noteq> [] \<longrightarrow> RingBuffer_Peek b t = hd ys"
    using rb_remove_abs(2) [OF q(2), of t] q(3) z by (simp add: RingBuffer_Remove_eq RingBuffer_Peek_def)
  with z show ?thesis
    unfolding init run using fr q n
    by (auto simp: RingBuffer_GetFreeCount_def RingBuffer_IsEmpty_def RingBuffer_IsFull_def RingBuffer_GetCount_eq
        rb_frame_def b0 word_unat_eq_iff [of "Count b" Siz])
qed

text \<open>A buffer of two bytes at address 256, wrapped around once.\<close>

theorem ring_buffer_is_queue_witness:
  "\<exists>b t. rb_run [Insert 1, Insert 2, Remove, Insert 3] (RingBuffer_InitBuffer 0x100 2 \<lparr>SREG = 0x80, mem = \<lambda>a. 0\<rparr>)
       = ([1], b, t) \<and> rb_abs (b, t) = [2, 3] \<and> RingBuffer_IsFull b t = (True, t)"
  using ring_buffer_is_queue [of 2 "0x100" "[Insert 1, Insert 2, Remove, Insert 3]" "[1]" "[2, 3]"
      "\<lparr>SREG = 0x80, mem = \<lambda>a. 0\<rparr>"]
  by auto

end
