(* ===== verification/Descriptors.thy ===== *)
theory Descriptors
  imports Cdc_Device
begin

section \<open>The descriptors of the device: Descriptors.c and StdDescriptors.h\<close>

text \<open>
  The structures of \<^verbatim>\<open>StdDescriptors.h\<close> and \<^verbatim>\<open>CDCClassCommon.h\<close> that the application uses are records; the
  build packs structures, so the bytes of one (\<open>*_bytes\<close>) are the bytes of its fields in order, 16-bit
  fields little endian. The addresses the linker gives to the constants in flash are the record
  \<open>layout\<close>; \<open>in_flash\<close> says that the flash holds given bytes at an address.
\<close>

definition NO_DESCRIPTOR :: u8 where "NO_DESCRIPTOR = 0"
definition DTYPE_Device :: u8 where "DTYPE_Device = 0x01"
definition DTYPE_Configuration :: u8 where "DTYPE_Configuration = 0x02"
definition DTYPE_String :: u8 where "DTYPE_String = 0x03"
definition DTYPE_Interface :: u8 where "DTYPE_Interface = 0x04"
definition DTYPE_Endpoint :: u8 where "DTYPE_Endpoint = 0x05"
definition DTYPE_CSInterface :: u8 where "DTYPE_CSInterface = 0x24"
definition USB_CONFIG_ATTR_RESERVED :: u8 where "USB_CONFIG_ATTR_RESERVED = 0x80"
definition USB_CONFIG_ATTR_SELFPOWERED :: u8 where "USB_CONFIG_ATTR_SELFPOWERED = 0x40"
definition ENDPOINT_ATTR_NO_SYNC :: u8 where "ENDPOINT_ATTR_NO_SYNC = push_bit 2 0"
definition ENDPOINT_USAGE_DATA :: u8 where "ENDPOINT_USAGE_DATA = push_bit 4 0"
definition LANGUAGE_ID_ENG :: u16 where "LANGUAGE_ID_ENG = 0x0409"
definition USE_INTERNAL_SERIAL :: u8 where "USE_INTERNAL_SERIAL = 0xDC"
definition FIXED_NUM_CONFIGURATIONS :: u8 where "FIXED_NUM_CONFIGURATIONS = 1"
definition USB_CONFIG_POWER_MA :: "nat \<Rightarrow> u8" where "USB_CONFIG_POWER_MA mA = of_nat (drop_bit 1 mA)"

definition CDC_CSCP_CDCClass :: u8 where "CDC_CSCP_CDCClass = 0x02"
definition CDC_CSCP_NoSpecificSubclass :: u8 where "CDC_CSCP_NoSpecificSubclass = 0x00"
definition CDC_CSCP_ACMSubclass :: u8 where "CDC_CSCP_ACMSubclass = 0x02"
definition CDC_CSCP_ATCommandProtocol :: u8 where "CDC_CSCP_ATCommandProtocol = 0x01"
definition CDC_CSCP_NoSpecificProtocol :: u8 where "CDC_CSCP_NoSpecificProtocol = 0x00"
definition CDC_CSCP_CDCDataClass :: u8 where "CDC_CSCP_CDCDataClass = 0x0A"
definition CDC_CSCP_NoDataSubclass :: u8 where "CDC_CSCP_NoDataSubclass = 0x00"
definition CDC_CSCP_NoDataProtocol :: u8 where "CDC_CSCP_NoDataProtocol = 0x00"
definition CDC_DSUBTYPE_CSInterface_Header :: u8 where "CDC_DSUBTYPE_CSInterface_Header = 0x00"
definition CDC_DSUBTYPE_CSInterface_ACM :: u8 where "CDC_DSUBTYPE_CSInterface_ACM = 0x02"
definition CDC_DSUBTYPE_CSInterface_Union :: u8 where "CDC_DSUBTYPE_CSInterface_Union = 0x06"

definition CDC_NOTIFICATION_EPADDR :: u8 where "CDC_NOTIFICATION_EPADDR = ENDPOINT_DIR_IN OR 2"
definition CDC_TX_EPADDR :: u8 where "CDC_TX_EPADDR = ENDPOINT_DIR_IN OR 3"
definition CDC_RX_EPADDR :: u8 where "CDC_RX_EPADDR = ENDPOINT_DIR_OUT OR 4"
definition CDC_NOTIFICATION_EPSIZE :: u16 where "CDC_NOTIFICATION_EPSIZE = 8"
definition CDC_TXRX_EPSIZE :: u16 where "CDC_TXRX_EPSIZE = 16"

named_theorems desc_consts \<open>the numbers in the descriptors\<close>

lemmas desc_const_defs [desc_consts] =
  NO_DESCRIPTOR_def DTYPE_Device_def DTYPE_Configuration_def DTYPE_String_def DTYPE_Interface_def
  DTYPE_Endpoint_def DTYPE_CSInterface_def USB_CONFIG_ATTR_RESERVED_def USB_CONFIG_ATTR_SELFPOWERED_def
  ENDPOINT_ATTR_NO_SYNC_def ENDPOINT_USAGE_DATA_def LANGUAGE_ID_ENG_def USE_INTERNAL_SERIAL_def
  FIXED_NUM_CONFIGURATIONS_def USB_CONFIG_POWER_MA_def CDC_CSCP_CDCClass_def CDC_CSCP_NoSpecificSubclass_def
  CDC_CSCP_ACMSubclass_def CDC_CSCP_ATCommandProtocol_def CDC_CSCP_NoSpecificProtocol_def
  CDC_CSCP_CDCDataClass_def CDC_CSCP_NoDataSubclass_def CDC_CSCP_NoDataProtocol_def
  CDC_DSUBTYPE_CSInterface_Header_def CDC_DSUBTYPE_CSInterface_ACM_def CDC_DSUBTYPE_CSInterface_Union_def
  CDC_NOTIFICATION_EPADDR_def CDC_TX_EPADDR_def CDC_RX_EPADDR_def CDC_NOTIFICATION_EPSIZE_def CDC_TXRX_EPSIZE_def
  EP_TYPE_BULK_def EP_TYPE_INTERRUPT_def

text \<open>A version number \<open>tt.hh\<close> as the number \<open>tthh\<close> in decimal, one digit per nibble.\<close>

definition VERSION_BCD :: "nat \<Rightarrow> u16" where
  "VERSION_BCD x = push_bit 12 (of_nat (x div 1000)) OR push_bit 8 (of_nat (x div 100 mod 10))
     OR push_bit 4 (of_nat (x div 10 mod 10)) OR of_nat (x mod 10)"

subsection \<open>Structures\<close>

record USB_Descriptor_Header_t =
  hdr_Size :: u8
  hdr_Type :: u8

record USB_Descriptor_Device_t =
  dev_Header :: USB_Descriptor_Header_t
  USBSpecification :: u16
  dev_Class :: u8
  dev_SubClass :: u8
  dev_Protocol :: u8
  Endpoint0Size :: u8
  VendorID :: u16
  ProductID :: u16
  ReleaseNumber :: u16
  ManufacturerStrIndex :: u8
  ProductStrIndex :: u8
  SerialNumStrIndex :: u8
  NumberOfConfigurations :: u8

record USB_Descriptor_Configuration_Header_t =
  cfg_Header :: USB_Descriptor_Header_t
  TotalConfigurationSize :: u16
  TotalInterfaces :: u8
  ConfigurationNumber :: u8
  ConfigurationStrIndex :: u8
  ConfigAttributes :: u8
  MaxPowerConsumption :: u8

record USB_Descriptor_Interface_t =
  int_Header :: USB_Descriptor_Header_t
  InterfaceNumber :: u8
  AlternateSetting :: u8
  TotalEndpoints :: u8
  int_Class :: u8
  int_SubClass :: u8
  int_Protocol :: u8
  InterfaceStrIndex :: u8

record USB_Descriptor_Endpoint_t =
  ep_Header :: USB_Descriptor_Header_t
  EndpointAddress :: u8
  Attributes :: u8
  EndpointSize :: u16
  PollingIntervalMS :: u8

record USB_CDC_Descriptor_FunctionalHeader_t =
  fh_Header :: USB_Descriptor_Header_t
  fh_Subtype :: u8
  CDCSpecification :: u16

record USB_CDC_Descriptor_FunctionalACM_t =
  acm_Header :: USB_Descriptor_Header_t
  acm_Subtype :: u8
  Capabilities :: u8

record USB_CDC_Descriptor_FunctionalUnion_t =
  un_Header :: USB_Descriptor_Header_t
  un_Subtype :: u8
  MasterInterfaceNumber :: u8
  SlaveInterfaceNumber :: u8

record USB_Descriptor_String_t =
  str_Header :: USB_Descriptor_Header_t
  UnicodeString :: "u16 list"

record USB_Descriptor_Configuration_t =
  Config :: USB_Descriptor_Configuration_Header_t
  CDC_CCI_Interface :: USB_Descriptor_Interface_t
  CDC_Functional_Header :: USB_CDC_Descriptor_FunctionalHeader_t
  CDC_Functional_ACM :: USB_CDC_Descriptor_FunctionalACM_t
  CDC_Functional_Union :: USB_CDC_Descriptor_FunctionalUnion_t
  CDC_NotificationEndpoint :: USB_Descriptor_Endpoint_t
  CDC_DCI_Interface :: USB_Descriptor_Interface_t
  CDC_DataOutEndpoint :: USB_Descriptor_Endpoint_t
  CDC_DataInEndpoint :: USB_Descriptor_Endpoint_t

subsection \<open>Bytes\<close>

definition hdr_bytes :: "USB_Descriptor_Header_t \<Rightarrow> u8 list" where
  "hdr_bytes h = [hdr_Size h, hdr_Type h]"

definition device_bytes :: "USB_Descriptor_Device_t \<Rightarrow> u8 list" where
  "device_bytes d = hdr_bytes (dev_Header d) @ bytes16 (USBSpecification d)
     @ [dev_Class d, dev_SubClass d, dev_Protocol d, Endpoint0Size d]
     @ bytes16 (VendorID d) @ bytes16 (ProductID d) @ bytes16 (ReleaseNumber d)
     @ [ManufacturerStrIndex d, ProductStrIndex d, SerialNumStrIndex d, NumberOfConfigurations d]"

definition config_header_bytes :: "USB_Descriptor_Configuration_Header_t \<Rightarrow> u8 list" where
  "config_header_bytes c = hdr_bytes (cfg_Header c) @ bytes16 (TotalConfigurationSize c)
     @ [TotalInterfaces c, ConfigurationNumber c, ConfigurationStrIndex c, ConfigAttributes c, MaxPowerConsumption c]"

definition interface_bytes :: "USB_Descriptor_Interface_t \<Rightarrow> u8 list" where
  "interface_bytes i = hdr_bytes (int_Header i) @ [InterfaceNumber i, AlternateSetting i, TotalEndpoints i,
     int_Class i, int_SubClass i, int_Protocol i, InterfaceStrIndex i]"

definition endpoint_bytes :: "USB_Descriptor_Endpoint_t \<Rightarrow> u8 list" where
  "endpoint_bytes p = hdr_bytes (ep_Header p) @ [EndpointAddress p, Attributes p] @ bytes16 (EndpointSize p)
     @ [PollingIntervalMS p]"

definition func_header_bytes :: "USB_CDC_Descriptor_FunctionalHeader_t \<Rightarrow> u8 list" where
  "func_header_bytes f = hdr_bytes (fh_Header f) @ [fh_Subtype f] @ bytes16 (CDCSpecification f)"

definition func_acm_bytes :: "USB_CDC_Descriptor_FunctionalACM_t \<Rightarrow> u8 list" where
  "func_acm_bytes f = hdr_bytes (acm_Header f) @ [acm_Subtype f, Capabilities f]"

definition func_union_bytes :: "USB_CDC_Descriptor_FunctionalUnion_t \<Rightarrow> u8 list" where
  "func_union_bytes f = hdr_bytes (un_Header f) @ [un_Subtype f, MasterInterfaceNumber f, SlaveInterfaceNumber f]"

definition string_bytes :: "USB_Descriptor_String_t \<Rightarrow> u8 list" where
  "string_bytes t = hdr_bytes (str_Header t) @ concat (map bytes16 (UnicodeString t))"

definition config_bytes :: "USB_Descriptor_Configuration_t \<Rightarrow> u8 list" where
  "config_bytes c = config_header_bytes (Config c) @ interface_bytes (CDC_CCI_Interface c)
     @ func_header_bytes (CDC_Functional_Header c) @ func_acm_bytes (CDC_Functional_ACM c)
     @ func_union_bytes (CDC_Functional_Union c) @ endpoint_bytes (CDC_NotificationEndpoint c)
     @ interface_bytes (CDC_DCI_Interface c) @ endpoint_bytes (CDC_DataOutEndpoint c)
     @ endpoint_bytes (CDC_DataInEndpoint c)"

subsection \<open>The constants in flash\<close>

definition sizeof_Header :: nat where "sizeof_Header = 2"
definition sizeof_Device :: nat where "sizeof_Device = 18"
definition sizeof_Configuration_Header :: nat where "sizeof_Configuration_Header = 9"
definition sizeof_Interface :: nat where "sizeof_Interface = 9"
definition sizeof_Endpoint :: nat where "sizeof_Endpoint = 7"
definition sizeof_FunctionalHeader :: nat where "sizeof_FunctionalHeader = 5"
definition sizeof_FunctionalACM :: nat where "sizeof_FunctionalACM = 4"
definition sizeof_FunctionalUnion :: nat where "sizeof_FunctionalUnion = 5"

definition sizeof_Configuration :: nat where
  "sizeof_Configuration = sizeof_Configuration_Header + sizeof_Interface + sizeof_FunctionalHeader
     + sizeof_FunctionalACM + sizeof_FunctionalUnion + sizeof_Endpoint + sizeof_Interface
     + sizeof_Endpoint + sizeof_Endpoint"

lemmas sizeof_defs = sizeof_Header_def sizeof_Device_def sizeof_Configuration_Header_def sizeof_Interface_def
  sizeof_Endpoint_def sizeof_FunctionalHeader_def sizeof_FunctionalACM_def sizeof_FunctionalUnion_def
  sizeof_Configuration_def

definition USB_STRING_LEN :: "nat \<Rightarrow> nat" where
  "USB_STRING_LEN UnicodeChars = sizeof_Header + push_bit 1 UnicodeChars"

definition header :: "nat \<Rightarrow> u8 \<Rightarrow> USB_Descriptor_Header_t" where
  "header n t = \<lparr>hdr_Size = of_nat n, hdr_Type = t\<rparr>"

definition DeviceDescriptor :: USB_Descriptor_Device_t where
  "DeviceDescriptor = \<lparr>
     dev_Header = header sizeof_Device DTYPE_Device,
     USBSpecification = VERSION_BCD 0110,
     dev_Class = CDC_CSCP_CDCClass,
     dev_SubClass = CDC_CSCP_NoSpecificSubclass,
     dev_Protocol = CDC_CSCP_NoSpecificProtocol,
     Endpoint0Size = ucast USB_Device_ControlEndpointSize,
     VendorID = 0x03EB,
     ProductID = 0x204B,
     ReleaseNumber = VERSION_BCD 0001,
     ManufacturerStrIndex = 0x01,
     ProductStrIndex = 0x02,
     SerialNumStrIndex = USE_INTERNAL_SERIAL,
     NumberOfConfigurations = FIXED_NUM_CONFIGURATIONS\<rparr>"

definition ConfigurationDescriptor :: USB_Descriptor_Configuration_t where
  "ConfigurationDescriptor = \<lparr>
     Config = \<lparr>
       cfg_Header = header sizeof_Configuration_Header DTYPE_Configuration,
       TotalConfigurationSize = of_nat sizeof_Configuration,
       TotalInterfaces = 2,
       ConfigurationNumber = 1,
       ConfigurationStrIndex = NO_DESCRIPTOR,
       ConfigAttributes = USB_CONFIG_ATTR_RESERVED OR USB_CONFIG_ATTR_SELFPOWERED,
       MaxPowerConsumption = USB_CONFIG_POWER_MA 100\<rparr>,
     CDC_CCI_Interface = \<lparr>
       int_Header = header sizeof_Interface DTYPE_Interface,
       InterfaceNumber = 0, AlternateSetting = 0, TotalEndpoints = 1,
       int_Class = CDC_CSCP_CDCClass, int_SubClass = CDC_CSCP_ACMSubclass,
       int_Protocol = CDC_CSCP_ATCommandProtocol, InterfaceStrIndex = NO_DESCRIPTOR\<rparr>,
     CDC_Functional_Header = \<lparr>
       fh_Header = header sizeof_FunctionalHeader DTYPE_CSInterface,
       fh_Subtype = CDC_DSUBTYPE_CSInterface_Header, CDCSpecification = VERSION_BCD 0110\<rparr>,
     CDC_Functional_ACM = \<lparr>
       acm_Header = header sizeof_FunctionalACM DTYPE_CSInterface,
       acm_Subtype = CDC_DSUBTYPE_CSInterface_ACM, Capabilities = 0x06\<rparr>,
     CDC_Functional_Union = \<lparr>
       un_Header = header sizeof_FunctionalUnion DTYPE_CSInterface,
       un_Subtype = CDC_DSUBTYPE_CSInterface_Union, MasterInterfaceNumber = 0, SlaveInterfaceNumber = 1\<rparr>,
     CDC_NotificationEndpoint = \<lparr>
       ep_Header = header sizeof_Endpoint DTYPE_Endpoint,
       EndpointAddress = CDC_NOTIFICATION_EPADDR,
       Attributes = EP_TYPE_INTERRUPT OR ENDPOINT_ATTR_NO_SYNC OR ENDPOINT_USAGE_DATA,
       EndpointSize = CDC_NOTIFICATION_EPSIZE, PollingIntervalMS = 0xFF\<rparr>,
     CDC_DCI_Interface = \<lparr>
       int_Header = header sizeof_Interface DTYPE_Interface,
       InterfaceNumber = 1, AlternateSetting = 0, TotalEndpoints = 2,
       int_Class = CDC_CSCP_CDCDataClass, int_SubClass = CDC_CSCP_NoDataSubclass,
       int_Protocol = CDC_CSCP_NoDataProtocol, InterfaceStrIndex = NO_DESCRIPTOR\<rparr>,
     CDC_DataOutEndpoint = \<lparr>
       ep_Header = header sizeof_Endpoint DTYPE_Endpoint,
       EndpointAddress = CDC_RX_EPADDR,
       Attributes = EP_TYPE_BULK OR ENDPOINT_ATTR_NO_SYNC OR ENDPOINT_USAGE_DATA,
       EndpointSize = CDC_TXRX_EPSIZE, PollingIntervalMS = 0x05\<rparr>,
     CDC_DataInEndpoint = \<lparr>
       ep_Header = header sizeof_Endpoint DTYPE_Endpoint,
       EndpointAddress = CDC_TX_EPADDR,
       Attributes = EP_TYPE_BULK OR ENDPOINT_ATTR_NO_SYNC OR ENDPOINT_USAGE_DATA,
       EndpointSize = CDC_TXRX_EPSIZE, PollingIntervalMS = 0x05\<rparr>\<rparr>"

text \<open>A wide string constant: one 16-bit unit per character and a terminating zero.\<close>

definition wide :: "string \<Rightarrow> u16 list" where
  "wide t = map of_char t @ [0]"

definition LanguageString :: USB_Descriptor_String_t where
  "LanguageString = \<lparr>str_Header = header (USB_STRING_LEN 1) DTYPE_String, UnicodeString = [LANGUAGE_ID_ENG]\<rparr>"

definition ManufacturerString :: USB_Descriptor_String_t where
  "ManufacturerString = \<lparr>str_Header = header (USB_STRING_LEN 12) DTYPE_String, UnicodeString = wide ''lynxis/jaseg''\<rparr>"

definition ProductString :: USB_Descriptor_String_t where
  "ProductString = \<lparr>str_Header = header (USB_STRING_LEN 17) DTYPE_String, UnicodeString = wide ''c-lab locc system''\<rparr>"

subsection \<open>Finding a descriptor\<close>

record layout =
  at_Device :: u16
  at_Configuration :: u16
  at_Language :: u16
  at_Manufacturer :: u16
  at_Product :: u16

definition in_flash :: "u16 \<Rightarrow> u8 list \<Rightarrow> usb_dev \<Rightarrow> bool" where
  "in_flash p bs s \<longleftrightarrow> map (\<lambda>i. flash s (p + of_nat i)) [0..<length bs] = bs"

definition linked :: "layout \<Rightarrow> usb_dev \<Rightarrow> bool" where
  "linked l s \<longleftrightarrow> in_flash (at_Device l) (device_bytes DeviceDescriptor) s
     \<and> in_flash (at_Configuration l) (config_bytes ConfigurationDescriptor) s
     \<and> in_flash (at_Language l) (string_bytes LanguageString) s
     \<and> in_flash (at_Manufacturer l) (string_bytes ManufacturerString) s
     \<and> in_flash (at_Product l) (string_bytes ProductString) s"

text \<open>The result is the size and the address; the address is 0, a null pointer, when there is none.\<close>

definition CALLBACK_USB_GetDescriptor :: "layout \<Rightarrow> u16 \<Rightarrow> u8 \<Rightarrow> usb_dev \<Rightarrow> u16 \<times> u16" where
  "CALLBACK_USB_GetDescriptor l wval widx s =
     (let DescriptorType = ucast (drop_bit 8 wval) :: u8;
          DescriptorNumber = ucast (wval AND 0xFF) :: u8
      in if DescriptorType = DTYPE_Device then (of_nat sizeof_Device, at_Device l)
         else if DescriptorType = DTYPE_Configuration then (of_nat sizeof_Configuration, at_Configuration l)
         else if DescriptorType = DTYPE_String then
           if DescriptorNumber = 0x00 then (ucast (flash s (at_Language l)), at_Language l)
           else if DescriptorNumber = 0x01 then (ucast (flash s (at_Manufacturer l)), at_Manufacturer l)
           else if DescriptorNumber = 0x02 then (ucast (flash s (at_Product l)), at_Product l)
           else (ucast NO_DESCRIPTOR, 0)
         else (ucast NO_DESCRIPTOR, 0))"

subsection \<open>Walking through a configuration: ConfigDescriptors\<close>

definition DESCRIPTOR_SIZE :: "(u16 \<Rightarrow> u8) \<Rightarrow> u16 \<Rightarrow> u8" where "DESCRIPTOR_SIZE m p = m p"
definition DESCRIPTOR_TYPE :: "(u16 \<Rightarrow> u8) \<Rightarrow> u16 \<Rightarrow> u8" where "DESCRIPTOR_TYPE m p = m (p + 1)"

definition USB_GetNextDescriptor :: "(u16 \<Rightarrow> u8) \<Rightarrow> u16 \<times> u16 \<Rightarrow> u16 \<times> u16" where
  "USB_GetNextDescriptor m = (\<lambda>(BytesRem, CurrConfigLoc).
     (let CurrDescriptorSize = ucast (DESCRIPTOR_SIZE m CurrConfigLoc);
          CurrDescriptorSize = (if BytesRem < CurrDescriptorSize then BytesRem else CurrDescriptorSize)
      in (BytesRem - CurrDescriptorSize, CurrConfigLoc + CurrDescriptorSize)))"

partial_function (option) USB_GetNextDescriptorOfType :: "(u16 \<Rightarrow> u8) \<Rightarrow> u8 \<Rightarrow> u16 \<times> u16 \<Rightarrow> (u16 \<times> u16) option" where
  "USB_GetNextDescriptorOfType m Type c =
     (if fst c \<noteq> 0
      then (let c = USB_GetNextDescriptor m c
            in if DESCRIPTOR_TYPE m (snd c) = Type then Some c else USB_GetNextDescriptorOfType m Type c)
      else Some c)"

partial_function (option) USB_GetNextDescriptorOfTypeBefore :: "(u16 \<Rightarrow> u8) \<Rightarrow> u8 \<Rightarrow> u8 \<Rightarrow> u16 \<times> u16 \<Rightarrow> (u16 \<times> u16) option" where
  "USB_GetNextDescriptorOfTypeBefore m Type BeforeType c =
     (if fst c \<noteq> 0
      then (let c = USB_GetNextDescriptor m c
            in if DESCRIPTOR_TYPE m (snd c) = Type then Some c
               else if DESCRIPTOR_TYPE m (snd c) = BeforeType then Some (0, snd c)
               else USB_GetNextDescriptorOfTypeBefore m Type BeforeType c)
      else Some c)"

definition USB_GetNextDescriptorOfTypeAfter :: "(u16 \<Rightarrow> u8) \<Rightarrow> u8 \<Rightarrow> u8 \<Rightarrow> u16 \<times> u16 \<Rightarrow> (u16 \<times> u16) option" where
  "USB_GetNextDescriptorOfTypeAfter m Type AfterType c = do {
     c \<leftarrow> USB_GetNextDescriptorOfType m AfterType c;
     if fst c \<noteq> 0 then USB_GetNextDescriptorOfType m Type c else Some c
   }"

datatype DSearch_Return_ErrorCodes_t = DESCRIPTOR_SEARCH_Found | DESCRIPTOR_SEARCH_Fail | DESCRIPTOR_SEARCH_NotFound

datatype DSearch_Comp_Return_ErrorCodes_t =
  DESCRIPTOR_SEARCH_COMP_Found | DESCRIPTOR_SEARCH_COMP_Fail | DESCRIPTOR_SEARCH_COMP_EndOfDescriptor

text \<open>The comparator is the application's; its codes become the codes of the search, number by number.\<close>

fun search_code :: "DSearch_Return_ErrorCodes_t \<Rightarrow> DSearch_Comp_Return_ErrorCodes_t" where
  "search_code DESCRIPTOR_SEARCH_Found = DESCRIPTOR_SEARCH_COMP_Found"
| "search_code DESCRIPTOR_SEARCH_Fail = DESCRIPTOR_SEARCH_COMP_Fail"
| "search_code DESCRIPTOR_SEARCH_NotFound = DESCRIPTOR_SEARCH_COMP_EndOfDescriptor"

partial_function (option) USB_GetNextDescriptorComp :: "(u16 \<Rightarrow> u8) \<Rightarrow> (u16 \<Rightarrow> DSearch_Return_ErrorCodes_t) \<Rightarrow> u16 \<times> u16
    \<Rightarrow> (DSearch_Comp_Return_ErrorCodes_t \<times> u16 \<times> u16) option" where
  "USB_GetNextDescriptorComp m ComparatorRoutine c =
     (if fst c \<noteq> 0
      then (let prev = c; c = USB_GetNextDescriptor m c; ErrorCode = ComparatorRoutine (snd c)
            in if ErrorCode \<noteq> DESCRIPTOR_SEARCH_NotFound
               then Some (search_code ErrorCode, if ErrorCode = DESCRIPTOR_SEARCH_Fail then prev else c)
               else USB_GetNextDescriptorComp m ComparatorRoutine c)
      else Some (DESCRIPTOR_SEARCH_COMP_EndOfDescriptor, c))"

declare USB_GetNextDescriptorOfType.simps [code] USB_GetNextDescriptorOfTypeBefore.simps [code]
  USB_GetNextDescriptorComp.simps [code]

end
