(* ===== verification/Device_Requests.thy ===== *)
theory Device_Requests
  imports Descriptors
begin

section \<open>Standard control requests: DeviceStandardReq.c\<close>

text \<open>
  The requests of chapter 9 of the USB specification as the library serves them, with the two events
  of the application (\<^verbatim>\<open>EVENT_USB_Device_ControlRequest\<close>, \<^verbatim>\<open>EVENT_USB_Device_ConfigurationChanged\<close> of
  \<^verbatim>\<open>c_locc.c\<close>) linked in. \<open>image\<close> extends the layout of the flash by the signature row of the chip and
  the address of the local variable in which the serial number descriptor is built. The result \<open>None\<close>
  means that a wait inside the handler never ends.
\<close>

record image = layout +
  signature :: "u8 \<Rightarrow> u8"
  stack_frame :: u16

definition the_layout :: "image \<Rightarrow> layout" where
  "the_layout im = layout.truncate im"

definition REQ_GetStatus :: u8 where "REQ_GetStatus = 0"
definition REQ_ClearFeature :: u8 where "REQ_ClearFeature = 1"
definition REQ_SetFeature :: u8 where "REQ_SetFeature = 3"
definition REQ_SetAddress :: u8 where "REQ_SetAddress = 5"
definition REQ_GetDescriptor :: u8 where "REQ_GetDescriptor = 6"
definition REQ_GetConfiguration :: u8 where "REQ_GetConfiguration = 8"
definition REQ_SetConfiguration :: u8 where "REQ_SetConfiguration = 9"
definition FEATURE_SEL_EndpointHalt :: u8 where "FEATURE_SEL_EndpointHalt = 0x00"
definition FEATURE_SEL_DeviceRemoteWakeup :: u8 where "FEATURE_SEL_DeviceRemoteWakeup = 0x01"
definition FEATURE_SELFPOWERED_ENABLED :: u8 where "FEATURE_SELFPOWERED_ENABLED = push_bit 0 1"
definition FEATURE_REMOTE_WAKEUP_ENABLED :: u8 where "FEATURE_REMOTE_WAKEUP_ENABLED = push_bit 1 1"

declare REQ_GetStatus_def [req_consts] REQ_ClearFeature_def [req_consts] REQ_SetFeature_def [req_consts]
  REQ_SetAddress_def [req_consts] REQ_GetDescriptor_def [req_consts] REQ_GetConfiguration_def [req_consts]
  REQ_SetConfiguration_def [req_consts] FEATURE_SEL_EndpointHalt_def [req_consts]
  FEATURE_SEL_DeviceRemoteWakeup_def [req_consts] FEATURE_SELFPOWERED_ENABLED_def [req_consts]
  FEATURE_REMOTE_WAKEUP_ENABLED_def [req_consts]

subsection \<open>The application's events\<close>

definition EVENT_USB_Device_ConfigurationChanged :: "env \<Rightarrow> usb_dev \<Rightarrow> usb_dev option" where
  "EVENT_USB_Device_ConfigurationChanged e s = map_option snd (CDC_Device_ConfigureEndpoints e s)"

definition EVENT_USB_Device_ControlRequest :: "env \<Rightarrow> usb_dev \<Rightarrow> usb_dev option" where
  "EVENT_USB_Device_ControlRequest e s = CDC_Device_ProcessControlRequest e s"

subsection \<open>The requests\<close>

definition USB_Device_SetAddress :: "env \<Rightarrow> usb_dev \<Rightarrow> usb_dev option" where
  "USB_Device_SetAddress e s =
     (let DeviceAddress = ucast (wValue (USB_ControlRequest s) AND 0x7F);
          s = USB_Device_SetDeviceAddress e DeviceAddress s
      in do {
        s \<leftarrow> Endpoint_ClearStatusStage e (Endpoint_ClearSETUP e s);
        s \<leftarrow> wait_bit e UEINTX TXINI s;
        Some (let s = USB_Device_EnableDeviceAddress e DeviceAddress s
              in wr GPIOR0 (if DeviceAddress \<noteq> 0 then DEVICE_STATE_Addressed else DEVICE_STATE_Default) s)
      })"

definition USB_Device_SetConfiguration :: "env \<Rightarrow> usb_dev \<Rightarrow> usb_dev option" where
  "USB_Device_SetConfiguration e s =
     (if (ucast (wValue (USB_ControlRequest s)) :: u8) > FIXED_NUM_CONFIGURATIONS then Some s
      else do {
        let s = Endpoint_ClearSETUP e s;
            s = s\<lparr>USB_Device_ConfigurationNumber := ucast (wValue (USB_ControlRequest s))\<rparr>
        in do {
          s \<leftarrow> Endpoint_ClearStatusStage e s;
          let s = (if USB_Device_ConfigurationNumber s \<noteq> 0 then wr GPIOR0 DEVICE_STATE_Configured s
                   else (let (set, s) = USB_Device_IsAddressSet e s
                         in wr GPIOR0 (if set then DEVICE_STATE_Configured else DEVICE_STATE_Powered) s))
          in EVENT_USB_Device_ConfigurationChanged e s
        }
      })"

definition USB_Device_GetConfiguration :: "env \<Rightarrow> usb_dev \<Rightarrow> usb_dev option" where
  "USB_Device_GetConfiguration e s =
     (let s = Endpoint_ClearSETUP e s;
          s = Endpoint_Write_8 (USB_Device_ConfigurationNumber s) s;
          s = Endpoint_ClearIN e s
      in Endpoint_ClearStatusStage e s)"

definition signature_descriptor :: "u16 list \<Rightarrow> USB_Descriptor_String_t" where
  "signature_descriptor u = \<lparr>str_Header = header (USB_STRING_LEN (INTERNAL_SERIAL_LENGTH_BITS div 4)) DTYPE_String,
     UnicodeString = u\<rparr>"

definition USB_Device_GetInternalSerialDescriptor :: "env \<Rightarrow> image \<Rightarrow> usb_dev \<Rightarrow> usb_dev option" where
  "USB_Device_GetInternalSerialDescriptor e im s =
     (let (u, s) = USB_Device_GetSerialString (signature im) s;
          s = put_bytes (stack_frame im) (string_bytes (signature_descriptor u)) s;
          s = Endpoint_ClearSETUP e s
      in do {
        (code, s) \<leftarrow> Endpoint_Write_Control_Stream_LE e (stack_frame im)
          (of_nat (sizeof_Header + 2 * (INTERNAL_SERIAL_LENGTH_BITS div 4))) s;
        Some (Endpoint_ClearOUT e s)
      })"

definition USB_Device_GetDescriptor :: "env \<Rightarrow> image \<Rightarrow> usb_dev \<Rightarrow> usb_dev option" where
  "USB_Device_GetDescriptor e im s =
     (let r = USB_ControlRequest s
      in if wValue r = push_bit 8 (ucast DTYPE_String) OR ucast USE_INTERNAL_SERIAL
         then USB_Device_GetInternalSerialDescriptor e im s
         else
           (let (DescriptorSize, DescriptorPointer) =
                  CALLBACK_USB_GetDescriptor (the_layout im) (wValue r) (ucast (wIndex r)) s
            in if DescriptorSize = ucast NO_DESCRIPTOR then Some s
               else do {
                 (code, s) \<leftarrow> Endpoint_Write_Control_PStream_LE e DescriptorPointer DescriptorSize (Endpoint_ClearSETUP e s);
                 Some (Endpoint_ClearOUT e s)
               }))"

definition send_status :: "env \<Rightarrow> u8 \<Rightarrow> usb_dev \<Rightarrow> usb_dev option" where
  "send_status e CurrentStatus s =
     (let s = Endpoint_ClearSETUP e s;
          s = Endpoint_Write_16_LE (ucast CurrentStatus) s;
          s = Endpoint_ClearIN e s
      in Endpoint_ClearStatusStage e s)"

definition USB_Device_GetStatus :: "env \<Rightarrow> usb_dev \<Rightarrow> usb_dev option" where
  "USB_Device_GetStatus e s =
     (let r = USB_ControlRequest s; CurrentStatus = 0
      in if bmRequestType r = REQDIR_DEVICETOHOST OR REQTYPE_STANDARD OR REQREC_DEVICE then
           (let CurrentStatus = (if USB_Device_CurrentlySelfPowered s
                  then CurrentStatus OR FEATURE_SELFPOWERED_ENABLED else CurrentStatus);
                CurrentStatus = (if USB_Device_RemoteWakeupEnabled s
                  then CurrentStatus OR FEATURE_REMOTE_WAKEUP_ENABLED else CurrentStatus)
            in send_status e CurrentStatus s)
         else if bmRequestType r = REQDIR_DEVICETOHOST OR REQTYPE_STANDARD OR REQREC_ENDPOINT then
           (let s = Endpoint_SelectEndpoint (ucast (wIndex r) AND ENDPOINT_EPNUM_MASK) s;
                (stalled, s) = Endpoint_IsStalled e s;
                s = Endpoint_SelectEndpoint ENDPOINT_CONTROLEP s
            in send_status e (if stalled then 1 else 0) s)
         else Some s)"

definition finish_feature :: "env \<Rightarrow> usb_dev \<Rightarrow> usb_dev option" where
  "finish_feature e s =
     Endpoint_ClearStatusStage e (Endpoint_ClearSETUP e (Endpoint_SelectEndpoint ENDPOINT_CONTROLEP s))"

definition USB_Device_ClearSetFeature :: "env \<Rightarrow> usb_dev \<Rightarrow> usb_dev option" where
  "USB_Device_ClearSetFeature e s =
     (let r = USB_ControlRequest s; recipient = bmRequestType r AND CONTROL_REQTYPE_RECIPIENT
      in if recipient = REQREC_DEVICE then
           if ucast (wValue r) = FEATURE_SEL_DeviceRemoteWakeup
           then finish_feature e (s\<lparr>USB_Device_RemoteWakeupEnabled := (bRequest r = REQ_SetFeature)\<rparr>)
           else Some s
         else if recipient = REQREC_ENDPOINT then
           if ucast (wValue r) = FEATURE_SEL_EndpointHalt then
             (let EndpointIndex = ucast (wIndex r) AND ENDPOINT_EPNUM_MASK
              in if EndpointIndex = ENDPOINT_CONTROLEP then Some s
                 else
                   (let s = Endpoint_SelectEndpoint EndpointIndex s;
                        (enabled, s) = Endpoint_IsEnabled e s;
                        s = (if enabled then
                               if bRequest r = REQ_SetFeature then Endpoint_StallTransaction e s
                               else Endpoint_ResetDataToggle e (Endpoint_ResetEndpoint EndpointIndex (Endpoint_ClearStall e s))
                             else s)
                    in finish_feature e s))
           else finish_feature e s
         else Some s)"

subsection \<open>The dispatcher\<close>

definition read_request :: "env \<Rightarrow> usb_dev \<Rightarrow> usb_dev" where
  "read_request e s =
     (let (b0, s) = Endpoint_Read_8 e s; (b1, s) = Endpoint_Read_8 e s; (b2, s) = Endpoint_Read_8 e s;
          (b3, s) = Endpoint_Read_8 e s; (b4, s) = Endpoint_Read_8 e s; (b5, s) = Endpoint_Read_8 e s;
          (b6, s) = Endpoint_Read_8 e s; (b7, s) = Endpoint_Read_8 e s
      in s\<lparr>USB_ControlRequest := \<lparr>bmRequestType = b0, bRequest = b1, wValue = word16 [b2, b3],
             wIndex = word16 [b4, b5], wLength = word16 [b6, b7]\<rparr>\<rparr>)"

definition standard_request :: "env \<Rightarrow> image \<Rightarrow> usb_dev \<Rightarrow> usb_dev option" where
  "standard_request e im s =
     (let r = USB_ControlRequest s; t = bmRequestType r
      in if bRequest r = REQ_GetStatus then
           if t = REQDIR_DEVICETOHOST OR REQTYPE_STANDARD OR REQREC_DEVICE
             \<or> t = REQDIR_DEVICETOHOST OR REQTYPE_STANDARD OR REQREC_ENDPOINT
           then USB_Device_GetStatus e s else Some s
         else if bRequest r = REQ_ClearFeature \<or> bRequest r = REQ_SetFeature then
           if t = REQDIR_HOSTTODEVICE OR REQTYPE_STANDARD OR REQREC_DEVICE
             \<or> t = REQDIR_HOSTTODEVICE OR REQTYPE_STANDARD OR REQREC_ENDPOINT
           then USB_Device_ClearSetFeature e s else Some s
         else if bRequest r = REQ_SetAddress then
           if t = REQDIR_HOSTTODEVICE OR REQTYPE_STANDARD OR REQREC_DEVICE
           then USB_Device_SetAddress e s else Some s
         else if bRequest r = REQ_GetDescriptor then
           if t = REQDIR_DEVICETOHOST OR REQTYPE_STANDARD OR REQREC_DEVICE
             \<or> t = REQDIR_DEVICETOHOST OR REQTYPE_STANDARD OR REQREC_INTERFACE
           then USB_Device_GetDescriptor e im s else Some s
         else if bRequest r = REQ_GetConfiguration then
           if t = REQDIR_DEVICETOHOST OR REQTYPE_STANDARD OR REQREC_DEVICE
           then USB_Device_GetConfiguration e s else Some s
         else if bRequest r = REQ_SetConfiguration then
           if t = REQDIR_HOSTTODEVICE OR REQTYPE_STANDARD OR REQREC_DEVICE
           then USB_Device_SetConfiguration e s else Some s
         else Some s)"

definition USB_Device_ProcessControlRequest :: "env \<Rightarrow> image \<Rightarrow> usb_dev \<Rightarrow> usb_dev option" where
  "USB_Device_ProcessControlRequest e im s = do {
     s \<leftarrow> EVENT_USB_Device_ControlRequest e (read_request e s);
     let (setup, s) = Endpoint_IsSETUPReceived e s in do {
       s \<leftarrow> (if setup then standard_request e im s else Some s);
       let (setup, s) = Endpoint_IsSETUPReceived e s
       in Some (if setup then Endpoint_StallTransaction e (Endpoint_ClearSETUP e s) else s)
     }
   }"

subsection \<open>The USB task\<close>

definition USB_DeviceTask :: "env \<Rightarrow> image \<Rightarrow> usb_dev \<Rightarrow> usb_dev option" where
  "USB_DeviceTask e im s =
     (let (st, s) = rd e GPIOR0 s
      in if st = DEVICE_STATE_Unattached then Some s
         else
           (let (PrevEndpoint, s) = Endpoint_GetCurrentEndpoint e s;
                s = Endpoint_SelectEndpoint ENDPOINT_CONTROLEP s;
                (setup, s) = Endpoint_IsSETUPReceived e s
            in do {
              s \<leftarrow> (if setup then USB_Device_ProcessControlRequest e im s else Some s);
              Some (Endpoint_SelectEndpoint PrevEndpoint s)
            }))"

definition USB_USBTask :: "env \<Rightarrow> image \<Rightarrow> usb_dev \<Rightarrow> usb_dev option" where
  "USB_USBTask = USB_DeviceTask"

end
