(* ===== verification/Usb_Isr.thy ===== *)
theory Usb_Isr
  imports Device_Requests
begin

section \<open>Interrupt handlers and the standard stream: USBInterrupt\_AVR8.c, CDCClassDevice.c\<close>

text \<open>
  The general USB interrupt and the endpoint interrupt, as the build for the ATmega8U2 compiles them,
  and the functions behind a C \<^verbatim>\<open>FILE\<close> on the serial port. The events \<^verbatim>\<open>Connect\<close> and \<^verbatim>\<open>Disconnect\<close> of the
  application are empty, \<^verbatim>\<open>StartOfFrame\<close> and \<^verbatim>\<open>Reset\<close> are the empty stub of the library. A handler runs
  with interrupts off and is one function; the endpoint handler turns them on again around the
  request (\<^verbatim>\<open>GlobalInterruptEnable\<close>).
\<close>

definition EVENT_USB_Device_Connect :: "usb_dev \<Rightarrow> usb_dev" where
  "EVENT_USB_Device_Connect s = s"

definition EVENT_USB_Device_Disconnect :: "usb_dev \<Rightarrow> usb_dev" where
  "EVENT_USB_Device_Disconnect s = s"

definition USB_Event_Stub :: "usb_dev \<Rightarrow> usb_dev" where
  "USB_Event_Stub s = s"

text \<open>\<^verbatim>\<open>USB_INT_HasOccurred(i) && USB_INT_IsEnabled(i)\<close>.\<close>

definition int_pending :: "env \<Rightarrow> USB_Interrupts_t \<Rightarrow> usb_dev \<Rightarrow> bool \<times> usb_dev" where
  "int_pending e i s =
     (let (occurred, s) = USB_INT_HasOccurred e i s
      in if occurred then USB_INT_IsEnabled e i s else (False, s))"

definition gen_sof :: "env \<Rightarrow> usb_dev \<Rightarrow> usb_dev" where
  "gen_sof e s =
     (let (p, s) = int_pending e USB_INT_SOFI s
      in if p then USB_Event_Stub (USB_INT_Clear e USB_INT_SOFI s) else s)"

definition gen_suspend :: "env \<Rightarrow> usb_dev \<Rightarrow> usb_dev" where
  "gen_suspend e s =
     (let (p, s) = int_pending e USB_INT_SUSPI s
      in if p
         then (let s = USB_INT_Disable e USB_INT_SUSPI s;
                   s = USB_INT_Enable e USB_INT_WAKEUPI s;
                   s = USB_CLK_Freeze e s;
                   s = (if USB_Options AND USB_OPT_MANUAL_PLL = 0 then USB_PLL_Off s else s);
                   s = wr GPIOR0 DEVICE_STATE_Unattached s
               in EVENT_USB_Device_Disconnect s)
         else s)"

definition gen_wakeup :: "env \<Rightarrow> usb_dev \<Rightarrow> usb_dev option" where
  "gen_wakeup e s =
     (let (p, s) = int_pending e USB_INT_WAKEUPI s
      in if p
         then do {
           s \<leftarrow> (if USB_Options AND USB_OPT_MANUAL_PLL = 0 then wait_pll e (USB_PLL_On s) else Some s);
           let s = USB_CLK_Unfreeze e s;
               s = USB_INT_Clear e USB_INT_WAKEUPI s;
               s = USB_INT_Disable e USB_INT_WAKEUPI s;
               s = USB_INT_Enable e USB_INT_SUSPI s;
               s = (if USB_Device_ConfigurationNumber s \<noteq> 0 then wr GPIOR0 DEVICE_STATE_Configured s
                    else (let (set, s) = USB_Device_IsAddressSet e s
                          in wr GPIOR0 (if set then DEVICE_STATE_Configured else DEVICE_STATE_Powered) s))
           in Some (EVENT_USB_Device_Connect s)
         }
         else Some s)"

definition gen_reset :: "env \<Rightarrow> usb_dev \<Rightarrow> usb_dev option" where
  "gen_reset e s =
     (let (p, s) = int_pending e USB_INT_EORSTI s
      in if p
         then do {
           let s = USB_INT_Clear e USB_INT_EORSTI s;
               s = wr GPIOR0 DEVICE_STATE_Default s;
               s = s\<lparr>USB_Device_ConfigurationNumber := 0\<rparr>;
               s = USB_INT_Clear e USB_INT_SUSPI s;
               s = USB_INT_Disable e USB_INT_SUSPI s;
               s = USB_INT_Enable e USB_INT_WAKEUPI s
           in do {
             (ok, s) \<leftarrow> Endpoint_ConfigureEndpoint e ENDPOINT_CONTROLEP EP_TYPE_CONTROL USB_Device_ControlEndpointSize 1 s;
             Some (USB_Event_Stub (USB_INT_Enable e USB_INT_RXSTPI s))
           }
         }
         else Some s)"

definition USB_GEN_vect :: "env \<Rightarrow> usb_dev \<Rightarrow> usb_dev option" where
  "USB_GEN_vect e s = do {
     s \<leftarrow> gen_wakeup e (gen_suspend e (gen_sof e s));
     gen_reset e s
   }"

definition USB_COM_vect :: "env \<Rightarrow> image \<Rightarrow> usb_dev \<Rightarrow> usb_dev option" where
  "USB_COM_vect e im s =
     (let (PrevSelectedEndpoint, s) = Endpoint_GetCurrentEndpoint e s;
          s = Endpoint_SelectEndpoint ENDPOINT_CONTROLEP s;
          s = USB_INT_Disable e USB_INT_RXSTPI s;
          s = GlobalInterruptEnable s
      in do {
        s \<leftarrow> USB_Device_ProcessControlRequest e im s;
        Some (let s = Endpoint_SelectEndpoint ENDPOINT_CONTROLEP s;
                  s = USB_INT_Enable e USB_INT_RXSTPI s
              in Endpoint_SelectEndpoint PrevSelectedEndpoint s)
      })"

subsection \<open>A C stream on the serial port\<close>

definition FDEV_ERR :: int where "FDEV_ERR = - 1"
definition FDEV_EOF :: int where "FDEV_EOF = - 2"

definition CDC_Device_putchar :: "env \<Rightarrow> u8 \<Rightarrow> usb_dev \<Rightarrow> (int \<times> usb_dev) option" where
  "CDC_Device_putchar e c s = do {
     (code, s) \<leftarrow> CDC_Device_SendByte e c s;
     Some (if code \<noteq> 0 then FDEV_ERR else 0, s)
   }"

definition CDC_Device_getchar :: "env \<Rightarrow> usb_dev \<Rightarrow> int \<times> usb_dev" where
  "CDC_Device_getchar e s =
     (let (ReceivedByte, s) = CDC_Device_ReceiveByte e s
      in (if ReceivedByte < 0 then FDEV_EOF else ReceivedByte, s))"

partial_function (option) CDC_Device_getchar_Blocking :: "env \<Rightarrow> image \<Rightarrow> usb_dev \<Rightarrow> (int \<times> usb_dev) option" where
  "CDC_Device_getchar_Blocking e im s =
     (case CDC_Device_ReceiveByte e s of (ReceivedByte, s) \<Rightarrow>
       if ReceivedByte < 0
       then (case rd e GPIOR0 s of (st, s) \<Rightarrow>
         if st = DEVICE_STATE_Unattached then Some (FDEV_EOF, s)
         else Option.bind (CDC_Device_USBTask e s) (\<lambda>s.
           Option.bind (USB_USBTask e im s) (CDC_Device_getchar_Blocking e im)))
       else Some (ReceivedByte, s))"

declare CDC_Device_getchar_Blocking.simps [code]

end
