(* ===== verification/Firmware.thy ===== *)
theory Firmware
  imports Keypad Dial Lock_Control Ring_Buffer Usb_Isr
begin

section \<open>The application: c\_locc.c\<close>

text \<open>
  The main program. Its state \<open>fw\<close> extends the registers and globals of the lock control by the globals
  of \<^verbatim>\<open>c_locc.c\<close>, the static variables of its functions, the keypad, the dial and the USB device. The
  functions of the lock control return the characters they send; \<open>usb_puts\<close> passes them to
  \<^verbatim>\<open>usb_putc\<close>, in order. One call of \<open>loop\<close> is a frame: its arguments are the hardware behind the USB
  and SPI registers, the constants the linker placed, the word behind the telegram array, and the
  values the frame reads from \<^verbatim>\<open>PIND\<close> and, three times, from \<^verbatim>\<open>PINC\<close>.
\<close>

datatype protocol_state = WAIT_FOR_NEWLINE | WAIT_FOR_CMD_CHAR | WAIT_FOR_LED_NUMBER | WAIT_FOR_LED_VALUE

record fw = locc +
  WDTCSR :: u8
  CLKPR :: u8
  led_states :: u8
  is_locking :: bool
  p_state :: protocol_state
  cmd_target :: u8
  fw_keypad :: keypad
  fw_dial :: dial
  USB_input_Buffer :: RingBuffer_t
  USB_output_Buffer :: RingBuffer_t
  usb :: usb_dev

text \<open>The initialiser of the CDC interface.\<close>

definition cdc_interface_init :: USB_ClassInfo_CDC_Device_t where
  "cdc_interface_init = clear_cdc_state \<lparr>ControlInterfaceNumber = 0,
     DataINEndpoint = \<lparr>epAddress = CDC_TX_EPADDR, epSize = CDC_TXRX_EPSIZE, epType = 0, epBanks = 1\<rparr>,
     DataOUTEndpoint = \<lparr>epAddress = CDC_RX_EPADDR, epSize = CDC_TXRX_EPSIZE, epType = 0, epBanks = 1\<rparr>,
     NotificationEndpoint = \<lparr>epAddress = CDC_NOTIFICATION_EPADDR, epSize = CDC_NOTIFICATION_EPSIZE,
       epType = 0, epBanks = 1\<rparr>,
     HostToDevice = 0, DeviceToHost = 0,
     LineEncoding = \<lparr>BaudRateBPS = 0, CharFormat = 0, ParityType = 0, DataBits = 0\<rparr>\<rparr>"

definition zero_buffer :: RingBuffer_t where
  "zero_buffer = \<lparr>In = 0, Out = 0, Start = 0, End = 0, Size = 0, Count = 0\<rparr>"

text \<open>The state at reset: the initialisers of the globals, everything else zero.\<close>

definition fw_init :: fw where
  "fw_init = locc.extend locc_init
     (fw.fields 0 0 0x07 False WAIT_FOR_NEWLINE 0 keypad_init dial_init zero_buffer zero_buffer
       (zero_dev\<lparr>VirtualSerial_CDC_Interface := cdc_interface_init\<rparr>))"

subsection \<open>Output\<close>

definition usb_putc :: "env \<Rightarrow> u8 \<Rightarrow> fw \<Rightarrow> fw option" where
  "usb_putc e c s = do {
     (code, u) \<leftarrow> CDC_Device_SendByte e c (usb s);
     Some (s\<lparr>usb := u\<rparr>)
   }"

fun usb_puts :: "env \<Rightarrow> u8 list \<Rightarrow> fw \<Rightarrow> fw option" where
  "usb_puts e [] s = Some s"
| "usb_puts e (c # cs) s = do { s \<leftarrow> usb_putc e c s; usb_puts e cs s }"

definition hex_digit :: "u8 \<Rightarrow> u8" where
  "hex_digit h = (if h < 0xA then h + ch (CHR ''0'') else h + ch (CHR ''A'') - 0xA)"

definition usb_puthex :: "env \<Rightarrow> u8 \<Rightarrow> fw \<Rightarrow> fw option" where
  "usb_puthex e c s =
     (let h = drop_bit 4 c; l = c AND 0xF
      in do { s \<leftarrow> usb_putc e (hex_digit h) s; usb_putc e (hex_digit l) s })"

subsection \<open>LEDs and shift register\<close>

definition set_led :: "u8 \<Rightarrow> u8 \<Rightarrow> 'a fw_scheme \<Rightarrow> 'a fw_scheme" where
  "set_led num val s =
     (if num < 3
      then (let s = s\<lparr>led_states := led_states s AND NOT (push_bit (unat num) 1)\<rparr>
            in s\<lparr>led_states := led_states s OR push_bit (unat num) (if val = 0 then 1 else 0)\<rparr>)
      else s)"

definition shiftreg_out :: "env \<Rightarrow> fw \<Rightarrow> fw option" where
  "shiftreg_out e s =
     (let s = s\<lparr>SPDR := led_states s OR (0xF0 AND NOT (matrix_selector (fw_keypad s)))\<rparr>
      in do {
        u \<leftarrow> wait_bit e SPSR SPIF (usb s);
        Some (let s = s\<lparr>usb := u\<rparr>;
                  s = s\<lparr>PORTD := PORTD s AND NOT 0x10\<rparr>
              in s\<lparr>PORTD := PORTD s OR 0x10\<rparr>)
      })"

subsection \<open>The command parser\<close>

definition handle_user_input :: "u8 \<Rightarrow> 'a fw_scheme \<Rightarrow> int \<times> u8 list \<times> 'a fw_scheme" where
  "handle_user_input c s =
     (case p_state s of
        WAIT_FOR_NEWLINE \<Rightarrow>
          if c = ch (CHR 0x0A) \<or> c = ch (CHR 0x0D) then (0, [], s\<lparr>p_state := WAIT_FOR_CMD_CHAR\<rparr>) else (0, [], s)
      | WAIT_FOR_CMD_CHAR \<Rightarrow>
          if c = ch (CHR ''o'') then (1, [ch (CHR ''O'')], s\<lparr>p_state := WAIT_FOR_NEWLINE\<rparr>)
          else if c = ch (CHR ''l'') then (0, [], s\<lparr>p_state := WAIT_FOR_LED_NUMBER\<rparr>)
          else if c = ch (CHR ''h'') then (0, [], s)
          else if c = ch (CHR ''i'') then (0, [], s)
          else if c = ch (CHR 0x0A) \<or> c = ch (CHR 0x0D) then (0, [ch (CHR 0x0D)], s)
          else (0, [], s\<lparr>p_state := WAIT_FOR_NEWLINE\<rparr>)
      | WAIT_FOR_LED_NUMBER \<Rightarrow> (0, [], s\<lparr>cmd_target := c, p_state := WAIT_FOR_LED_VALUE\<rparr>)
      | WAIT_FOR_LED_VALUE \<Rightarrow>
          (0, [], (set_led (cmd_target s - ch (CHR ''0'')) (c - ch (CHR ''0'')) s)\<lparr>p_state := WAIT_FOR_NEWLINE\<rparr>))"

subsection \<open>A frame\<close>

definition frame_input :: "env \<Rightarrow> fw \<Rightarrow> (int \<times> fw) option" where
  "frame_input e s =
     (let (receive_status, u) = CDC_Device_ReceiveByte e (usb s);
          s = s\<lparr>usb := select_in u\<rparr>;
          c = word_of_int receive_status :: u8
      in if \<not> receive_status < 0
         then (let (command, out, s) = handle_user_input c s
               in do { s \<leftarrow> usb_puts e out s; Some (command, s) })
         else Some (0, s))"

definition frame_lock :: "env \<Rightarrow> u16 \<Rightarrow> int \<Rightarrow> fw \<Rightarrow> fw option" where
  "frame_lock e past command s = do {
     s \<leftarrow> (if \<not> is_locking s \<and> command = 1
          then do {
            s \<leftarrow> usb_putc e (ch (CHR ''O'')) s;
            Some (start_locking (s\<lparr>is_locking := True\<rparr>))
          }
          else Some s);
     if is_locking s
     then (let (out, r, s) = do_next_locc_step past s
           in do { s \<leftarrow> usb_puts e out s; Some (s\<lparr>is_locking := r\<rparr>) })
     else Some s
   }"

definition frame_scan :: "env \<Rightarrow> u8 \<Rightarrow> u8 \<times> u8 \<times> u8 \<Rightarrow> fw \<Rightarrow> fw option" where
  "frame_scan e pind pinc s =
     (let (pressed_key, k) = keypad_scan pind (fw_keypad s);
          s = s\<lparr>fw_keypad := k\<rparr>
      in do {
        s \<leftarrow> (if pressed_key \<noteq> 0 then usb_putc e pressed_key s else Some s);
        let (dialled_number, d) = dial_scan pinc (fw_dial s);
            s = s\<lparr>fw_dial := d\<rparr>
        in if dialled_number \<noteq> 0 then usb_putc e dialled_number s else Some s
      })"

definition frame_usb :: "env \<Rightarrow> image \<Rightarrow> fw \<Rightarrow> fw option" where
  "frame_usb e im s = do {
     u \<leftarrow> CDC_Device_USBTask e (usb s);
     u \<leftarrow> USB_USBTask e im u;
     Some (s\<lparr>usb := u\<rparr>)
   }"

definition loop :: "env \<Rightarrow> image \<Rightarrow> u16 \<Rightarrow> u8 \<Rightarrow> u8 \<times> u8 \<times> u8 \<Rightarrow> fw \<Rightarrow> fw option" where
  "loop e im past pind pinc s = do {
     (command, s) \<leftarrow> frame_input e s;
     s \<leftarrow> frame_lock e past command s;
     s \<leftarrow> frame_scan e pind pinc s;
     s \<leftarrow> shiftreg_out e (delay_us 8 s);
     s \<leftarrow> frame_usb e im s;
     Some (delay_us 255 s)
   }"

subsection \<open>Start-up\<close>

definition WDRF :: nat where "WDRF = 3"

definition setup_fw :: "env \<Rightarrow> u16 \<Rightarrow> u16 \<Rightarrow> fw \<Rightarrow> fw option" where
  "setup_fw e USB_input_Buffer_Data USB_output_Buffer_Data s =
     (let s = s\<lparr>MCUSR := cbi WDRF (MCUSR s)\<rparr>;
          s = s\<lparr>WDTCSR := 0\<rparr>;
          s = s\<lparr>CLKPR := 0\<rparr>;
          s = s\<lparr>DDRB := DDRB s OR 0x07\<rparr>;
          s = s\<lparr>DDRD := DDRD s OR 0x10\<rparr>;
          s = s\<lparr>PORTD := PORTD s OR 0x10\<rparr>;
          s = s\<lparr>SPCR := push_bit 6 1 OR push_bit 4 1 OR push_bit 3 1 OR push_bit 2 1\<rparr>
      in do {
        u \<leftarrow> USB_Init e (usb s);
        let (b, u) = RingBuffer_InitBuffer USB_input_Buffer_Data 128 u;
            s = s\<lparr>USB_input_Buffer := b\<rparr>;
            (b, u) = RingBuffer_InitBuffer USB_output_Buffer_Data 128 u;
            s = s\<lparr>USB_output_Buffer := b\<rparr>;
            s = dial_setup s;
            s = loccSetup s;
            s = keypad_setup s
        in Some (s\<lparr>usb := GlobalInterruptEnable u\<rparr>)
      })"

text \<open>
  \<^verbatim>\<open>main\<close> never returns; \<open>main_frames\<close> is the state after its set-up and a number of frames, given by
  the pin values they read.
\<close>

fun frames_fw :: "env \<Rightarrow> image \<Rightarrow> u16 \<Rightarrow> (u8 \<times> u8 \<times> u8 \<times> u8) list \<Rightarrow> fw \<Rightarrow> fw option" where
  "frames_fw e im past [] s = Some s"
| "frames_fw e im past ((pind, pinc) # ins) s = do { s \<leftarrow> loop e im past pind pinc s; frames_fw e im past ins s }"

definition main_frames :: "env \<Rightarrow> image \<Rightarrow> u16 \<Rightarrow> u16 \<Rightarrow> u16 \<Rightarrow> (u8 \<times> u8 \<times> u8 \<times> u8) list \<Rightarrow> fw \<Rightarrow> fw option" where
  "main_frames e im past b1 b2 ins s = do { s \<leftarrow> setup_fw e b1 b2 s; frames_fw e im past ins s }"

end
