(* ===== verification/Control_Facts.thy ===== *)
theory Control_Facts
  imports Stream_Facts
begin

section \<open>The data stage of a control transfer\<close>

text \<open>
  What \<^verbatim>\<open>Endpoint_Write_Control_*\<close> puts on the bus. \<open>bank\<close> reads a history as the packets handed to the
  controller (a write to \<^verbatim>\<open>UEINTX\<close> that clears \<^verbatim>\<open>TXINI\<close> sends the bank) and the bytes still in the bank.
  \<open>host_takes\<close> is a host that accepts the data stage: it stays attached, sends no new request, empties a
  bank it was given, and starts the status stage only after \<open>N\<close> bytes, but then does so.
\<close>

fun bank :: "io list \<Rightarrow> u8 list list \<times> u8 list" where
  "bank [] = ([], [])"
| "bank (Rd r v # h) = bank h"
| "bank (Wr r v # h) = (let (ps, b) = bank h in
     if r = UEDATX then (ps, b @ [v]) else if r = UEINTX \<and> \<not> bit v TXINI then (ps @ [b], []) else (ps, b))"

function chunks :: "'a list \<Rightarrow> 'a list list" where
  "chunks xs = (if xs = [] then [] else take 8 xs # chunks (drop 8 xs))"
  by pat_completeness auto
termination
  by (relation "measure length") auto

declare chunks.simps [simp del]

definition quiet :: "io list \<Rightarrow> bool" where
  "quiet h \<longleftrightarrow> (\<forall>r. writes r h = [])"

definition comes :: "env \<Rightarrow> nat \<Rightarrow> io list \<Rightarrow> bool" where
  "comes e n h \<longleftrightarrow> (\<exists>k. \<forall>h'. quiet h' \<and> k \<le> length h' \<longrightarrow> bit (e (h' @ h) UEINTX) n)"

definition host_takes :: "env \<Rightarrow> nat \<Rightarrow> bool" where
  "host_takes e N \<longleftrightarrow>
     (\<forall>h. e h GPIOR0 \<noteq> DEVICE_STATE_Unattached \<and> e h GPIOR0 \<noteq> DEVICE_STATE_Suspended)
     \<and> (\<forall>h. \<not> bit (e h UEINTX) RXSTPI)
     \<and> (\<forall>h v. bit v TXINI \<longrightarrow> e (Rd UEINTX v # h) UEBCLX = 0)
     \<and> (\<forall>h. length (writes UEDATX h) < N \<longrightarrow> \<not> bit (e h UEINTX) RXOUTI)
     \<and> (\<forall>h. comes e TXINI h)
     \<and> (\<forall>h. N \<le> length (writes UEDATX h) \<longrightarrow> comes e RXOUTI h)"

subsection \<open>Histories\<close>

lemma quiet_simps [simp]: "quiet []" "quiet (Rd r v # h) \<longleftrightarrow> quiet h" "quiet (h @ h') \<longleftrightarrow> quiet h \<and> quiet h'"
  by (auto simp: quiet_def)

lemma quiet_writes [simp]: "quiet h \<Longrightarrow> writes r h = []"
  by (simp add: quiet_def)

lemma quiet_Wr [simp]: "\<not> quiet (Wr r v # h)"
  by (auto simp: quiet_def)

lemma bank_append: "snd (bank h) = [] \<Longrightarrow> bank (g @ h) = (fst (bank h) @ fst (bank g), snd (bank g))"
proof (induction g)
  case Nil
  then show ?case by (simp add: prod_eq_iff)
next
  case (Cons a g)
  then show ?case by (cases a) (auto simp: Let_def split: prod.splits)
qed

lemma bank_quiet [simp]: "quiet h \<Longrightarrow> bank h = ([], [])"
proof (induction h)
  case (Cons a h)
  then show ?case by (cases a) auto
qed simp

lemma bank_bytes: "bank (map (Wr UEDATX) (rev bs)) = ([], bs)"
  by (induction bs rule: rev_induct) simp_all

lemma writes_bytes: "writes r (map (Wr UEDATX) (rev bs)) = (if r = UEDATX then bs else [])"
  by (induction bs rule: rev_induct) auto

lemma chunks_step: "xs \<noteq> [] \<Longrightarrow> length xs \<le> 8 \<Longrightarrow> chunks xs = [xs]"
  by (subst chunks.simps) (simp add: chunks.simps)

lemma chunks_append: "length xs = 8 \<Longrightarrow> chunks (xs @ ys) = xs # chunks ys"
  by (subst chunks.simps) auto

subsection \<open>One turn of the loop\<close>

lemma control_write_turn:
  assumes host: "host_takes e N" and go: "L \<noteq> 0 \<or> lf"
  shows "control_write_loop m e p L lf s =
    (let h = hist s; h1 = Rd GPIOR0 (e h GPIOR0) # h; h2 = Rd UEINTX (e h1 UEINTX) # h1; v = e h2 UEINTX;
         h3 = Rd UEINTX v # h2; w = e h3 UEINTX
     in if bit v RXOUTI then Some (None, s\<lparr>hist := h3\<rparr>)
        else if bit w TXINI
        then (case fill_bank m e p L 0 (s\<lparr>hist := Rd UEBCLX 0 # Rd UEINTX w # h3\<rparr>) of (p', L', b', s') \<Rightarrow>
          control_write_loop m e p' L' (b' = 8) (Endpoint_ClearIN e s'))
        else control_write_loop m e p L lf (s\<lparr>hist := Rd UEINTX w # h3\<rparr>))"
proof -
  have st: "e h GPIOR0 \<noteq> DEVICE_STATE_Unattached" "e h GPIOR0 \<noteq> DEVICE_STATE_Suspended" "\<not> bit (e h UEINTX) RXSTPI"
    "bit v TXINI \<Longrightarrow> e (Rd UEINTX v # h) UEBCLX = 0" for h v
    using host by (simp_all add: host_takes_def)
  show ?thesis using go st
    by (subst control_write_loop.simps)
      (simp add: Endpoint_IsSETUPReceived_def Endpoint_IsOUTReceived_def Endpoint_IsINReady_def test_bit_io_def
        rd_def Let_def Endpoint_BytesInEndpoint_def USB_Device_ControlEndpointSize_def)
qed

text \<open>Polling ends: the host either starts the status stage or has emptied the bank.\<close>

lemma control_write_poll:
  assumes host: "host_takes e N" and go: "L \<noteq> 0 \<or> lf"
  shows "\<exists>g. quiet g \<and>
    ((N \<le> length (writes UEDATX (hist s)) \<and> control_write_loop m e p L lf s = Some (None, s\<lparr>hist := g @ hist s\<rparr>))
     \<or> (\<exists>w. bit w TXINI \<and> control_write_loop m e p L lf s =
        (case fill_bank m e p L 0 (s\<lparr>hist := Rd UEBCLX 0 # Rd UEINTX w # g @ hist s\<rparr>) of (p', L', b', s') \<Rightarrow>
          control_write_loop m e p' L' (b' = 8) (Endpoint_ClearIN e s'))))"
    (is "\<exists>g. quiet g \<and> (?out s g \<or> ?fill s g)")
proof -
  have "comes e TXINI (hist s)" using host by (simp add: host_takes_def)
  then obtain k where k: "\<And>h'. quiet h' \<Longrightarrow> k \<le> length h' \<Longrightarrow> bit (e (h' @ hist s) UEINTX) TXINI"
    unfolding comes_def by blast
  have "\<exists>g. quiet g \<and>
    ((N \<le> length (writes UEDATX (hist s))
        \<and> control_write_loop m e p L lf (s\<lparr>hist := q @ hist s\<rparr>) = Some (None, s\<lparr>hist := g @ hist s\<rparr>))
     \<or> (\<exists>w. bit w TXINI \<and> control_write_loop m e p L lf (s\<lparr>hist := q @ hist s\<rparr>) =
        (case fill_bank m e p L 0 (s\<lparr>hist := Rd UEBCLX 0 # Rd UEINTX w # g @ hist s\<rparr>) of (p', L', b', s') \<Rightarrow>
          control_write_loop m e p' L' (b' = 8) (Endpoint_ClearIN e s'))))" if "quiet q" for q
    using that
  proof (induction "k - length q" arbitrary: q rule: less_induct)
    case less
    define h where "h = q @ hist s"
    define h1 where "h1 = Rd GPIOR0 (e h GPIOR0) # h"
    define h2 where "h2 = Rd UEINTX (e h1 UEINTX) # h1"
    define v where "v = e h2 UEINTX"
    define h3 where "h3 = Rd UEINTX v # h2"
    define w where "w = e h3 UEINTX"
    note hs = h3_def h2_def h1_def h_def
    define g0 where "g0 = [Rd UEINTX v, Rd UEINTX (e h1 UEINTX), Rd GPIOR0 (e h GPIOR0)] @ q"
    have h3: "h3 = g0 @ hist s" and g: "quiet g0" using less.prems by (simp_all add: hs g0_def)
    have turn: "control_write_loop m e p L lf (s\<lparr>hist := q @ hist s\<rparr>) =
      (if bit v RXOUTI then Some (None, s\<lparr>hist := h3\<rparr>)
       else if bit w TXINI
       then (case fill_bank m e p L 0 (s\<lparr>hist := Rd UEBCLX 0 # Rd UEINTX w # h3\<rparr>) of (p', L', b', s') \<Rightarrow>
          control_write_loop m e p' L' (b' = 8) (Endpoint_ClearIN e s'))
       else control_write_loop m e p L lf (s\<lparr>hist := Rd UEINTX w # h3\<rparr>))"
      by (subst control_write_turn [OF host go]) (simp add: Let_def w_def v_def hs)
    consider "bit v RXOUTI" | "\<not> bit v RXOUTI" "bit w TXINI" | "\<not> bit v RXOUTI" "\<not> bit w TXINI" by blast
    then show ?case
    proof cases
      case 1
      then have "\<not> length (writes UEDATX h2) < N" using host unfolding v_def host_takes_def by blast
      then have "N \<le> length (writes UEDATX (hist s))" using less.prems by (simp add: hs)
      then show ?thesis using turn 1 g unfolding h3 by (intro exI [of _ g0]) auto
    next
      case 2
      then show ?thesis using turn g unfolding h3 by (intro exI [of _ g0]) auto
    next
      case 3
      then have "\<not> k \<le> length g0" using k [OF g] unfolding w_def h3 by blast
      then have lt: "k - length (Rd UEINTX w # g0) < k - length q" by (simp add: g0_def)
      have "s\<lparr>hist := Rd UEINTX w # h3\<rparr> = s\<lparr>hist := (Rd UEINTX w # g0) @ hist s\<rparr>" using h3 by simp
      then have eq: "control_write_loop m e p L lf (s\<lparr>hist := q @ hist s\<rparr>)
          = control_write_loop m e p L lf (s\<lparr>hist := (Rd UEINTX w # g0) @ hist s\<rparr>)"
        using turn 3 by simp
      show ?thesis unfolding eq by (rule less.hyps [OF lt]) (use g in simp)
    qed
  qed
  from this [of "[]"] show ?thesis by simp
qed

text \<open>Waiting for the status stage.\<close>

lemma wait_status_comes:
  assumes attached: "\<And>h. e h GPIOR0 \<noteq> DEVICE_STATE_Unattached \<and> e h GPIOR0 \<noteq> DEVICE_STATE_Suspended"
    and com: "comes e n (hist s)"
  shows "\<exists>g. quiet g \<and> wait_status e n s = Some (0, s\<lparr>hist := g @ hist s\<rparr>)"
proof -
  obtain k where k: "\<And>h'. quiet h' \<Longrightarrow> k \<le> length h' \<Longrightarrow> bit (e (h' @ hist s) UEINTX) n"
    using com unfolding comes_def by blast
  have "\<exists>g. quiet g \<and> wait_status e n (s\<lparr>hist := q @ hist s\<rparr>) = Some (0, s\<lparr>hist := g @ hist s\<rparr>)" if "quiet q" for q
    using that
  proof (induction "k - length q" arbitrary: q rule: less_induct)
    case less
    define v where "v = e (q @ hist s) UEINTX"
    define h1 where "h1 = Rd UEINTX v # q @ hist s"
    define q1 where "q1 = [Rd GPIOR0 (e h1 GPIOR0), Rd UEINTX v] @ q"
    have turn: "wait_status e n (s\<lparr>hist := q @ hist s\<rparr>) = (if bit v n then Some (0, s\<lparr>hist := h1\<rparr>)
        else wait_status e n (s\<lparr>hist := q1 @ hist s\<rparr>))"
      using attached [of h1]
      by (subst wait_status.simps) (simp add: test_bit_io_def rd_def Let_def v_def h1_def q1_def stream_consts)
    show ?case
    proof (cases "bit v n")
      case True
      then show ?thesis using turn less.prems by (intro exI [of _ "Rd UEINTX v # q"]) (simp add: h1_def)
    next
      case False
      then have "\<not> k \<le> length q" using k [OF less.prems] v_def by blast
      then have "k - length q1 < k - length q" by (simp add: q1_def)
      moreover have "quiet q1" using less.prems by (simp add: q1_def)
      ultimately show ?thesis using turn False less.hyps by simp
    qed
  qed
  from this [of "[]"] show ?thesis by simp
qed

subsection \<open>The whole data stage\<close>

lemma clear_in_eq: "Endpoint_ClearIN e s =
  s\<lparr>hist := [Wr UEINTX (e (hist s) UEINTX AND NOT 0x81), Rd UEINTX (e (hist s) UEINTX)] @ hist s\<rparr>"
  by (simp add: Endpoint_ClearIN_def clear_mask_io_def rd_def wr_def Let_def)

lemma cleared_txini [simp]: "\<not> bit (v AND - 130 :: u8) 0"
  by (simp add: bit_and_iff)

context writer
begin

lemma length_sent [simp]: "length (sent p k s) = k"
  by (simp add: sent_def)

lemma sent_hist [simp]: "sent p k (s\<lparr>hist := h\<rparr>) = sent p k s"
  by (simp add: sent_def space_hist)

lemma sent_add: "sent p (i + j) s = sent p i s @ sent (p + d * of_nat i) j s"
  by (induction i arbitrary: p) (simp_all add: sent_Suc distrib_left add.assoc, simp add: sent_def)

lemma fill_bank_eq:
  "b \<le> 8 \<Longrightarrow> k = min (unat L) (8 - unat b) \<Longrightarrow> fill_bank m e p L b s =
    (p + d * of_nat k, L - of_nat k, b + of_nat k, s\<lparr>hist := map (Wr UEDATX) (rev (sent p k s)) @ hist s\<rparr>)"
proof (induction k arbitrary: p L b s)
  case 0
  then have "L = 0 \<or> \<not> b < 8" by (auto simp: min_def unat_eq_0 word_less_nat_alt split: if_splits)
  then show ?case by (subst fill_bank.simps) (auto simp: USB_Device_ControlEndpointSize_def sent_def)
next
  case (Suc k)
  then have go: "L \<noteq> 0" "b < 8" by (auto simp: word_less_nat_alt)
  have L: "unat (L - 1) = unat L - 1" using go by (simp add: unat_pred)
  have b: "unat (b + 1) = Suc (unat b)" using go(2) by (rule unat_succ)
  have "fill_bank m e p L b s = fill_bank m e (p + d) (L - 1) (b + 1) (TRANSFER_BYTE m e p s)"
    using go by (subst fill_bank.simps) (simp add: USB_Device_ControlEndpointSize_def move)
  also have "\<dots> = (p + d + d * of_nat k, L - 1 - of_nat k, b + 1 + of_nat k, (TRANSFER_BYTE m e p s)
      \<lparr>hist := map (Wr UEDATX) (rev (sent (p + d) k (TRANSFER_BYTE m e p s))) @ hist (TRANSFER_BYTE m e p s)\<rparr>)"
    using Suc.prems go b L by (intro Suc.IH) (auto simp: word_le_nat_alt word_less_nat_alt)
  finally show ?case by (simp add: transfer_step sent_Suc algebra_simps)
qed

lemma control_write_last:
  assumes host: "host_takes e N"
  shows "\<exists>h z. control_write_loop m e p 0 True s = Some (None, s\<lparr>hist := h @ hist s\<rparr>) \<and> writes UEDATX h = []
    \<and> bank h = (z, []) \<and> (z = [] \<or> z = [[]])"
proof -
  have fill: "fill_bank m e p 0 0 s = (p, 0, 0, s)" for s by (subst fill_bank.simps) simp
  have stop: "control_write_loop m e p 0 False s = Some (None, s)" for s by (subst control_write_loop.simps) simp
  obtain g where g: "quiet g" and "control_write_loop m e p 0 True s = Some (None, s\<lparr>hist := g @ hist s\<rparr>)
     \<or> (\<exists>w. control_write_loop m e p 0 True s =
        (case fill_bank m e p 0 0 (s\<lparr>hist := Rd UEBCLX 0 # Rd UEINTX w # g @ hist s\<rparr>) of (p', L', b', s') \<Rightarrow>
          control_write_loop m e p' L' (b' = 8) (Endpoint_ClearIN e s')))"
    using control_write_poll [OF host, of 0 True s m p] by blast
  then consider "control_write_loop m e p 0 True s = Some (None, s\<lparr>hist := g @ hist s\<rparr>)"
    | w where "control_write_loop m e p 0 True s
        = Some (None, Endpoint_ClearIN e (s\<lparr>hist := Rd UEBCLX 0 # Rd UEINTX w # g @ hist s\<rparr>))"
    by (auto simp: fill stop)
  then show ?thesis
  proof cases
    case 1
    then show ?thesis using g by (intro exI [of _ g] exI [of _ "[]"]) simp
  next
    case 2
    let ?s = "s\<lparr>hist := Rd UEBCLX 0 # Rd UEINTX w # g @ hist s\<rparr>"
    show ?thesis using 2 g unfolding clear_in_eq
      by (intro exI [of _ "[Wr UEINTX (e (hist ?s) UEINTX AND NOT 0x81), Rd UEINTX (e (hist ?s) UEINTX),
          Rd UEBCLX 0, Rd UEINTX w] @ g"] exI [of _ "[[]]"]) simp
  qed
qed

lemma control_write_data:
  assumes host: "host_takes e N"
  shows "length (writes UEDATX (hist s)) + unat L = N \<Longrightarrow>
    \<exists>h z. control_write_loop m e p L lf s = Some (None, s\<lparr>hist := h @ hist s\<rparr>)
      \<and> writes UEDATX h = sent p (unat L) s \<and> bank h = (chunks (sent p (unat L) s) @ z, [])
      \<and> (z = [] \<or> z = [[]] \<and> (if L = 0 then lf else 8 dvd unat L))"
proof (induction "unat L" arbitrary: p L lf s rule: less_induct)
  case less
  show ?case
  proof (cases "L = 0")
    case True
    have stop: "control_write_loop m e p 0 False s = Some (None, s)" by (subst control_write_loop.simps) simp
    have "chunks (sent p 0 s) = []" by (simp add: sent_def chunks.simps)
    then show ?thesis using True stop control_write_last [OF host, of p s]
      by (cases lf) (auto simp: sent_def intro!: exI [of _ "[]"])
  next
    case False
    define k where "k = min (unat L) 8"
    have "unat L \<noteq> 0" using False by (simp add: unat_eq_0)
    then have k: "0 < k" "k \<le> unat L" "k \<le> 8" by (auto simp: k_def)
    have L': "unat (L - of_nat k) = unat L - k"
      using k by (subst unat_sub) (auto simp: word_le_nat_alt unsigned_of_nat take_bit_nat_eq_self)
    have b: "((0 :: u16) + of_nat k = 8) = (k = 8)"
      using k by (auto simp: word_unat_eq_iff unsigned_of_nat take_bit_nat_eq_self)
    from less.prems \<open>unat L \<noteq> 0\<close> have "\<not> N \<le> length (writes UEDATX (hist s))" by simp
    then obtain g w where g: "quiet g" and loop: "control_write_loop m e p L lf s =
        (case fill_bank m e p L 0 (s\<lparr>hist := Rd UEBCLX 0 # Rd UEINTX w # g @ hist s\<rparr>) of (p', L', b', s') \<Rightarrow>
          control_write_loop m e p' L' (b' = 8) (Endpoint_ClearIN e s'))"
      using control_write_poll [OF host, of L lf s m p] False by blast
    define h1 where "h1 = map (Wr UEDATX) (rev (sent p k s)) @ [Rd UEBCLX 0, Rd UEINTX w] @ g"
    have "fill_bank m e p L 0 (s\<lparr>hist := Rd UEBCLX 0 # Rd UEINTX w # g @ hist s\<rparr>)
        = (p + d * of_nat k, L - of_nat k, 0 + of_nat k, s\<lparr>hist := h1 @ hist s\<rparr>)"
      by (subst fill_bank_eq [of _ k]) (simp_all add: k_def h1_def)
    then have loop: "control_write_loop m e p L lf s
        = control_write_loop m e (p + d * of_nat k) (L - of_nat k) (k = 8) (Endpoint_ClearIN e (s\<lparr>hist := h1 @ hist s\<rparr>))"
      using loop b by simp
    define u where "u = e (h1 @ hist s) UEINTX"
    define h2 where "h2 = [Wr UEINTX (u AND NOT 0x81), Rd UEINTX u] @ h1"
    have clr: "Endpoint_ClearIN e (s\<lparr>hist := h1 @ hist s\<rparr>) = s\<lparr>hist := h2 @ hist s\<rparr>"
      by (simp add: clear_in_eq h2_def u_def)
    have w1: "writes UEDATX h1 = sent p k s" using g by (simp add: h1_def writes_bytes)
    have b1: "bank h1 = ([], sent p k s)"
      using g unfolding h1_def by (subst bank_append) (simp_all add: bank_bytes)
    have w2: "writes UEDATX h2 = sent p k s" by (simp add: h2_def w1)
    have b2: "bank h2 = ([sent p k s], [])" by (simp add: h2_def b1)
    let ?q = "p + d * of_nat k"
    have lt: "unat (L - of_nat k) < unat L" and N: "length (writes UEDATX (hist (s\<lparr>hist := h2 @ hist s\<rparr>))) + unat (L - of_nat k) = N"
      using less.prems k L' w2 by simp_all
    from less.hyps [OF lt N, of ?q "k = 8"]
    obtain h z where "control_write_loop m e p L lf s = Some (None, s\<lparr>hist := (h @ h2) @ hist s\<rparr>)"
      "writes UEDATX h = sent ?q (unat (L - of_nat k)) s" "bank h = (chunks (sent ?q (unat (L - of_nat k)) s) @ z, [])"
      and z: "z = [] \<or> z = [[]] \<and> (if L - of_nat k = 0 then k = 8 else 8 dvd unat (L - of_nat k))"
      unfolding loop clr by auto
    note h = this(1) this(2,3) [unfolded L'] and z = z [unfolded L']
    have split: "sent p (unat L) s = sent p k s @ sent ?q (unat L - k) s" using sent_add [of p k "unat L - k" s] k by simp
    have z8: "z = [] \<or> z = [[]] \<and> 8 dvd unat L"
    proof (cases "unat L - k = 0")
      case True
      then have "L - of_nat k = 0" using L' by (simp add: unat_eq_0)
      then show ?thesis using z True k by (auto simp: k_def)
    next
      case False
      then have "k = 8" "L - of_nat k \<noteq> 0" using L' by (auto simp: k_def)
      then show ?thesis using z k by (auto simp: dvd_minus_self)
    qed
    have "chunks (sent p (unat L) s) = sent p k s # chunks (sent ?q (unat L - k) s)"
    proof (cases "k = 8")
      case True
      then show ?thesis unfolding split by (intro chunks_append) simp
    next
      case False
      then have "unat L - k = 0" by (auto simp: k_def)
      then show ?thesis unfolding split using k by (simp add: chunks_step sent_def chunks.simps [of "[]"])
    qed
    moreover have "bank (h @ h2) = ([sent p k s] @ chunks (sent ?q (unat L - k) s) @ z, [])"
      by (subst bank_append) (simp_all add: b2 h(3))
    moreover have "writes UEDATX (h @ h2) = sent p (unat L) s" using h(2) w2 split by simp
    ultimately show ?thesis using h(1) z8 False by (intro exI [of _ "h @ h2"] exI [of _ z]) simp
  qed
qed

lemma control_write_correct:
  assumes ne: "Length \<noteq> 0" and n: "n = min (unat Length) (unat (wLength (USB_ControlRequest s)))"
    and host: "host_takes e (length (writes UEDATX (hist s)) + n)"
    and data: "data = sent (Buffer + BUFFER_OFFSET m Length) n s"
  shows "\<exists>h z. control_write m e Buffer Length s = Some (0, s\<lparr>hist := h @ hist s\<rparr>) \<and> writes UEDATX h = data
    \<and> bank h = (chunks data @ z, []) \<and> (z = [] \<or> z = [[]] \<and> 8 dvd n \<and> n \<noteq> 0)"
proof -
  define L where "L = (if Length > wLength (USB_ControlRequest s) then wLength (USB_ControlRequest s) else Length)"
  have L: "unat L = n" by (auto simp: L_def n word_less_nat_alt)
  obtain h z where loop: "control_write_loop m e (Buffer + BUFFER_OFFSET m Length) L False s
      = Some (None, s\<lparr>hist := h @ hist s\<rparr>)"
    and h: "writes UEDATX h = data" "bank h = (chunks data @ z, [])"
    and z: "z = [] \<or> z = [[]] \<and> (if L = 0 then False else 8 dvd n)"
    using control_write_data [OF host, of s L "Buffer + BUFFER_OFFSET m Length" False] L data by auto
  let ?s = "s\<lparr>hist := h @ hist s\<rparr>"
  have "comes e RXOUTI (hist ?s)" using host h(1) data by (simp add: host_takes_def)
  then obtain g where g: "quiet g" "wait_status e RXOUTI ?s = Some (0, s\<lparr>hist := (g @ h) @ hist s\<rparr>)"
    using wait_status_comes [of e RXOUTI ?s] host unfolding host_takes_def by auto
  have "control_write m e Buffer Length s = Some (0, s\<lparr>hist := (g @ h) @ hist s\<rparr>)"
    using loop g ne by (auto simp: control_write_def L_def split: if_splits)
  moreover have "bank (g @ h) = (chunks data @ z, [])" by (subst bank_append) (use g h in simp_all)
  moreover have "n \<noteq> 0 \<longleftrightarrow> L \<noteq> 0" using L unat_eq_0 [of L] by metis
  ultimately show ?thesis using h(1) g(1) z
    by (intro exI [of _ "g @ h"] exI [of _ z]) auto
qed

end

text \<open>The functions that send the data stage of a control transfer, with their space and direction.\<close>

definition control_writes :: "(control_fun \<times> (usb_dev \<Rightarrow> u16 \<Rightarrow> u8) \<times> bool) list" where
  "control_writes =
     [(Endpoint_Write_Control_Stream_LE, mem, True),
      (Endpoint_Write_Control_Stream_BE, mem, False),
      (Endpoint_Write_Control_PStream_LE, flash, True),
      (Endpoint_Write_Control_PStream_BE, flash, False),
      (Endpoint_Write_Control_EStream_LE, eeprom, True),
      (Endpoint_Write_Control_EStream_BE, eeprom, False)]"


text \<open>A host that takes \<open>N\<close> bytes and then starts the status stage.\<close>

definition taking_host :: "nat \<Rightarrow> env" where
  "taking_host N h r = (if r = UEINTX then if length (writes UEDATX h) < N then 0x01 else 0x05
     else if r = GPIOR0 then DEVICE_STATE_Configured else 0)"

lemma taking_host_takes: "host_takes (taking_host N) N"
  unfolding host_takes_def comes_def
  by (auto simp: taking_host_def usb_consts split: if_splits)


end
