(* ===== verification/Request_Facts.thy ===== *)
theory Request_Facts
  imports Usb_Isr Cdc_Facts Control_Facts
begin

section \<open>Properties of the control requests\<close>

text \<open>
  Which requests the device serves, and that it acknowledges exactly those. A request is acknowledged when
  the handler writes the interrupt flags of the control endpoint with the SETUP flag clear.
\<close>

subsection \<open>Histories only grow\<close>

lemma extends_hist [intro!]: "extends s (t\<lparr>hist := h\<rparr>) \<Longrightarrow> extends s (t\<lparr>hist := x # h\<rparr>)"
  by (auto simp: extends_def)

lemma extends_base [simp]: "extends s (t\<lparr>hist := hist s\<rparr>)" "extends s (t\<lparr>hist := hist u\<rparr>) = extends s u"
  by (auto simp: extends_def)

lemma extends_cons [simp]: "extends s (s\<lparr>hist := x # hist s\<rparr>)"
  by (auto intro!: extends_hist)

lemma extends_wr: "extends s t \<Longrightarrow> extends s (wr r v t)"
  by (auto simp: wr_def)

lemma extends_rd: "extends s t \<Longrightarrow> rd e r t = (v, u) \<Longrightarrow> extends s u"
  by (auto simp: rd_def Let_def)

lemma extends_io: "io_only A s t \<Longrightarrow> extends s t"
  by (auto simp: io_only_def adds_def extends_def)

lemma extends_rmw:
  "extends s t \<Longrightarrow> extends s (set_bit_io e r n t)" "extends s t \<Longrightarrow> extends s (clear_bit_io e r n t)"
  "extends s t \<Longrightarrow> extends s (clear_mask_io e r m t)"
  by (auto simp: set_bit_io_def clear_bit_io_def clear_mask_io_def rd_def wr_def Let_def)

lemma extends_test: "extends s t \<Longrightarrow> test_bit_io e r n t = (b, u) \<Longrightarrow> extends s u"
  by (auto simp: test_bit_io_def rd_def Let_def)

lemma extends_wait: "extends s t \<Longrightarrow> wait_bit e r n t = Some u \<Longrightarrow> extends s u"
  using wait_bit_io extends_io extends_trans by blast

lemma extends_status: "extends s t \<Longrightarrow> Endpoint_ClearStatusStage e t = Some u \<Longrightarrow> extends s u"
  using status_stage_io extends_io extends_trans by blast

lemma extends_same: "hist u = hist t \<Longrightarrow> extends s t \<Longrightarrow> extends s u"
  by (simp add: extends_def)

lemma wait_status_extends: "wait_status e n s = Some (c, t) \<Longrightarrow> extends s t"
proof -
  assume a: "wait_status e n s = Some (c, t)"
  let ?P = "\<lambda>e n s r. extends s (snd r)"
  have "?P e n s (c, t)"
  proof (rule wait_status.raw_induct [of ?P, OF _ a])
    fix w e n and s :: usb_dev and r
    assume IH: "\<And>e n s r. w e n s = Some r \<Longrightarrow> extends s (snd r)"
      and eq: "(case test_bit_io e UEINTX n s of (b, s) \<Rightarrow>
         if b then Some (ENDPOINT_RWCSTREAM_NoError, s)
         else (case rd e GPIOR0 s of (USB_DeviceState_LCL, s) \<Rightarrow>
           if USB_DeviceState_LCL = DEVICE_STATE_Unattached then Some (ENDPOINT_RWCSTREAM_DeviceDisconnected, s)
           else if USB_DeviceState_LCL = DEVICE_STATE_Suspended then Some (ENDPOINT_RWCSTREAM_BusSuspended, s)
           else w e n s)) = Some r"
    obtain b s1 where s1: "test_bit_io e UEINTX n s = (b, s1)" by fastforce
    obtain st s2 where s2: "rd e GPIOR0 s1 = (st, s2)" by fastforce
    have x: "extends s s1" "extends s s2" using extends_test [OF _ s1] extends_rd [OF _ s2] by auto
    from eq show "extends s (snd r)"
      using x IH extends_trans [OF x(2)] by (auto simp: s1 s2 split: if_splits)
  qed
  then show ?thesis by simp
qed

context writer
begin

lemma fill_extends: "fill_bank m e p L b s = (p', L', b', t) \<Longrightarrow> extends s t"
proof (induction "unat L" arbitrary: p L b s rule: less_induct)
  case less
  show ?case
  proof (cases "L \<noteq> 0 \<and> b < USB_Device_ControlEndpointSize")
    case True
    have "fill_bank m e (BUFFER_MOVE m p 1) (L - 1) (b + 1) (TRANSFER_BYTE m e p s) = (p', L', b', t)"
      using less.prems True by (subst (asm) fill_bank.simps) simp
    moreover have "unat (L - 1) < unat L" using True by (intro word_pred_lt) simp
    ultimately have "extends (TRANSFER_BYTE m e p s) t" using less.hyps by blast
    moreover have "extends s (TRANSFER_BYTE m e p s)" by (auto simp: transfer_step)
    ultimately show ?thesis using extends_trans by blast
  next
    case False
    then show ?thesis using less.prems by (subst (asm) fill_bank.simps) auto
  qed
qed

lemma control_write_loop_extends: "control_write_loop m e p L f s = Some (c, t) \<Longrightarrow> extends s t"
proof -
  assume a: "control_write_loop m e p L f s = Some (c, t)"
  let ?P = "\<lambda>m' e p L f s r. m' = m \<longrightarrow> extends s (snd r)"
  have "?P m e p L f s (c, t)"
  proof (rule control_write_loop.raw_induct [of ?P, OF _ a], rule impI)
    fix w m' e p L f and s :: usb_dev and r
    assume IH: "\<And>m' e p L f s r. w m' e p L f s = Some r \<Longrightarrow> m' = m \<longrightarrow> extends s (snd r)" and m: "m' = m"
      and eq: "(if L \<noteq> 0 \<or> f
        then (case rd e GPIOR0 s of (USB_DeviceState_LCL, s) \<Rightarrow>
          if USB_DeviceState_LCL = DEVICE_STATE_Unattached then Some (Some ENDPOINT_RWCSTREAM_DeviceDisconnected, s)
          else if USB_DeviceState_LCL = DEVICE_STATE_Suspended then Some (Some ENDPOINT_RWCSTREAM_BusSuspended, s)
          else (case Endpoint_IsSETUPReceived e s of (setup, s) \<Rightarrow>
            if setup then Some (Some ENDPOINT_RWCSTREAM_HostAborted, s)
            else (case Endpoint_IsOUTReceived e s of (out, s) \<Rightarrow>
              if out then Some (None, s)
              else (case Endpoint_IsINReady e s of (ready, s) \<Rightarrow>
                if ready
                then (case Endpoint_BytesInEndpoint e s of (BytesInEndpoint, s) \<Rightarrow>
                  (case fill_bank m' e p L BytesInEndpoint s of (p, L, BytesInEndpoint, s) \<Rightarrow>
                    w m' e p L (BytesInEndpoint = USB_Device_ControlEndpointSize) (Endpoint_ClearIN e s)))
                else w m' e p L f s))))
        else Some (None, s)) = Some r"
    have IH: "w m e p L f s = Some r \<Longrightarrow> extends s (snd r)" for e p L f s r using IH by blast
    obtain st s1 where s1: "rd e GPIOR0 s = (st, s1)" by fastforce
    obtain b2 s2 where s2: "Endpoint_IsSETUPReceived e s1 = (b2, s2)" by fastforce
    obtain b3 s3 where s3: "Endpoint_IsOUTReceived e s2 = (b3, s3)" by fastforce
    obtain b4 s4 where s4: "Endpoint_IsINReady e s3 = (b4, s4)" by fastforce
    obtain n s5 where s5: "Endpoint_BytesInEndpoint e s4 = (n, s5)" by fastforce
    obtain p6 L6 n6 s6 where s6: "fill_bank m e p L n s5 = (p6, L6, n6, s6)" by (metis prod_cases4)
    have x1: "extends s s1" using extends_rd [OF _ s1] by simp
    have x2: "extends s s2" using extends_test [OF x1] s2 by (simp add: Endpoint_IsSETUPReceived_def)
    have x3: "extends s s3" using extends_test [OF x2] s3 by (simp add: Endpoint_IsOUTReceived_def)
    have x4: "extends s s4" using extends_test [OF x3] s4 by (simp add: Endpoint_IsINReady_def)
    have x5: "extends s s5" using extends_rd [OF x4] s5 by (auto simp: Endpoint_BytesInEndpoint_def split: prod.splits)
    have x6: "extends s (Endpoint_ClearIN e s6)"
      using extends_trans [OF x5 fill_extends [OF s6]] by (simp add: Endpoint_ClearIN_def extends_rmw)
    from eq consider "snd r = s" | "snd r = s1" | "snd r = s2" | "snd r = s3" | "w m e p L f s4 = Some r"
      | "w m e p6 L6 (n6 = USB_Device_ControlEndpointSize) (Endpoint_ClearIN e s6) = Some r"
      by (auto simp: m s1 s2 s3 s4 s5 s6 split: if_splits)
    then show "extends s (snd r)"
      by cases (use x1 x2 x3 extends_trans [OF x4 IH] extends_trans [OF x6 IH] in auto)
  qed
  then show ?thesis by simp
qed

lemma control_write_extends: "control_write m e B L s = Some (c, t) \<Longrightarrow> extends s t"
proof -
  assume a: "control_write m e B L s = Some (c, t)"
  obtain L' s1 where s1: "(if L > wLength (USB_ControlRequest s) then (wLength (USB_ControlRequest s), s)
      else if L = 0 then (L, Endpoint_ClearIN e s) else (L, s)) = (L', s1)"
    by (cases "if L > wLength (USB_ControlRequest s) then (wLength (USB_ControlRequest s), s)
      else if L = 0 then (L, Endpoint_ClearIN e s) else (L, s)") auto
  have x: "extends s s1" using s1 by (auto simp: Endpoint_ClearIN_def extends_rmw split: if_splits)
  obtain r s2 where s2: "control_write_loop m e (B + BUFFER_OFFSET m L) L' False s1 = Some (r, s2)"
    and r: "(case r of Some code \<Rightarrow> Some (code, s2) | None \<Rightarrow> wait_status e RXOUTI s2) = Some (c, t)"
    using a unfolding control_write_def s1 by (auto simp: Let_def bind_eq_Some_conv)
  have "extends s s2" using extends_trans [OF x control_write_loop_extends [OF s2]] .
  then show ?thesis using r wait_status_extends extends_trans by (cases r) auto
qed

end

subsection \<open>Acknowledged requests\<close>

definition acked :: "usb_dev \<Rightarrow> usb_dev \<Rightarrow> bool" where
  "acked s t \<longleftrightarrow> (\<exists>h. hist t = h @ hist s \<and> (\<exists>v\<in>set (writes UEINTX h). \<not> bit v RXSTPI))"

lemma acked_clear: "extends s t \<Longrightarrow> acked s (Endpoint_ClearSETUP e t)"
proof -
  assume "extends s t"
  then obtain h where h: "hist t = h @ hist s" by (auto simp: extends_def)
  let ?v = "e (hist t) UEINTX"
  have "hist (Endpoint_ClearSETUP e t) = (Wr UEINTX (cbi RXSTPI ?v) # Rd UEINTX ?v # h) @ hist s"
    by (simp add: Endpoint_ClearSETUP_def io_defs h)
  then show ?thesis unfolding acked_def
    by (intro exI [of _ "Wr UEINTX (cbi RXSTPI ?v) # Rd UEINTX ?v # h"]) (simp add: reg_simps)
qed

lemma acked_extends: "acked s t \<Longrightarrow> extends t u \<Longrightarrow> acked s u"
  unfolding acked_def extends_def by (metis Un_iff append.assoc set_append writes_append)

lemma extends_acked: "extends s t \<Longrightarrow> acked t u \<Longrightarrow> acked s u"
  unfolding acked_def extends_def by (metis Un_iff append.assoc set_append writes_append)

text \<open>A handler that clears the SETUP flag first.\<close>

lemma acked_first: "extends (Endpoint_ClearSETUP e s) t \<Longrightarrow> acked s t"
  using acked_clear [of s s e] acked_extends by auto

lemma extends_8: "extends s t \<Longrightarrow> extends s (Endpoint_Write_8 b t)"
  by (simp add: Endpoint_Write_8_def extends_wr)

lemma extends_words: "extends s t \<Longrightarrow> extends s (Endpoint_Write_16_LE a t)" "extends s t \<Longrightarrow> extends s (Endpoint_Write_32_LE b t)"
  by (simp_all add: Endpoint_Write_16_LE_def Endpoint_Write_32_LE_def Let_def extends_wr)

lemma extends_banks: "extends s t \<Longrightarrow> extends s (Endpoint_ClearIN e t)" "extends s t \<Longrightarrow> extends s (Endpoint_ClearOUT e t)"
    "extends s t \<Longrightarrow> extends s (Endpoint_ClearSETUP e t)" "extends s t \<Longrightarrow> extends s (Endpoint_SelectEndpoint n t)"
  by (simp_all add: Endpoint_ClearIN_def Endpoint_ClearOUT_def Endpoint_ClearSETUP_def Endpoint_SelectEndpoint_def
      extends_rmw extends_wr)

lemmas extends_intros = extends_8 extends_words extends_banks extends_wr extends_rmw

lemma get_line_acked:
  assumes "get_line_encoding e s = Some t"
  shows "acked s t"
proof (rule acked_first)
  obtain s1 where w: "wait_bit e UEINTX TXINI (Endpoint_ClearSETUP e s) = Some s1"
    using assms by (auto simp: get_line_encoding_def bind_eq_Some_conv)
  have x: "extends (Endpoint_ClearSETUP e s) s1" using extends_wait [OF _ w] by simp
  from assms show "extends (Endpoint_ClearSETUP e s) t"
    unfolding get_line_encoding_def w Let_def Option.bind.simps
    by (rule extends_status [rotated]) (intro extends_intros x)
qed

lemma set_line_acked:
  assumes "set_line_encoding e s = Some t"
  shows "acked s t"
proof (rule acked_first)
  let ?s = "Endpoint_ClearSETUP e s"
  obtain ok s1 where w: "wait_attached e RXOUTI ?s = Some (ok, s1)"
    using assms by (auto simp: set_line_encoding_def bind_eq_Some_conv)
  have x: "extends ?s s1" using wait_attached_io [OF w] extends_io by blast
  show "extends ?s t"
  proof (cases ok)
    case False
    then show ?thesis using assms w x by (simp add: set_line_encoding_def)
  next
    case True
    obtain v t1 where t1: "Endpoint_Read_32_LE e s1 = (v, t1)" by fastforce
    obtain f t2 where t2: "Endpoint_Read_8 e (set_cdc_line ((cdc_line t1)\<lparr>BaudRateBPS := v\<rparr>) t1) = (f, t2)" by fastforce
    obtain p t3 where t3: "Endpoint_Read_8 e (set_cdc_line ((cdc_line t2)\<lparr>CharFormat := f\<rparr>) t2) = (p, t3)" by fastforce
    obtain d t4 where t4: "Endpoint_Read_8 e (set_cdc_line ((cdc_line t3)\<lparr>ParityType := p\<rparr>) t3) = (d, t4)" by fastforce
    have x1: "extends ?s t1" using t1 x by (auto simp: Endpoint_Read_32_LE_def rd_def Let_def)
    have x2: "extends ?s t2" using extends_rd [OF _ t2 [unfolded Endpoint_Read_8_def]] x1 by (simp add: extends_def)
    have x3: "extends ?s t3" using extends_rd [OF _ t3 [unfolded Endpoint_Read_8_def]] x2 by (simp add: extends_def)
    have x4: "extends ?s t4" using extends_rd [OF _ t4 [unfolded Endpoint_Read_8_def]] x3 by (simp add: extends_def)
    have "Endpoint_ClearStatusStage e (Endpoint_ClearOUT e (set_cdc_line ((cdc_line t4)\<lparr>DataBits := d\<rparr>) t4)) = Some t"
      using assms w True by (auto simp: set_line_encoding_def bind_eq_Some_conv t1 t2 t3 t4
          EVENT_CDC_Device_LineEncodingChanged_def)
    moreover have "extends ?s (set_cdc_line ((cdc_line t4)\<lparr>DataBits := d\<rparr>) t4)" using x4 by (simp add: extends_def)
    ultimately show ?thesis using extends_status extends_banks(2) by blast
  qed
qed

lemma status_acked:
  "Endpoint_ClearStatusStage e (Endpoint_ClearSETUP e s) = Some t \<Longrightarrow> acked s t"
  using acked_first extends_status extends_refl by blast

lemma line_state_acked: "set_control_line_state e s = Some t \<Longrightarrow> acked s t"
proof -
  assume "set_control_line_state e s = Some t"
  then obtain u where "Endpoint_ClearStatusStage e (Endpoint_ClearSETUP e s) = Some u" "hist t = hist u"
    by (auto simp: set_control_line_state_def bind_eq_Some_conv CDC_Device_Event_Stub_def)
  then show ?thesis using status_acked by (auto simp: acked_def)
qed

lemma break_acked: "send_break e s = Some t \<Longrightarrow> acked s t"
  by (auto simp: send_break_def bind_eq_Some_conv CDC_Device_Event_Stub_def intro: status_acked)

text \<open>The class requests of the serial port, by interface, request and request type.\<close>

definition cdc_supported :: "u8 \<Rightarrow> USB_Request_Header_t \<Rightarrow> bool" where
  "cdc_supported i r \<longleftrightarrow> wIndex r = ucast i
     \<and> (bRequest r, bmRequestType r) \<in> {(0x21, 0xA1), (0x20, 0x21), (0x22, 0x21), (0x23, 0x21)}"

lemma cdc_request:
  assumes su: "Endpoint_IsSETUPReceived e s = (True, s1)" and p: "CDC_Device_ProcessControlRequest e s = Some t"
  shows "if cdc_supported (ControlInterfaceNumber (VirtualSerial_CDC_Interface s)) (USB_ControlRequest s) then acked s1 t else t = s1"
proof -
  have s1: "USB_ControlRequest s1 = USB_ControlRequest s" "VirtualSerial_CDC_Interface s1 = VirtualSerial_CDC_Interface s"
    using su by (auto simp: Endpoint_IsSETUPReceived_def io_defs)
  note d = CDC_Device_ProcessControlRequest_def su s1 cdc_supported_def req_consts Let_def
  show ?thesis using p get_line_acked [of e s1 t] set_line_acked [of e s1 t] line_state_acked [of e s1 t] break_acked [of e s1 t]
    by (auto simp: d split: if_splits)
qed

text \<open>The standard requests.\<close>

lemma send_status_acked: "send_status e c s = Some t \<Longrightarrow> acked s t"
  unfolding send_status_def Let_def
  by (rule acked_first [of e], erule extends_status [rotated]) (intro extends_8 extends_words extends_banks(1) extends_refl)

lemma get_status_acked:
  assumes "USB_Device_GetStatus e s = Some t" "bmRequestType (USB_ControlRequest s) = 0x80 \<or> bmRequestType (USB_ControlRequest s) = 0x82"
  shows "acked s t"
proof -
  let ?s1 = "Endpoint_SelectEndpoint (ucast (wIndex (USB_ControlRequest s)) AND ENDPOINT_EPNUM_MASK) s"
  obtain b s2 where b: "Endpoint_IsStalled e ?s1 = (b, s2)" by fastforce
  have x: "extends s (Endpoint_SelectEndpoint ENDPOINT_CONTROLEP s2)"
    using extends_test [OF _ b [unfolded Endpoint_IsStalled_def]] by (intro extends_banks) (simp add: extends_banks)
  show ?thesis using assms send_status_acked extends_acked [OF x send_status_acked]
    by (auto simp: USB_Device_GetStatus_def b req_consts Let_def split: if_splits)
qed

lemma finish_acked: "finish_feature e s = Some t \<Longrightarrow> acked s t"
  unfolding finish_feature_def using acked_clear [of s _ e] acked_extends extends_status [OF extends_refl] extends_banks(4) extends_refl by blast

definition feature_supported :: "USB_Request_Header_t \<Rightarrow> bool" where
  "feature_supported r \<longleftrightarrow>
     (if bmRequestType r = 0 then ucast (wValue r) = (1 :: u8)
      else ucast (wValue r) \<noteq> (0 :: u8) \<or> ucast (wIndex r) AND (0x0F :: u8) \<noteq> 0)"

lemma feature_request:
  assumes "USB_Device_ClearSetFeature e s = Some t" "bmRequestType (USB_ControlRequest s) = 0 \<or> bmRequestType (USB_ControlRequest s) = 2"
  shows "if feature_supported (USB_ControlRequest s) then acked s t else t = s"
proof -
  let ?r = "USB_ControlRequest s"
  have same: "acked s t" if "finish_feature e (s\<lparr>USB_Device_RemoteWakeupEnabled := b\<rparr>) = Some t" for b
    using finish_acked [OF that] by (simp add: acked_def)
  let ?i = "ucast (wIndex ?r) AND ENDPOINT_EPNUM_MASK" and ?set = "bRequest ?r = REQ_SetFeature"
  obtain b s1 where b: "Endpoint_IsEnabled e (Endpoint_SelectEndpoint ?i s) = (b, s1)" by fastforce
  let ?s2 = "if b then if ?set then Endpoint_StallTransaction e s1
      else Endpoint_ResetDataToggle e (Endpoint_ResetEndpoint ?i (Endpoint_ClearStall e s1)) else s1"
  have x: "extends s s1" using extends_test [OF _ b [unfolded Endpoint_IsEnabled_def]] by (simp add: extends_banks)
  then have "extends s ?s2"
    by (simp add: Endpoint_StallTransaction_def Endpoint_ResetDataToggle_def Endpoint_ResetEndpoint_def
        Endpoint_ClearStall_def extends_intros)
  then have halt: "acked s t" if "finish_feature e ?s2 = Some t" using extends_acked finish_acked that by blast
  show ?thesis using assms same halt finish_acked [of e s t]
    by (auto simp: USB_Device_ClearSetFeature_def feature_supported_def Let_def req_consts usb_consts b
        [unfolded usb_consts] split: if_splits)
qed

lemma set_address_acked: "USB_Device_SetAddress e s = Some t \<Longrightarrow> acked s t"
proof -
  assume a: "USB_Device_SetAddress e s = Some t"
  let ?a = "ucast (wValue (USB_ControlRequest s) AND 0x7F) :: u8"
  let ?s1 = "USB_Device_SetDeviceAddress e ?a s"
  obtain s2 s3 where s: "Endpoint_ClearStatusStage e (Endpoint_ClearSETUP e ?s1) = Some s2" "wait_bit e UEINTX TXINI s2 = Some s3"
    and t: "t = wr GPIOR0 (if ?a \<noteq> 0 then DEVICE_STATE_Addressed else DEVICE_STATE_Default) (USB_Device_EnableDeviceAddress e ?a s3)"
    using a by (auto simp: USB_Device_SetAddress_def Let_def bind_eq_Some_conv)
  have "extends s ?s1" by (auto simp: USB_Device_SetDeviceAddress_def io_defs)
  then have "acked s s2" using extends_acked status_acked [OF s(1)] by blast
  moreover have "extends s2 t" unfolding t USB_Device_EnableDeviceAddress_def
    by (intro extends_wr extends_rmw extends_wait [OF _ s(2)] extends_refl)
  ultimately show ?thesis by (rule acked_extends)
qed

lemma get_configuration_acked: "USB_Device_GetConfiguration e s = Some t \<Longrightarrow> acked s t"
  unfolding USB_Device_GetConfiguration_def Let_def
  by (rule acked_first [of e], erule extends_status [rotated]) (intro extends_8 extends_words extends_banks(1) extends_refl)

lemma configuration_changed_extends: "EVENT_USB_Device_ConfigurationChanged e s = Some t \<Longrightarrow> extends s t"
proof -
  assume "EVENT_USB_Device_ConfigurationChanged e s = Some t"
  then obtain ok where a: "CDC_Device_ConfigureEndpoints e s = Some (ok, t)"
    by (auto simp: EVENT_USB_Device_ConfigurationChanged_def)
  have x: "extends (s\<lparr>VirtualSerial_CDC_Interface := i\<rparr>) u = extends s u" for i u by (simp add: extends_def)
  show ?thesis using a unfolding CDC_Device_ConfigureEndpoints_def Let_def
    by (auto simp: bind_eq_Some_conv x split: if_splits simp del: Endpoint_ConfigureEndpointTable.simps
        dest!: extends_io [OF configure_table_io]) (blast intro: extends_trans)+
qed

lemma set_configuration_cases:
  assumes "USB_Device_SetConfiguration e s = Some t" "ucast (wValue (USB_ControlRequest s)) \<le> (1 :: u8)"
  obtains s2 b s3 where "Endpoint_ClearStatusStage e ((Endpoint_ClearSETUP e s)\<lparr>USB_Device_ConfigurationNumber :=
      ucast (wValue (USB_ControlRequest s))\<rparr>) = Some s2"
    "USB_Device_IsAddressSet e s2 = (b, s3)"
    "EVENT_USB_Device_ConfigurationChanged e
      (if USB_Device_ConfigurationNumber s2 \<noteq> 0 then wr GPIOR0 DEVICE_STATE_Configured s2
       else wr GPIOR0 (if b then DEVICE_STATE_Configured else DEVICE_STATE_Powered) s3) = Some t"
proof -
  have n: "\<not> (ucast (wValue (USB_ControlRequest s)) :: u8) > FIXED_NUM_CONFIGURATIONS"
    using assms(2) by (simp add: FIXED_NUM_CONFIGURATIONS_def not_less)
  have r: "USB_ControlRequest (Endpoint_ClearSETUP e s) = USB_ControlRequest s"
    by (simp add: Endpoint_ClearSETUP_def io_defs)
  obtain s2 where s2: "Endpoint_ClearStatusStage e ((Endpoint_ClearSETUP e s)\<lparr>USB_Device_ConfigurationNumber :=
      ucast (wValue (USB_ControlRequest s))\<rparr>) = Some s2"
    using assms n by (auto simp: USB_Device_SetConfiguration_def Let_def bind_eq_Some_conv r)
  obtain b s3 where b: "USB_Device_IsAddressSet e s2 = (b, s3)" by fastforce
  show ?thesis using that [OF s2 b] assms(1) n by (simp add: USB_Device_SetConfiguration_def Let_def r s2 b cong: if_cong)
qed

lemma set_configuration_request:
  assumes "USB_Device_SetConfiguration e s = Some t"
  shows "if ucast (wValue (USB_ControlRequest s)) \<le> (1 :: u8) then acked s t else t = s"
proof (cases "ucast (wValue (USB_ControlRequest s)) \<le> (1 :: u8)")
  case True
  from assms True obtain s2 b s3 where s2: "Endpoint_ClearStatusStage e ((Endpoint_ClearSETUP e s)\<lparr>USB_Device_ConfigurationNumber :=
      ucast (wValue (USB_ControlRequest s))\<rparr>) = Some s2" and b: "USB_Device_IsAddressSet e s2 = (b, s3)"
    and t: "EVENT_USB_Device_ConfigurationChanged e
      (if USB_Device_ConfigurationNumber s2 \<noteq> 0 then wr GPIOR0 DEVICE_STATE_Configured s2
       else wr GPIOR0 (if b then DEVICE_STATE_Configured else DEVICE_STATE_Powered) s3) = Some t"
    by (rule set_configuration_cases)
  have "extends (Endpoint_ClearSETUP e s) s2" using extends_status [OF _ s2] by (simp add: extends_def)
  moreover have "extends s2 s3" using extends_test [OF _ b [unfolded USB_Device_IsAddressSet_def]] by simp
  then have "extends s2 (if USB_Device_ConfigurationNumber s2 \<noteq> 0 then wr GPIOR0 DEVICE_STATE_Configured s2
       else wr GPIOR0 (if b then DEVICE_STATE_Configured else DEVICE_STATE_Powered) s3)" by (simp add: extends_wr)
  then have "extends s2 t" using configuration_changed_extends [OF t] by (rule extends_trans)
  ultimately show ?thesis using True acked_first extends_trans by metis
next
  case False
  then have "(ucast (wValue (USB_ControlRequest s)) :: u8) > FIXED_NUM_CONFIGURATIONS"
    by (simp add: FIXED_NUM_CONFIGURATIONS_def not_le)
  then show ?thesis using assms False by (simp add: USB_Device_SetConfiguration_def)
qed

text \<open>The descriptors the device has, by the value of the request.\<close>

definition known_descriptor :: "u16 \<Rightarrow> bool" where
  "known_descriptor v \<longleftrightarrow> v = 0x03DC
     \<or> ucast (drop_bit 8 v) \<in> {1, 2 :: u8} \<or> ucast (drop_bit 8 v) = (3 :: u8) \<and> ucast (v AND 0xFF) \<le> (2 :: u8)"

lemma flash_first: "in_flash p (x # xs) s \<Longrightarrow> flash s p = x"
  by (simp add: in_flash_def upt_conv_Cons del: upt_Suc)

lemma string_sizes:
  assumes "linked l s"
  shows "flash s (at_Language l) = 4" "flash s (at_Manufacturer l) = 26" "flash s (at_Product l) = 36"
proof -
  note d = string_bytes_def hdr_bytes_def header_def USB_STRING_LEN_def sizeof_Header_def
  have "\<exists>xs. string_bytes LanguageString = 4 # xs" "\<exists>xs. string_bytes ManufacturerString = 26 # xs"
    "\<exists>xs. string_bytes ProductString = 36 # xs"
    by (simp_all add: d LanguageString_def ManufacturerString_def ProductString_def push_bit_eq_mult)
  then show "flash s (at_Language l) = 4" "flash s (at_Manufacturer l) = 26" "flash s (at_Product l) = 36"
    using assms by (auto simp: linked_def dest: flash_first)
qed

lemma callback_known:
  assumes "linked l s" "v \<noteq> 0x03DC"
  shows "fst (CALLBACK_USB_GetDescriptor l v i s) = 0 \<longleftrightarrow> \<not> known_descriptor v"
proof -
  have n: "(k :: u8) \<le> 2 \<longleftrightarrow> k = 0 \<or> k = 1 \<or> k = 2" for k by unat_arith
  show ?thesis
    by (simp add: CALLBACK_USB_GetDescriptor_def known_descriptor_def assms(2) string_sizes [OF assms(1)] n desc_consts
        sizeof_defs Let_def)
qed

lemma control_stream_acked:
  assumes w: "control_write m e B L (Endpoint_ClearSETUP e u) = Some (c, t)" "writer m d sp" and u: "hist u = hist s"
  shows "acked s (Endpoint_ClearOUT e t)"
proof -
  have "acked s (Endpoint_ClearSETUP e u)" using u by (intro acked_clear) (simp add: extends_def)
  then show ?thesis using writer.control_write_extends [OF w(2,1)] extends_banks(2) acked_extends by blast
qed

lemma put_bytes_hist [simp]: "hist (put_bytes p bs s) = hist s"
  by (induction p bs s rule: put_bytes.induct) (simp_all add: put_mem_def)

lemma serial_hist: "USB_Device_GetSerialString g s = (u, s1) \<Longrightarrow> hist s1 = hist s"
  by (auto simp: USB_Device_GetSerialString_def Let_def GlobalInterruptDisable_def SetGlobalInterruptMask_def)

lemma descriptor_request:
  assumes g: "USB_Device_GetDescriptor e im s = Some t" and l: "linked (the_layout im) s"
  shows "if known_descriptor (wValue (USB_ControlRequest s)) then acked s t else t = s"
proof (cases "wValue (USB_ControlRequest s) = 0x03DC")
  case True
  then have k: "known_descriptor (wValue (USB_ControlRequest s))" by (simp add: known_descriptor_def)
  have "USB_Device_GetInternalSerialDescriptor e im s = Some t"
    using g True by (simp add: USB_Device_GetDescriptor_def desc_consts Let_def)
  moreover obtain u s1 where s1: "USB_Device_GetSerialString (signature im) s = (u, s1)" by fastforce
  ultimately obtain c L t1 where "control_write (write_up mem) e (stack_frame im) L (Endpoint_ClearSETUP e
      (put_bytes (stack_frame im) (string_bytes (signature_descriptor u)) s1)) = Some (c, t1)" "t = Endpoint_ClearOUT e t1"
    by (auto simp: USB_Device_GetInternalSerialDescriptor_def Let_def bind_eq_Some_conv Endpoint_Write_Control_Stream_LE_def)
  then have "acked s t"
    using control_stream_acked [OF _ mem_up.writer_axioms] serial_hist [OF s1] by simp
  with k show ?thesis by simp
next
  case False
  obtain n p where n: "CALLBACK_USB_GetDescriptor (the_layout im) (wValue (USB_ControlRequest s)) (ucast (wIndex (USB_ControlRequest s))) s = (n, p)"
    by fastforce
  have k: "n = 0 \<longleftrightarrow> \<not> known_descriptor (wValue (USB_ControlRequest s))"
    using callback_known [OF l False, of "ucast (wIndex (USB_ControlRequest s))"] n by simp
  have eq: "USB_Device_GetDescriptor e im s = (if n = 0 then Some s else do {
      (code, s) \<leftarrow> Endpoint_Write_Control_PStream_LE e p n (Endpoint_ClearSETUP e s); Some (Endpoint_ClearOUT e s) })"
    using False n by (simp add: USB_Device_GetDescriptor_def desc_consts Let_def)
  show ?thesis
  proof (cases "n = 0")
    case True
    then show ?thesis using g eq k by simp
  next
    case False
    then obtain c t1 where "control_write (write_up flash) e p n (Endpoint_ClearSETUP e s) = Some (c, t1)" "t = Endpoint_ClearOUT e t1"
      using g eq by (auto simp: bind_eq_Some_conv Endpoint_Write_Control_PStream_LE_def)
    then show ?thesis using control_stream_acked [OF _ flash_up.writer_axioms refl] k False by simp
  qed
qed

definition std_supported :: "USB_Request_Header_t \<Rightarrow> bool" where
  "std_supported r =
     (let q = bRequest r; t = bmRequestType r in
       q = 0 \<and> (t = 0x80 \<or> t = 0x82)
       \<or> (q = 1 \<or> q = 3) \<and> (t = 0x00 \<or> t = 0x02) \<and> feature_supported r
       \<or> q = 5 \<and> t = 0x00
       \<or> q = 6 \<and> (t = 0x80 \<or> t = 0x81) \<and> known_descriptor (wValue r)
       \<or> q = 8 \<and> t = 0x80
       \<or> q = 9 \<and> t = 0x00 \<and> ucast (wValue r) \<le> (1 :: u8))"

lemma std_request:
  assumes p: "standard_request e im s = Some t" and l: "linked (the_layout im) s"
  shows "if std_supported (USB_ControlRequest s) then acked s t else t = s"
proof -
  let ?q = "bRequest (USB_ControlRequest s)" and ?t = "bmRequestType (USB_ControlRequest s)"
  note d = standard_request_def std_supported_def req_consts Let_def
  consider "?q = 0" | "?q = 1 \<or> ?q = 3" | "?q = 5" | "?q = 6" | "?q = 8" | "?q = 9" | "?q \<notin> {0, 1, 3, 5, 6, 8, 9}" by blast
  then show ?thesis
  proof cases
    case 1
    then show ?thesis using p get_status_acked [of e s t] by (auto simp: d split: if_splits)
  next
    case 2
    then show ?thesis using p feature_request [of e s t] by (auto simp: d split: if_splits)
  next
    case 3
    then show ?thesis using p set_address_acked [of e s t] by (auto simp: d split: if_splits)
  next
    case 4
    then show ?thesis using p descriptor_request [OF _ l, of e t] by (auto simp: d split: if_splits)
  next
    case 5
    then show ?thesis using p get_configuration_acked [of e s t] by (auto simp: d split: if_splits)
  next
    case 6
    then show ?thesis using p set_configuration_request [of e s t] by (auto simp: d split: if_splits)
  next
    case 7
    then show ?thesis using p by (auto simp: d split: if_splits)
  qed
qed

subsection \<open>Exactly the supported requests are acknowledged\<close>

text \<open>The SETUP flag of the control endpoint: set by the packet, cleared by a write with the bit clear.\<close>

definition setup_flag :: "env \<Rightarrow> io list \<Rightarrow> bool" where
  "setup_flag e h0 \<longleftrightarrow> (\<forall>h. bit (e (h @ h0) UEINTX) RXSTPI \<longleftrightarrow> (\<forall>v\<in>set (writes UEINTX h). bit v RXSTPI))"

definition request_of :: "env \<Rightarrow> usb_dev \<Rightarrow> USB_Request_Header_t" where
  "request_of e s = USB_ControlRequest (read_request e s)"

definition supported :: "env \<Rightarrow> usb_dev \<Rightarrow> bool" where
  "supported e s \<longleftrightarrow> cdc_supported (ControlInterfaceNumber (VirtualSerial_CDC_Interface s)) (request_of e s)
     \<or> std_supported (request_of e s)"

lemma setup_read: "Endpoint_IsSETUPReceived e t = (bit (e (hist t) UEINTX) RXSTPI, t\<lparr>hist := Rd UEINTX (e (hist t) UEINTX) # hist t\<rparr>)"
  by (simp add: Endpoint_IsSETUPReceived_def io_defs)

lemma acked_flag: "setup_flag e (hist s) \<Longrightarrow> acked s t \<Longrightarrow> \<not> bit (e (hist t) UEINTX) RXSTPI"
  unfolding setup_flag_def acked_def by metis

lemma pending_flag: "setup_flag e (hist s) \<Longrightarrow> hist t = h @ hist s \<Longrightarrow> writes UEINTX h = [] \<Longrightarrow> bit (e (hist t) UEINTX) RXSTPI"
  by (simp add: setup_flag_def)

lemma read_8_frame: "Endpoint_Read_8 e s = (b, t) \<Longrightarrow> t = s\<lparr>hist := Rd UEDATX b # hist s\<rparr>"
  by (auto simp: Endpoint_Read_8_def rd_def Let_def)

lemma read_request_frame:
  "\<exists>h. read_request e s = s\<lparr>hist := h @ hist s, USB_ControlRequest := request_of e s\<rparr> \<and> (\<forall>r. writes r h = [])"
proof -
  obtain b0 s1 where s1: "Endpoint_Read_8 e s = (b0, s1)" by fastforce
  obtain b1 s2 where s2: "Endpoint_Read_8 e s1 = (b1, s2)" by fastforce
  obtain b2 s3 where s3: "Endpoint_Read_8 e s2 = (b2, s3)" by fastforce
  obtain b3 s4 where s4: "Endpoint_Read_8 e s3 = (b3, s4)" by fastforce
  obtain b4 s5 where s5: "Endpoint_Read_8 e s4 = (b4, s5)" by fastforce
  obtain b5 s6 where s6: "Endpoint_Read_8 e s5 = (b5, s6)" by fastforce
  obtain b6 s7 where s7: "Endpoint_Read_8 e s6 = (b6, s7)" by fastforce
  obtain b7 s8 where s8: "Endpoint_Read_8 e s7 = (b7, s8)" by fastforce
  note fr = read_8_frame [OF s1] read_8_frame [OF s2] read_8_frame [OF s3] read_8_frame [OF s4]
    read_8_frame [OF s5] read_8_frame [OF s6] read_8_frame [OF s7] read_8_frame [OF s8]
  let ?h = "[Rd UEDATX b7, Rd UEDATX b6, Rd UEDATX b5, Rd UEDATX b4, Rd UEDATX b3, Rd UEDATX b2, Rd UEDATX b1, Rd UEDATX b0]"
  have s8': "s8 = s\<lparr>hist := ?h @ hist s\<rparr>" using fr by simp
  have "read_request e s = s8\<lparr>USB_ControlRequest := \<lparr>bmRequestType = b0, bRequest = b1, wValue = word16 [b2, b3],
      wIndex = word16 [b4, b5], wLength = word16 [b6, b7]\<rparr>\<rparr>"
    unfolding read_request_def Let_def s1 s2 s3 s4 s5 s6 s7 s8 prod.case ..
  then have "read_request e s = s\<lparr>hist := ?h @ hist s, USB_ControlRequest := request_of e s\<rparr>"
    by (simp add: request_of_def s8')
  then show ?thesis by (intro exI [of _ ?h]) simp
qed

lemma stall_hist: "\<exists>c v. hist (Endpoint_StallTransaction e (Endpoint_ClearSETUP e u))
    = [Wr UECONX (sbi STALLRQ c), Rd UECONX c, Wr UEINTX (cbi RXSTPI v), Rd UEINTX v] @ hist u"
  by (simp add: Endpoint_StallTransaction_def Endpoint_ClearSETUP_def io_defs)

lemma linked_cong: "flash t = flash s \<Longrightarrow> linked l t = linked l s"
  by (simp add: linked_def in_flash_def)


text \<open>A device whose flash holds the constants one after the other, and a host that sends eight bytes.\<close>

definition packed_flash :: "u16 \<Rightarrow> u8" where
  "packed_flash p = (let bs = device_bytes DeviceDescriptor @ config_bytes ConfigurationDescriptor @ string_bytes LanguageString
      @ string_bytes ManufacturerString @ string_bytes ProductString
    in if unat p < length bs then bs ! unat p else 0)"

definition packed_image :: image where
  "packed_image = \<lparr>at_Device = 0, at_Configuration = 18, at_Language = 80, at_Manufacturer = 84, at_Product = 112,
     signature = (\<lambda>_. 0), stack_frame = 0x2F0\<rparr>"

definition packed_dev :: usb_dev where
  "packed_dev = zero_dev\<lparr>flash := packed_flash\<rparr>"

definition asking_host :: "u8 list \<Rightarrow> env" where
  "asking_host bs h r =
     (if r = UEDATX then (if length (reads UEDATX h) < length bs then bs ! length (reads UEDATX h) else 0)
      else if r = UEINTX then (if list_all (\<lambda>v. bit v RXSTPI) (writes UEINTX h) then 0x0D else 0x05)
      else if r = GPIOR0 then DEVICE_STATE_Addressed else 0)"

lemma asking_flag: "setup_flag (asking_host bs) []"
  by (simp add: setup_flag_def asking_host_def list_all_iff)

lemma packed_linked: "linked (the_layout packed_image) packed_dev"
  by code_simp

lemma get_configuration_served:
  "supported (asking_host [0x80, 8, 0, 0, 0, 0, 1, 0]) packed_dev"
  "\<not> Option.is_none (USB_Device_ProcessControlRequest (asking_host [0x80, 8, 0, 0, 0, 0, 1, 0]) packed_image packed_dev)"
  by code_simp+

lemma set_descriptor_refused:
  "\<not> supported (asking_host [0x00, 7, 0, 1, 0, 0, 0, 0]) packed_dev"
  "\<not> Option.is_none (USB_Device_ProcessControlRequest (asking_host [0x00, 7, 0, 1, 0, 0, 0, 0]) packed_image packed_dev)"
  by code_simp+


end
