(* ===== verification/Enumeration_Facts.thy ===== *)
theory Enumeration_Facts
  imports Request_Facts
begin

section \<open>Enumeration\<close>

text \<open>
  The requests that take the device from the default to the configured state, and the interrupt handlers:
  the order of their register accesses and the state they leave.
\<close>

subsection \<open>The address\<close>

text \<open>What the status stage of a request to the device did: a zero-length packet was released, or the device was unplugged.\<close>

lemma status_stage_out:
  assumes "Endpoint_ClearStatusStage e s = Some t" "bmRequestType (USB_ControlRequest s) AND 0x80 = 0"
  shows "\<exists>h. t = s\<lparr>hist := h @ hist s\<rparr> \<and> set h \<subseteq> Reads {GPIOR0} \<union> Access {UEINTX}
    \<and> ((\<exists>v\<in>set (writes UEINTX h). \<not> bit v TXINI) \<or> Rd GPIOR0 DEVICE_STATE_Unattached \<in> set h)"
proof -
  obtain ok s1 where w: "wait_attached e TXINI s = Some (ok, s1)" and t: "t = (if ok then Endpoint_ClearIN e s1 else s1)"
    using assms by (auto simp: Endpoint_ClearStatusStage_def bind_eq_Some_conv)
  obtain h where h: "s1 = s\<lparr>hist := h @ hist s\<rparr>" "set h \<subseteq> Reads {UEINTX, GPIOR0}"
    using wait_attached_io [OF w] by (auto simp: io_only_def adds_def)
  have hs: "set h \<subseteq> Reads {GPIOR0} \<union> Access {UEINTX}" using h(2) by (auto simp: Reads_def)
  show ?thesis
  proof (cases ok)
    case True
    let ?v = "e (h @ hist s) UEINTX"
    let ?w = "?v AND NOT (push_bit TXINI 1 OR push_bit FIFOCON 1)"
    have "\<not> bit ?w TXINI" by (simp add: bit_simps)
    moreover have "t = s\<lparr>hist := (Wr UEINTX ?w # Rd UEINTX ?v # h) @ hist s\<rparr>"
      using True t h(1) by (simp add: Endpoint_ClearIN_def io_defs)
    ultimately show ?thesis using hs by (intro exI [of _ "Wr UEINTX ?w # Rd UEINTX ?v # h"]) (auto simp del: push_bit_of_1)
  next
    case False
    then have "last_read GPIOR0 (h @ hist s) = Some DEVICE_STATE_Unattached" "h \<noteq> []" using wait_attached_io [OF w] h(1) by auto
    then have "Rd GPIOR0 DEVICE_STATE_Unattached \<in> set h"
      by (cases h) (auto simp: last_read_def split: io.splits if_splits)
    then show ?thesis using t False h(1) hs by auto
  qed
qed

lemma wait_bit_first:
  assumes "wait_bit e r n s = Some t"
  shows "\<exists>x g. hist t = Rd r x # g @ hist s \<and> bit x n \<and> set g \<subseteq> Reads {r}"
proof -
  let ?v = "e (hist s) r"
  let ?s = "s\<lparr>hist := Rd r ?v # hist s\<rparr>"
  have "(if bit ?v n then Some ?s else wait_bit e r n ?s) = Some t"
    using assms by (subst (asm) wait_bit.simps) (simp add: io_defs)
  then have t: "io_only (Reads {r}) ?s t" "\<exists>x. last_read r (hist t) = Some x \<and> bit x n"
    using wait_bit_io [of e r n ?s t] by (auto simp: last_read_def split: if_splits)
  then obtain h where h: "hist t = h @ Rd r ?v # hist s" "set h \<subseteq> Reads {r}" by (auto simp: io_only_def adds_def)
  show ?thesis
  proof (cases h)
    case Nil
    then show ?thesis using t(2) h by (auto simp: last_read_def)
  next
    case (Cons y k)
    then show ?thesis using t(2) h
      by (intro exI [of _ "the (last_read r (hist t))"] exI [of _ "k @ [Rd r ?v]"]) (auto simp: last_read_def split: io.splits if_splits)
  qed
qed

text \<open>
  C9. Setting the address. The handler writes the new address first with the enable bit as it was, then
  acknowledges the request and runs the status stage, waits until the endpoint is ready again, and only then
  enables the address; nothing in between writes the address register, and the status packet was released
  before the address is enabled unless the device was unplugged. The device state follows last: addressed, or
  default for the address 0.
\<close>

theorem set_address_order:
  assumes "USB_Device_SetAddress e s = Some t" and "bmRequestType (USB_ControlRequest s) AND 0x80 = 0"
  shows "let a = ucast (wValue (USB_ControlRequest s) AND 0x7F) in
    \<exists>v w x h. hist t = [Wr GPIOR0 (if a \<noteq> 0 then DEVICE_STATE_Addressed else DEVICE_STATE_Default),
        Wr UDADDR (sbi ADDEN w), Rd UDADDR w, Rd UEINTX x] @ h @ [Wr UDADDR ((v AND 0x80) OR a), Rd UDADDR v] @ hist s
      \<and> bit x TXINI \<and> (\<exists>y\<in>set (writes UEINTX h). \<not> bit y RXSTPI) \<and> writes UDADDR h = []
      \<and> ((\<exists>y\<in>set (writes UEINTX h). \<not> bit y TXINI) \<or> Rd GPIOR0 DEVICE_STATE_Unattached \<in> set h)"
proof -
  let ?a = "ucast (wValue (USB_ControlRequest s) AND 0x7F) :: u8" and ?v = "e (hist s) UDADDR"
  let ?s0 = "s\<lparr>hist := Wr UDADDR ((?v AND 0x80) OR ?a) # Rd UDADDR ?v # hist s\<rparr>"
  let ?x = "e (hist ?s0) UEINTX"
  let ?s1 = "?s0\<lparr>hist := Wr UEINTX (cbi RXSTPI ?x) # Rd UEINTX ?x # hist ?s0\<rparr>"
  have a: "?a AND 0x7F = ?a" by (rule bit_word_eqI) (auto simp: bit_simps)
  have s1: "Endpoint_ClearSETUP e (USB_Device_SetDeviceAddress e ?a s) = ?s1"
    using a by (simp add: Endpoint_ClearSETUP_def USB_Device_SetDeviceAddress_def io_defs cbi_def)
  obtain s2 s3 where s2: "Endpoint_ClearStatusStage e ?s1 = Some s2" and s3: "wait_bit e UEINTX TXINI s2 = Some s3"
    and t: "t = wr GPIOR0 (if ?a \<noteq> 0 then DEVICE_STATE_Addressed else DEVICE_STATE_Default) (set_bit_io e UDADDR ADDEN s3)"
    using assms(1) unfolding USB_Device_SetAddress_def Let_def s1
    by (auto simp: bind_eq_Some_conv USB_Device_EnableDeviceAddress_def)
  obtain h where h: "s2 = ?s1\<lparr>hist := h @ hist ?s1\<rparr>" "set h \<subseteq> Reads {GPIOR0} \<union> Access {UEINTX}"
    "(\<exists>v\<in>set (writes UEINTX h). \<not> bit v TXINI) \<or> Rd GPIOR0 DEVICE_STATE_Unattached \<in> set h"
    using status_stage_out [OF s2] assms(2) by auto
  obtain x g where g: "hist s3 = Rd UEINTX x # g @ hist s2" "bit x TXINI" "set g \<subseteq> Reads {UEINTX}"
    using wait_bit_first [OF s3] by blast
  let ?h = "g @ h @ [Wr UEINTX (cbi RXSTPI ?x), Rd UEINTX ?x]"
  have "hist t = [Wr GPIOR0 (if ?a \<noteq> 0 then DEVICE_STATE_Addressed else DEVICE_STATE_Default),
        Wr UDADDR (sbi ADDEN (e (hist s3) UDADDR)), Rd UDADDR (e (hist s3) UDADDR), Rd UEINTX x] @ ?h
        @ [Wr UDADDR ((?v AND 0x80) OR ?a), Rd UDADDR ?v] @ hist s"
    using g(1) h(1) by (simp add: t io_defs sbi_def)
  moreover have "writes UDADDR ?h = []"
  proof -
    have "set (writes UDADDR ?h) = {}" using h(2) g(3) by (auto simp: writes_set)
    then show ?thesis by simp
  qed
  moreover have "\<not> bit (cbi RXSTPI ?x) RXSTPI" by (simp add: cbi_def bit_simps)
  ultimately show ?thesis using g(2) h(3) unfolding Let_def
    by (intro exI [of _ ?v] exI [of _ "e (hist s3) UDADDR"] exI [of _ x] exI [of _ ?h]) auto
qed

text \<open>Hardware whose flags are always set, and the answer to the request for the address 5 there.\<close>

definition ready_hw :: env where
  "ready_hw h r = - 1"

lemma ready_bit: "wait_bit ready_hw r n s \<noteq> None" if "n < 8"
  using that by (subst wait_bit.simps) (simp add: io_defs ready_hw_def bit_simps)

lemma ready_attached: "wait_attached ready_hw n s \<noteq> None" if "n < 8"
  using that by (subst wait_attached.simps) (simp add: io_defs ready_hw_def bit_simps)

lemma ready_status: "Endpoint_ClearStatusStage ready_hw s \<noteq> None"
  by (auto simp: Endpoint_ClearStatusStage_def bind_eq_None_conv ready_attached usb_consts simp del: not_None_eq split: prod.splits)

lemma ready_address: "USB_Device_SetAddress ready_hw s \<noteq> None"
  by (auto simp: USB_Device_SetAddress_def Let_def bind_eq_None_conv ready_status ready_bit usb_consts simp del: not_None_eq)

definition address_request :: usb_dev where
  "address_request = zero_dev\<lparr>USB_ControlRequest := \<lparr>bmRequestType = 0, bRequest = 5, wValue = 5, wIndex = 0, wLength = 0\<rparr>\<rparr>"

theorem set_address_order_witness:
  "\<exists>t v w h. USB_Device_SetAddress ready_hw address_request = Some t
    \<and> hist t = [Wr GPIOR0 DEVICE_STATE_Addressed, Wr UDADDR (sbi ADDEN w), Rd UDADDR w] @ h
        @ [Wr UDADDR ((v AND 0x80) OR 5), Rd UDADDR v]"
proof -
  obtain t where t: "USB_Device_SetAddress ready_hw address_request = Some t" using ready_address by blast
  have r: "bmRequestType (USB_ControlRequest address_request) AND 0x80 = 0" "hist address_request = []"
    "ucast (wValue (USB_ControlRequest address_request) AND 0x7F) = (5 :: u8)"
    by (simp_all add: address_request_def zero_dev_def)
  obtain v w x h where "hist t = [Wr GPIOR0 DEVICE_STATE_Addressed, Wr UDADDR (sbi ADDEN w), Rd UDADDR w] @ (Rd UEINTX x # h)
        @ [Wr UDADDR ((v AND 0x80) OR 5), Rd UDADDR v]"
    using set_address_order [OF t r(1)] unfolding Let_def r(2,3) by auto
  with t show ?thesis by blast
qed

subsection \<open>The configuration\<close>

lemma cdc_configure_io:
  assumes "EVENT_USB_Device_ConfigurationChanged e s = Some t"
  shows "adds (Access endpoint_regs) (hist s) (hist t)" "USB_Device_ConfigurationNumber t = USB_Device_ConfigurationNumber s"
proof -
  let ?i = "(clear_cdc_state (VirtualSerial_CDC_Interface s))\<lparr>DataINEndpoint := (DataINEndpoint (clear_cdc_state (VirtualSerial_CDC_Interface s)))\<lparr>epType := EP_TYPE_BULK\<rparr>,
    DataOUTEndpoint := (DataOUTEndpoint (clear_cdc_state (VirtualSerial_CDC_Interface s)))\<lparr>epType := EP_TYPE_BULK\<rparr>,
    NotificationEndpoint := (NotificationEndpoint (clear_cdc_state (VirtualSerial_CDC_Interface s)))\<lparr>epType := EP_TYPE_INTERRUPT\<rparr>\<rparr>"
  let ?s = "s\<lparr>VirtualSerial_CDC_Interface := ?i\<rparr>"
  have "io_only (Access endpoint_regs) ?s t"
    using assms
    by (auto simp: EVENT_USB_Device_ConfigurationChanged_def CDC_Device_ConfigureEndpoints_def Let_def bind_eq_Some_conv
        simp del: Endpoint_ConfigureEndpointTable.simps
        split: if_splits dest!: configure_table_io intro: io_only_trans)
  from io_only_adds [OF this] io_only_fields [OF this]
  show "adds (Access endpoint_regs) (hist s) (hist t)" "USB_Device_ConfigurationNumber t = USB_Device_ConfigurationNumber s" by simp_all
qed

text \<open>
  C10. Setting the configuration. The handler stores the number and writes the device state exactly
  once, after the status stage: configured for the configuration 1; for the configuration 0, which the USB
  specification sends back to the addressed state, configured as well when an address is set, and powered
  otherwise. Afterwards it sets up the endpoints of the serial port.
\<close>

theorem set_configuration_state:
  assumes "USB_Device_SetConfiguration e s = Some t" and "ucast (wValue (USB_ControlRequest s)) \<le> (1 :: u8)"
  shows "let n = ucast (wValue (USB_ControlRequest s)) :: u8 in
    USB_Device_ConfigurationNumber t = n
    \<and> (\<exists>g st k. hist t = g @ Wr GPIOR0 st # k @ hist s \<and> set g \<subseteq> Access endpoint_regs \<and> writes GPIOR0 k = []
        \<and> (if n = 1 then st = DEVICE_STATE_Configured
           else \<exists>v. last_read UDADDR k = Some v \<and> st = (if bit v ADDEN then DEVICE_STATE_Configured else DEVICE_STATE_Powered)))"
proof -
  let ?n = "ucast (wValue (USB_ControlRequest s)) :: u8"
  let ?c = "\<lambda>s2 b s3. if USB_Device_ConfigurationNumber s2 \<noteq> 0 then wr GPIOR0 DEVICE_STATE_Configured s2
       else wr GPIOR0 (if b then DEVICE_STATE_Configured else DEVICE_STATE_Powered) s3"
  from assms obtain s2 b s3 where s2: "Endpoint_ClearStatusStage e ((Endpoint_ClearSETUP e s)\<lparr>USB_Device_ConfigurationNumber := ?n\<rparr>) = Some s2"
    and b: "USB_Device_IsAddressSet e s2 = (b, s3)" and t: "EVENT_USB_Device_ConfigurationChanged e (?c s2 b s3) = Some t"
    by (rule set_configuration_cases)
  note io = status_stage_access [OF s2]
  have n2: "USB_Device_ConfigurationNumber s2 = ?n" using io_only_fields(5) [OF io] by simp
  obtain k where k: "hist s2 = k @ hist s" "writes GPIOR0 k = []"
  proof -
    obtain h where h: "hist s2 = h @ hist (Endpoint_ClearSETUP e s)" "set h \<subseteq> Reads {GPIOR0} \<union> Access {UEINTX}"
      using io by (auto simp: io_only_def adds_def)
    let ?x = "e (hist s) UEINTX"
    have "set (writes GPIOR0 (h @ [Wr UEINTX (cbi RXSTPI ?x), Rd UEINTX ?x])) = {}" using h(2) by (auto simp: writes_set)
    then show ?thesis using that h(1) by (simp add: Endpoint_ClearSETUP_def io_defs)
  qed
  have s3: "s3 = s2\<lparr>hist := Rd UDADDR (e (hist s2) UDADDR) # hist s2\<rparr>" "b = bit (e (hist s2) UDADDR) ADDEN"
    using b by (auto simp: USB_Device_IsAddressSet_def io_defs)
  obtain g where g: "hist t = g @ hist (?c s2 b s3)" "set g \<subseteq> Access endpoint_regs"
    using cdc_configure_io(1) [OF t] by (auto simp: adds_def)
  have "USB_Device_ConfigurationNumber t = ?n" using cdc_configure_io(2) [OF t] n2 s3 by (simp add: wr_def)
  moreover obtain st l where "hist (?c s2 b s3) = Wr GPIOR0 st # l @ hist s" "writes GPIOR0 l = []"
    "if ?n = 1 then st = DEVICE_STATE_Configured
     else \<exists>v. last_read UDADDR l = Some v \<and> st = (if bit v ADDEN then DEVICE_STATE_Configured else DEVICE_STATE_Powered)"
  proof (cases "?n = 0")
    case True
    then show ?thesis using that [of _ "Rd UDADDR (e (hist s2) UDADDR) # k"] k n2 s3 by (simp add: wr_def last_read_def)
  next
    case False
    then have "?n = 1" using assms(2) by unat_arith
    then show ?thesis using that [of _ k] k n2 by (simp add: wr_def)
  qed
  ultimately show ?thesis using g unfolding Let_def by metis
qed

text \<open>The endpoints of the serial port have sizes for which the size mask exists.\<close>

lemma mask_16: "Endpoint_BytesToEPSizeMask 16 \<noteq> None"
  using ep_size_loop_find [of 1 16 0] by (auto simp: Endpoint_BytesToEPSizeMask_def)

lemma configure_16: "Endpoint_ConfigureEndpoint e a ty 16 b s \<noteq> None"
  by (simp add: Endpoint_ConfigureEndpoint_def Let_def bind_eq_None_conv mask_16 del: not_None_eq)

definition configuration_request :: usb_dev where
  "configuration_request = serial_dev\<lparr>USB_ControlRequest := \<lparr>bmRequestType = 0, bRequest = 9, wValue = 0, wIndex = 0, wLength = 0\<rparr>\<rparr>"

lemma serial_dev_configures:
  assumes "VirtualSerial_CDC_Interface s = VirtualSerial_CDC_Interface serial_dev"
  shows "EVENT_USB_Device_ConfigurationChanged e s \<noteq> None"
  using assms
  by (auto simp: EVENT_USB_Device_ConfigurationChanged_def CDC_Device_ConfigureEndpoints_def Let_def bind_eq_None_conv
      clear_cdc_state_def serial_dev_def zero_dev_def zero_cdc_def configure_16 simp del: not_None_eq split: prod.splits)

lemma ready_configuration: "USB_Device_SetConfiguration ready_hw configuration_request \<noteq> None"
proof -
  let ?s = "(Endpoint_ClearSETUP ready_hw configuration_request)\<lparr>USB_Device_ConfigurationNumber := 0\<rparr>"
  obtain s2 where s2: "Endpoint_ClearStatusStage ready_hw ?s = Some s2" using ready_status by blast
  have r: "USB_ControlRequest (Endpoint_ClearSETUP ready_hw configuration_request) = USB_ControlRequest configuration_request"
    by (simp add: Endpoint_ClearSETUP_def io_defs)
  have w: "ucast (wValue (USB_ControlRequest configuration_request)) = (0 :: u8)" by (simp add: configuration_request_def)
  have i: "VirtualSerial_CDC_Interface s2 = VirtualSerial_CDC_Interface serial_dev" "USB_Device_ConfigurationNumber s2 = 0"
    using io_only_fields(5,6) [OF status_stage_access [OF s2]]
    by (simp_all add: Endpoint_ClearSETUP_def io_defs configuration_request_def)
  have "EVENT_USB_Device_ConfigurationChanged ready_hw
      (wr GPIOR0 (if b then DEVICE_STATE_Configured else DEVICE_STATE_Powered) s3) \<noteq> None"
    if "USB_Device_IsAddressSet ready_hw s2 = (b, s3)" for b s3
    using that i(1) by (intro serial_dev_configures) (auto simp: USB_Device_IsAddressSet_def io_defs)
  then show ?thesis
    by (simp add: USB_Device_SetConfiguration_def Let_def FIXED_NUM_CONFIGURATIONS_def r w s2 i(2) del: not_None_eq split: prod.split)
qed

theorem set_configuration_state_witness:
  "\<exists>t g v k. USB_Device_SetConfiguration ready_hw configuration_request = Some t
     \<and> hist t = g @ Wr GPIOR0 (if bit v ADDEN then DEVICE_STATE_Configured else DEVICE_STATE_Powered) # k \<and> last_read UDADDR k = Some v"
proof -
  obtain t where t: "USB_Device_SetConfiguration ready_hw configuration_request = Some t" using ready_configuration by blast
  have n: "ucast (wValue (USB_ControlRequest configuration_request)) = (0 :: u8)" "hist configuration_request = []"
    by (simp_all add: configuration_request_def serial_dev_def zero_dev_def)
  obtain g st k v where "hist t = g @ Wr GPIOR0 st # k" "last_read UDADDR k = Some v"
    "st = (if bit v ADDEN then DEVICE_STATE_Configured else DEVICE_STATE_Powered)"
    using set_configuration_state [OF t] unfolding n Let_def by auto
  then show ?thesis using t by blast
qed

subsection \<open>The selected endpoint and the interrupts\<close>

abbreviation device_regs :: "reg set" where
  "device_regs \<equiv> {UDINT, UDIEN, USBCON, PLLCSR, GPIOR0, UDADDR}"

lemma wait_pll_io: "wait_pll e s = Some t \<Longrightarrow> io_only (Access device_regs) s t"
proof -
  assume a: "wait_pll e s = Some t"
  show ?thesis
  proof (rule wait_pll.raw_induct [of "\<lambda>e. io_only (Access device_regs)", OF _ a])
    fix w e s t
    assume IH: "\<And>e s t. w e s = Some t \<Longrightarrow> io_only (Access device_regs) s t"
      and eq: "(case USB_PLL_IsReady e s of (ready, s) \<Rightarrow> if ready then Some s else w e s) = Some t"
    obtain b u where u: "USB_PLL_IsReady e s = (b, u)" by fastforce
    then have "io_only (Access device_regs) s u" unfolding USB_PLL_IsReady_def by (rule io_only_test [rotated 2]) auto
    then show "io_only (Access device_regs) s t"
      using eq IH io_only_trans by (auto simp: u split: if_splits)
  qed
qed

lemma int_io:
  assumes "io_only (Access device_regs) s t" "i \<noteq> USB_INT_RXSTPI"
  shows "io_only (Access device_regs) s (USB_INT_Enable e i t)" "io_only (Access device_regs) s (USB_INT_Disable e i t)"
    "io_only (Access device_regs) s (USB_INT_Clear e i t)"
  using assms by (cases i; auto intro!: io_only_rmw)+

lemma int_pending_io:
  assumes "int_pending e i s = (b, t)" "i \<noteq> USB_INT_RXSTPI"
  shows "io_only (Access device_regs) s t"
  using assms by (cases i) (auto simp: int_pending_def test_bit_io_def io_defs io_only_update split: if_splits)

lemma gen_sof_io: "io_only (Access device_regs) s (gen_sof e s)"
  by (auto simp: gen_sof_def USB_Event_Stub_def simp del: USB_INT_Clear.simps split: prod.split dest: int_pending_io intro!: int_io)

lemma gen_suspend_io: "io_only (Access device_regs) s (gen_suspend e s)"
  by (auto simp: gen_suspend_def Let_def EVENT_USB_Device_Disconnect_def USB_CLK_Freeze_def USB_PLL_Off_def
      simp del: USB_INT_Enable.simps USB_INT_Disable.simps
      split: prod.split dest: int_pending_io intro!: int_io io_only_wr io_only_rmw)

lemma gen_wakeup_io:
  assumes "gen_wakeup e s = Some t"
  shows "io_only (Access device_regs) s t"
proof -
  obtain p s1 where s1: "int_pending e USB_INT_WAKEUPI s = (p, s1)" by fastforce
  have x: "io_only (Access device_regs) s s1" using int_pending_io [OF s1] by simp
  show ?thesis
  proof (cases p)
    case True
    obtain s2 where s2: "wait_pll e (USB_PLL_On s1) = Some s2"
      using assms True by (cases "wait_pll e (USB_PLL_On s1)") (auto simp: gen_wakeup_def s1 option_defs)
    have "io_only (Access device_regs) s (USB_PLL_On s1)" using x by (auto simp: USB_PLL_On_def intro!: io_only_wr)
    then have y: "io_only (Access device_regs) s s2" using wait_pll_io [OF s2] io_only_trans by blast
    define s3 where "s3 = USB_INT_Enable e USB_INT_SUSPI (USB_INT_Disable e USB_INT_WAKEUPI (USB_INT_Clear e USB_INT_WAKEUPI (USB_CLK_Unfreeze e s2)))"
    have z: "io_only (Access device_regs) s s3"
      unfolding s3_def by (intro int_io) (auto simp: USB_CLK_Unfreeze_def intro!: io_only_rmw y)
    obtain b s4 where s4: "USB_Device_IsAddressSet e s3 = (b, s4)" by fastforce
    have "io_only (Access device_regs) s s4"
      using s4 unfolding USB_Device_IsAddressSet_def by (rule io_only_test [OF z, rotated]) auto
    moreover have "t = (if USB_Device_ConfigurationNumber s3 \<noteq> 0 then wr GPIOR0 DEVICE_STATE_Configured s3
        else wr GPIOR0 (if b then DEVICE_STATE_Configured else DEVICE_STATE_Powered) s4)"
      using assms True s2 unfolding gen_wakeup_def s1 Let_def prod.case
      by (simp add: option_defs EVENT_USB_Device_Connect_def s3_def [symmetric] s4 cong: if_cong del: USB_INT_Enable.simps USB_INT_Disable.simps USB_INT_Clear.simps)
    ultimately show ?thesis using z by (auto intro!: io_only_wr)
  next
    case False
    then show ?thesis using assms x by (simp add: gen_wakeup_def s1)
  qed
qed

text \<open>When the hardware accepts every endpoint, configuring one succeeds.\<close>

lemma configure_one_ok:
  assumes "\<And>h. bit (e h UESTA0X) CFGOK"
  shows "fst (configure_one e N a b n s)"
  using assms by (auto simp: configure_one_def Let_def Endpoint_IsConfigured_def io_defs split: prod.split)

lemma configure_loop_ok:
  assumes "\<And>h. bit (e h UESTA0X) CFGOK"
  shows "fst (configure_loop e N a b n s)"
  using assms
proof (induction e N a b n s rule: configure_loop.induct)
  case (1 e N a b n s)
  obtain ok s1 where s1: "configure_one e N a b n s = (ok, s1)" by fastforce
  have ok using configure_one_ok [of e N a b n s] 1(2) s1 by simp
  then show ?case using 1(1) [OF _ s1 [symmetric]] 1(2) s1 by (subst configure_loop.simps) (simp add: Let_def)
qed

lemma gen_reset_selects:
  assumes t: "gen_reset e s = Some t" and ok: "\<And>h. bit (e h UESTA0X) CFGOK"
  shows "if fst (int_pending e USB_INT_EORSTI s) then \<exists>x h. hist t = [Wr UEIENX (sbi RXSTPE x), Rd UEIENX x, Wr UENUM 0] @ h
    else writes UENUM (hist t) = writes UENUM (hist s)"
proof -
  obtain p s1 where s1: "int_pending e USB_INT_EORSTI s = (p, s1)" by fastforce
  show ?thesis
  proof (cases p)
    case True
    obtain u c s2 where s2: "Endpoint_ConfigureEndpoint e ENDPOINT_CONTROLEP EP_TYPE_CONTROL USB_Device_ControlEndpointSize 1 u = Some (c, s2)"
      and t: "t = set_bit_io e UEIENX RXSTPE s2"
      using t True unfolding gen_reset_def s1 Let_def prod.case
      by (auto simp: bind_eq_Some_conv USB_Event_Stub_def simp del: USB_INT_Disable.simps USB_INT_Clear.simps)
    obtain a b where "configure_loop e 0 a b 0 u = (c, s2)"
      using s2 by (auto simp: Endpoint_ConfigureEndpoint_def Endpoint_ConfigureEndpoint_Prv_def Let_def bind_eq_Some_conv
          ENDPOINT_CONTROLEP_def ENDPOINT_TOTAL_ENDPOINTS_def)
    then have c using configure_loop_ok [where e = e and N = 0 and a = a and b = b and n = 0 and s = u] ok by simp
    then obtain h where "hist s2 = Wr UENUM 0 # h"
      using configure_io [OF s2] by (auto simp: ENDPOINT_CONTROLEP_def)
    then show ?thesis using True s1 by (auto simp: t io_defs)
  next
    case False
    then show ?thesis using t s1 adds_writes [OF io_only_adds [OF int_pending_io [OF s1]], of UENUM]
      by (simp add: gen_reset_def)
  qed
qed

text \<open>
  C11. The endpoint selection across interrupts. The endpoint interrupt, whatever request it serves,
  enables its interrupt again with the control endpoint selected and then selects the endpoint that was selected
  when it began. The general interrupt leaves the selection alone unless a bus reset is pending; after a
  reset, with hardware that accepts the configuration, the control endpoint is selected, whatever was selected
  before: the handler does not restore the selection of the code it interrupted.
\<close>

theorem interrupt_endpoint_selection:
  assumes "\<And>h. bit (e h UESTA0X) CFGOK"
  shows "(USB_COM_vect e im s = Some t \<longrightarrow>
      (\<exists>x h. hist t = [Wr UENUM (e (hist s) UENUM AND ENDPOINT_EPNUM_MASK), Wr UEIENX (sbi RXSTPE x), Rd UEIENX x, Wr UENUM 0] @ h))
    \<and> (gen_wakeup e (gen_suspend e (gen_sof e s)) = Some r \<and> USB_GEN_vect e s = Some t \<longrightarrow>
      (if fst (int_pending e USB_INT_EORSTI r) then \<exists>x h. hist t = [Wr UEIENX (sbi RXSTPE x), Rd UEIENX x, Wr UENUM 0] @ h
       else writes UENUM (hist t) = writes UENUM (hist s)))"
proof (intro conjI impI)
  assume t: "USB_COM_vect e im s = Some t"
  obtain p s1 where s1: "Endpoint_GetCurrentEndpoint e s = (p, s1)" by fastforce
  have p: "p AND ENDPOINT_EPNUM_MASK = e (hist s) UENUM AND ENDPOINT_EPNUM_MASK"
    using s1 by (auto simp: Endpoint_GetCurrentEndpoint_def Endpoint_GetEndpointDirection_def io_defs usb_consts and.assoc
        bit.conj_disj_distrib2)
  obtain u where "t = Endpoint_SelectEndpoint p (set_bit_io e UEIENX RXSTPE (Endpoint_SelectEndpoint ENDPOINT_CONTROLEP u))"
    using t unfolding USB_COM_vect_def s1 Let_def prod.case by (auto simp: bind_eq_Some_conv)
  then show "\<exists>x h. hist t = [Wr UENUM (e (hist s) UENUM AND ENDPOINT_EPNUM_MASK), Wr UEIENX (sbi RXSTPE x), Rd UEIENX x, Wr UENUM 0] @ h"
    using p by (auto simp: Endpoint_SelectEndpoint_def io_defs ENDPOINT_CONTROLEP_def)
next
  assume t: "gen_wakeup e (gen_suspend e (gen_sof e s)) = Some r \<and> USB_GEN_vect e s = Some t"
  have "io_only (Access device_regs) s r"
    using gen_sof_io gen_suspend_io gen_wakeup_io t io_only_trans by meson
  then have "writes UENUM (hist r) = writes UENUM (hist s)" by (intro adds_writes [OF io_only_adds]) auto
  then show "if fst (int_pending e USB_INT_EORSTI r) then \<exists>x h. hist t = [Wr UEIENX (sbi RXSTPE x), Rd UEIENX x, Wr UENUM 0] @ h
       else writes UENUM (hist t) = writes UENUM (hist s)"
    using gen_reset_selects [of e r t] t assms by (auto simp: USB_GEN_vect_def split: if_splits)
qed

lemma ready_pll: "wait_pll ready_hw s \<noteq> None"
  by (subst wait_pll.simps) (simp add: USB_PLL_IsReady_def io_defs ready_hw_def bit_simps)

lemma mask_8: "Endpoint_BytesToEPSizeMask 8 \<noteq> None"
  using ep_size_loop_find [of 0 8 0] by (auto simp: Endpoint_BytesToEPSizeMask_def)

lemma ready_gen: "gen_wakeup ready_hw s \<noteq> None" "gen_reset ready_hw s \<noteq> None"
  by (auto simp: gen_wakeup_def gen_reset_def Let_def bind_eq_None_conv ready_pll Endpoint_ConfigureEndpoint_def mask_8
      USB_Device_ControlEndpointSize_def simp del: not_None_eq split: prod.splits)

lemma ready_request: "USB_Device_ProcessControlRequest ready_hw im s \<noteq> None"
proof -
  have r: "bRequest (USB_ControlRequest (read_request ready_hw s)) = - 1"
    by (simp add: read_request_def Let_def Endpoint_Read_8_def rd_def ready_hw_def)
  have c: "\<exists>h. CDC_Device_ProcessControlRequest ready_hw t = Some (t\<lparr>hist := h\<rparr>)" if "bRequest (USB_ControlRequest t) = - 1" for t
    using that by (auto simp: CDC_Device_ProcessControlRequest_def Endpoint_IsSETUPReceived_def io_defs ready_hw_def CDC_REQ_GetLineEncoding_def
        CDC_REQ_SetLineEncoding_def CDC_REQ_SetControlLineState_def CDC_REQ_SendBreak_def)
  have d: "\<exists>y. standard_request ready_hw im t = Some y" if "bRequest (USB_ControlRequest t) = - 1" for t
    using that by (simp add: standard_request_def Let_def REQ_GetStatus_def REQ_ClearFeature_def REQ_SetFeature_def REQ_SetAddress_def
        REQ_GetDescriptor_def REQ_GetConfiguration_def REQ_SetConfiguration_def)
  show ?thesis using c [OF r] d r
    by (auto simp: USB_Device_ProcessControlRequest_def EVENT_USB_Device_ControlRequest_def bind_eq_None_conv setup_read
        simp del: not_None_eq split: prod.splits)
qed

theorem interrupt_endpoint_selection_witness:
  "\<exists>t u x y h k. USB_COM_vect ready_hw packed_image serial_dev = Some t
     \<and> hist t = [Wr UENUM 15, Wr UEIENX (sbi RXSTPE x), Rd UEIENX x, Wr UENUM 0] @ h
     \<and> USB_GEN_vect ready_hw serial_dev = Some u \<and> hist u = [Wr UEIENX (sbi RXSTPE y), Rd UEIENX y, Wr UENUM 0] @ k"
proof -
  obtain t where t: "USB_COM_vect ready_hw packed_image serial_dev = Some t" 
    by (cases "USB_COM_vect ready_hw packed_image serial_dev")
      (auto simp: USB_COM_vect_def Let_def bind_eq_None_conv ready_request simp del: not_None_eq split: prod.splits)
  obtain r where r: "gen_wakeup ready_hw (gen_suspend ready_hw (gen_sof ready_hw serial_dev)) = Some r" using ready_gen by blast
  obtain u where u: "gen_reset ready_hw r = Some u" using ready_gen by blast
  have c: "\<And>h. bit (ready_hw h UESTA0X) CFGOK" by (simp add: ready_hw_def bit_simps)
  have p: "fst (int_pending ready_hw USB_INT_EORSTI r)" by (simp add: int_pending_def io_defs ready_hw_def bit_simps)
  have v: "ready_hw (hist serial_dev) UENUM AND ENDPOINT_EPNUM_MASK = 15" by (simp add: ready_hw_def ENDPOINT_EPNUM_MASK_def)
  have g: "USB_GEN_vect ready_hw serial_dev = Some u" using r u by (simp add: USB_GEN_vect_def)
  have a: "\<exists>x h. hist t = [Wr UENUM 15, Wr UEIENX (sbi RXSTPE x), Rd UEIENX x, Wr UENUM 0] @ h"
    using interrupt_endpoint_selection [of ready_hw packed_image serial_dev t r, OF c] t unfolding v by blast
  have b: "\<exists>y k. hist u = [Wr UEIENX (sbi RXSTPE y), Rd UEIENX y, Wr UENUM 0] @ k"
    using interrupt_endpoint_selection [of ready_hw packed_image serial_dev u r, OF c] r g p by auto
  from t g a b show ?thesis by blast
qed

end
