(* ===== verification/Descriptor_Facts.thy ===== *)
theory Descriptor_Facts
  imports Firmware Enumeration_Facts
begin

section \<open>Descriptors\<close>

text \<open>
  What the host gets when it asks for a descriptor, the serial number the device makes from its signature
  row, the consistency of the configuration descriptor with the endpoints the application sets up, and the
  functions that search a configuration.
\<close>

subsection \<open>The serial number\<close>

text \<open>Digit \<open>i\<close> is the low (\<open>i\<close> even) or high nibble of byte \<open>i div 2\<close> of the serial number, in hexadecimal.\<close>

definition serial_nibble :: "(u8 \<Rightarrow> u8) \<Rightarrow> nat \<Rightarrow> u8" where
  "serial_nibble g i = drop_bit (if odd i then 4 else 0) (g (INTERNAL_SERIAL_START_ADDRESS + of_nat (i div 2))) AND 0x0F"

definition hex_unit :: "u8 \<Rightarrow> u16" where
  "hex_unit n = (if n < 10 then ucast n + 0x30 else ucast n + 0x37)"

definition serial_units :: "(u8 \<Rightarrow> u8) \<Rightarrow> u16 list" where
  "serial_units g = map (\<lambda>i. hex_unit (serial_nibble g i)) [0..<20]"

lemma odd_bit: "(of_nat i :: u8) AND 1 \<noteq> 0 \<longleftrightarrow> odd i"
  by (simp add: and_one_eq mod_2_eq_odd bit_0 [symmetric] bit_simps del: bit_0)

lemma hex_unit_eq:
  "(if n \<ge> 10 then ucast (ch (CHR ''A'')) - 10 + ucast n else ucast (ch (CHR ''0'')) + ucast n) = hex_unit n"
  by (simp add: hex_unit_def not_less [symmetric] ch_simps)

lemma serial_step:
  assumes "i < 20"
  shows "serial_loop g (of_nat i) a = hex_unit (drop_bit (if odd i then 4 else 0) (g a) AND 0x0F)
    # serial_loop g (of_nat i + 1) (if odd i then a + 1 else a)"
proof -
  have u: "unat (of_nat i :: u8) < INTERNAL_SERIAL_LENGTH_BITS div 4"
    using assms by (simp add: unat_of_nat INTERNAL_SERIAL_LENGTH_BITS_def)
  show ?thesis
    unfolding serial_loop.simps [of g "of_nat i" a] if_P [OF u] Let_def hex_unit_eq odd_bit by (cases "odd i") simp_all
qed

lemma serial_loop_units:
  "i \<le> 20 \<Longrightarrow> serial_loop g (of_nat i) (INTERNAL_SERIAL_START_ADDRESS + of_nat (i div 2))
    = map (\<lambda>i. hex_unit (serial_nibble g i)) [i..<20]"
proof (induction "20 - i" arbitrary: i)
  case 0
  then show ?case by (subst serial_loop.simps) (simp add: INTERNAL_SERIAL_LENGTH_BITS_def unat_of_nat)
next
  case (Suc n)
  let ?a = "INTERNAL_SERIAL_START_ADDRESS + of_nat (i div 2)"
  have i: "i < 20" "unat (of_nat i :: u8) = i" using Suc(2) by (simp_all add: unat_of_nat)
  have IH: "serial_loop g (of_nat (Suc i)) (INTERNAL_SERIAL_START_ADDRESS + of_nat (Suc i div 2))
    = map (\<lambda>i. hex_unit (serial_nibble g i)) [Suc i..<20]" using Suc(2) by (intro Suc(1)) simp_all
  have a: "INTERNAL_SERIAL_START_ADDRESS + of_nat (Suc i div 2) = (if odd i then ?a + 1 else ?a)"
  proof -
    have "Suc i div 2 = (if odd i then Suc (i div 2) else i div 2)" by auto
    then show ?thesis by (auto simp only: if_True if_False of_nat_Suc add.assoc add.commute [of 1] split: if_splits)
  qed
  have "serial_loop g (of_nat i) ?a = hex_unit (serial_nibble g i) # serial_loop g (of_nat (Suc i)) (if odd i then ?a + 1 else ?a)"
    using serial_step [OF i(1), of g ?a] by (simp only: serial_nibble_def of_nat_Suc add.commute [of 1])
  then show ?case using i IH unfolding a by (simp add: upt_conv_Cons)
qed

lemma serial_string: "USB_Device_GetSerialString g s = (serial_units g, s)"
  using serial_loop_units [of 0 g]
  by (simp add: USB_Device_GetSerialString_def serial_units_def Let_def)

text \<open>The value of a hexadecimal digit.\<close>

definition unit_value :: "u16 \<Rightarrow> u8" where
  "unit_value u = (if u < 0x3A then ucast u - 0x30 else ucast u - 0x37)"

lemma unit_value_hex: "n < 16 \<Longrightarrow> unit_value (hex_unit n) = n"
proof -
  assume "n < 16"
  then have "unat n \<in> set [0..<16]" by (simp add: word_less_nat_alt)
  then have "n \<in> set (map of_nat [0..<16])" using image_eqI [of n of_nat "unat n"] by simp
  moreover have "list_all (\<lambda>n. unit_value (hex_unit n) = n) (map of_nat [0..<16])" by code_simp
  ultimately show ?thesis unfolding list_all_iff by blast
qed

text \<open>
  C39. The serial number string. The twenty digits of the string are the nibbles of ten bytes of the signature
  row, low nibble first, so the host can recover the bytes; the function leaves the interrupt flag, and
  everything else, as it was.
\<close>

theorem serial_number_round_trip:
  "let (u, t) = USB_Device_GetSerialString g s in
     t = s \<and> length u = 20
     \<and> map (\<lambda>i. unit_value (u ! (2 * i)) OR push_bit 4 (unit_value (u ! (2 * i + 1)))) [0..<10] = map (\<lambda>i. g (0x0E + of_nat i)) [0..<10]"
proof -
  have n: "serial_nibble g i < 16" for i
    unfolding serial_nibble_def by (rule le_less_trans [OF word_and_le1]) simp
  have "(w AND 0x0F) OR push_bit 4 (drop_bit 4 w AND 0x0F) = w" for w :: u8
  proof -
    have "v AND 0x0F = take_bit 4 v" for v :: u8 by (simp add: take_bit_eq_mask mask_eq_exp_minus_1)
    then show ?thesis by (simp only:) (rule word8_eqI, auto simp: bit_simps)
  qed
  then have "unit_value (serial_units g ! (2 * i)) OR push_bit 4 (unit_value (serial_units g ! (2 * i + 1))) = g (0x0E + of_nat i)"
    if "i < 10" for i
    using that by (simp add: serial_units_def unit_value_hex n) (simp add: serial_nibble_def INTERNAL_SERIAL_START_ADDRESS_def)
  then show ?thesis by (simp add: serial_string) (simp add: serial_units_def)
qed

subsection \<open>A descriptor request\<close>

text \<open>The bytes of the descriptor with a given number; a string constant ends with a zero that is not part of it.\<close>

definition descriptor_of :: "image \<Rightarrow> u16 \<Rightarrow> u8 list option" where
  "descriptor_of im v =
     (let n = ucast (v AND 0xFF) :: u8; ty = ucast (drop_bit 8 v) :: u8 in
      if v = 0x03DC then Some (string_bytes (signature_descriptor (serial_units (signature im))))
      else if ty = 1 then Some (device_bytes DeviceDescriptor)
      else if ty = 2 then Some (config_bytes ConfigurationDescriptor)
      else if ty = 3 \<and> n = 0 then Some (string_bytes LanguageString)
      else if ty = 3 \<and> n = 1 then Some (take 26 (string_bytes ManufacturerString))
      else if ty = 3 \<and> n = 2 then Some (take 36 (string_bytes ProductString))
      else None)"

lemma flash_stage:
  assumes "Length \<noteq> 0" "n = min (unat Length) (unat (wLength (USB_ControlRequest s)))"
    "host_takes e (length (writes UEDATX (hist s)) + n)"
  shows "\<exists>h. Endpoint_Write_Control_PStream_LE e p Length s = Some (0, s\<lparr>hist := h @ hist s\<rparr>)
    \<and> writes UEDATX h = map (\<lambda>i. flash s (p + of_nat i)) [0..<n]"
  using flash_up.control_write_correct [OF assms refl, of p]
  by (auto simp: Endpoint_Write_Control_PStream_LE_def flash_up.sent_def write_up_def offset_first_def)

lemma mem_stage:
  assumes "Length \<noteq> 0" "n = min (unat Length) (unat (wLength (USB_ControlRequest s)))"
    "host_takes e (length (writes UEDATX (hist s)) + n)"
  shows "\<exists>h. Endpoint_Write_Control_Stream_LE e p Length s = Some (0, s\<lparr>hist := h @ hist s\<rparr>)
    \<and> writes UEDATX h = map (\<lambda>i. mem s (p + of_nat i)) [0..<n]"
  using mem_up.control_write_correct [OF assms refl, of p]
  by (auto simp: Endpoint_Write_Control_Stream_LE_def mem_up.sent_def write_up_def offset_first_def)

lemma clear_setup_eq: "Endpoint_ClearSETUP e s = s\<lparr>hist := [Wr UEINTX (cbi RXSTPI (e (hist s) UEINTX)), Rd UEINTX (e (hist s) UEINTX)] @ hist s\<rparr>"
  by (simp add: Endpoint_ClearSETUP_def io_defs)

lemma clear_out_eq: "\<exists>v w. Endpoint_ClearOUT e s = s\<lparr>hist := [Wr UEINTX v, Rd UEINTX w] @ hist s\<rparr>"
  unfolding Endpoint_ClearOUT_def clear_mask_io_def rd_def wr_def Let_def by auto

lemma in_flash_prefix: "in_flash p bs s \<Longrightarrow> n \<le> length bs \<Longrightarrow> map (\<lambda>i. flash s (p + of_nat i)) [0..<n] = take n bs"
proof -
  assume a: "in_flash p bs s" "n \<le> length bs"
  have "take n bs = take n (map (\<lambda>i. flash s (p + of_nat i)) [0..<length bs])" using a(1) by (simp add: in_flash_def)
  then show ?thesis using a(2) by (simp add: take_map)
qed

lemma descriptor_lengths:
  "length (device_bytes DeviceDescriptor) = 18" "length (config_bytes ConfigurationDescriptor) = 62"
  "length (string_bytes LanguageString) = 4" "length (string_bytes ManufacturerString) = 28" "length (string_bytes ProductString) = 38"
  by code_simp+

lemma callback_flash:
  assumes "linked l s" "descriptor_of im v = Some bs" "v \<noteq> 0x03DC"
  shows "\<exists>n p cs. CALLBACK_USB_GetDescriptor l v i s = (n, p) \<and> n \<noteq> 0 \<and> in_flash p cs s \<and> unat n \<le> length cs \<and> bs = take (unat n) cs"
proof -
  let ?n = "ucast (v AND 0xFF) :: u8" and ?ty = "ucast (drop_bit 8 v) :: u8"
  note z = string_sizes [OF assms(1)]
  have f: "in_flash (at_Device l) (device_bytes DeviceDescriptor) s" "in_flash (at_Configuration l) (config_bytes ConfigurationDescriptor) s"
    "in_flash (at_Language l) (string_bytes LanguageString) s" "in_flash (at_Manufacturer l) (string_bytes ManufacturerString) s"
    "in_flash (at_Product l) (string_bytes ProductString) s"
    using assms(1) by (simp_all add: linked_def)
  consider "?ty = 1" "bs = device_bytes DeviceDescriptor" | "?ty = 2" "bs = config_bytes ConfigurationDescriptor"
    | "?ty = 3" "?n = 0" "bs = string_bytes LanguageString" | "?ty = 3" "?n = 1" "bs = take 26 (string_bytes ManufacturerString)"
    | "?ty = 3" "?n = 2" "bs = take 36 (string_bytes ProductString)"
    using assms(2,3) by (auto simp: descriptor_of_def Let_def split: if_splits)
  then show ?thesis
    by cases (insert f z descriptor_lengths, auto simp: CALLBACK_USB_GetDescriptor_def desc_consts sizeof_defs Let_def)
qed

lemma put_bytes_other: "(\<And>j. j < length bs \<Longrightarrow> q \<noteq> p + of_nat j) \<Longrightarrow> mem (put_bytes p bs s) q = mem s q"
proof (induction p bs s rule: put_bytes.induct)
  case (2 p b bs s)
  have "q \<noteq> p" using 2(2) [of 0] by simp
  moreover have "q \<noteq> p + 1 + of_nat j" if "j < length bs" for j using 2(2) [of "Suc j"] that by (simp add: add.assoc)
  ultimately show ?case using 2(1) by (simp add: put_mem_def)
qed simp

lemma put_bytes_mem: "length bs < 0x10000 \<Longrightarrow> i < length bs \<Longrightarrow> mem (put_bytes p bs s) (p + of_nat i) = bs ! i"
proof (induction p bs s arbitrary: i rule: put_bytes.induct)
  case (2 p b bs s)
  have o: "mem (put_bytes q cs u) p = mem u p" if "\<And>j. j < length cs \<Longrightarrow> p \<noteq> q + of_nat j" for q cs u
    using that by (rule put_bytes_other)
  show ?case
  proof (cases i)
    case 0
    have "p \<noteq> p + 1 + of_nat j" if "j < length bs" for j
    proof
      assume "p = p + 1 + of_nat j"
      then have "(of_nat (Suc j) :: u16) = 0" by (simp add: add.assoc)
      then have "unat (of_nat (Suc j) :: u16) = 0" by (simp only: unsigned_0)
      then show False using that 2(2) by (simp add: unat_of_nat del: of_nat_Suc)
    qed
    then show ?thesis using 0 o [of bs "p + 1"] by (simp add: put_mem_def)
  next
    case (Suc j)
    then show ?thesis using 2(1) [of j] 2(2,3) by (simp add: add.assoc)
  qed
qed simp

lemma serial_length: "length (string_bytes (signature_descriptor (serial_units g))) = 42"
  by (simp add: string_bytes_def signature_descriptor_def hdr_bytes_def serial_units_def length_concat comp_def bytes16_def sum_list_triv)

lemma put_bytes_request [simp]: "USB_ControlRequest (put_bytes p bs s) = USB_ControlRequest s"
  by (induction p bs s rule: put_bytes.induct) (simp_all add: put_mem_def)


definition asking_product :: usb_dev where
  "asking_product = packed_dev\<lparr>USB_ControlRequest := \<lparr>bmRequestType = 0x80, bRequest = 6, wValue = 0x0302, wIndex = 0x0409, wLength = 255\<rparr>\<rparr>"


subsection \<open>Searching a configuration\<close>

text \<open>A configuration is a list of descriptors, each starting with its size and type.\<close>

definition sized :: "u8 list \<Rightarrow> bool" where
  "sized d \<longleftrightarrow> 2 \<le> length d \<and> length d = unat (hd d)"

definition holds :: "(u16 \<Rightarrow> u8) \<Rightarrow> u16 \<Rightarrow> u8 list \<Rightarrow> bool" where
  "holds m p bs \<longleftrightarrow> map (\<lambda>i. m (p + of_nat i)) [0..<length bs] = bs"

definition has_type :: "u8 \<Rightarrow> u8 list \<Rightarrow> bool" where
  "has_type ty d \<longleftrightarrow> d ! 1 = ty"

text \<open>The place of a list of descriptors that ends at \<open>q\<close>: the bytes that remain and the address.\<close>

definition place :: "u16 \<Rightarrow> u8 list list \<Rightarrow> u16 \<times> u16" where
  "place q ds = (of_nat (length (concat ds)), q - of_nat (length (concat ds)))"

lemma holds_nth: "holds m p bs \<Longrightarrow> i < length bs \<Longrightarrow> m (p + of_nat i) = bs ! i"
  unfolding holds_def by (metis (no_types, lifting) add_0 length_map length_upt minus_nat.diff_0 nth_map nth_upt)

lemma holds_append: "holds m p (xs @ ys) \<Longrightarrow> holds m (p + of_nat (length xs)) ys"
proof -
  assume h: "holds m p (xs @ ys)"
  have "m (p + of_nat (length xs) + of_nat i) = ys ! i" if "i < length ys" for i
    using holds_nth [OF h, of "length xs + i"] that by (simp add: add.assoc)
  then show ?thesis unfolding holds_def by (intro nth_equalityI) auto
qed

lemma place_Cons: "snd (place q (d # ds)) + of_nat (length d) = snd (place q ds)"
  by (simp add: place_def)

lemma place_bytes: "length (concat ds) < 0x10000 \<Longrightarrow> list_all sized ds \<Longrightarrow> fst (place q ds) = 0 \<longleftrightarrow> ds = []"
proof -
  assume n: "length (concat ds) < 0x10000" and s: "list_all sized ds"
  have "unat (of_nat (length (concat ds)) :: u16) = length (concat ds)" using n by (simp add: unat_of_nat)
  then have "(of_nat (length (concat ds)) :: u16) = 0 \<longleftrightarrow> length (concat ds) = 0" by (simp only: unat_eq_0 [symmetric])
  then show ?thesis using s by (cases ds) (auto simp: place_def sized_def)
qed

lemma next_place:
  assumes d: "sized d" and h: "holds m (snd (place q (d # ds))) (concat (d # ds))" and n: "length (concat (d # ds)) < 0x10000"
  shows "USB_GetNextDescriptor m (place q (d # ds)) = place q ds" "holds m (snd (place q ds)) (concat ds)"
proof -
  let ?p = "snd (place q (d # ds))"
  have "m ?p = hd d" using holds_nth [OF h, of 0] d by (cases d) (simp_all add: sized_def)
  then have z: "(ucast (DESCRIPTOR_SIZE m ?p) :: u16) = of_nat (length d)"
    using d by (simp add: DESCRIPTOR_SIZE_def sized_def)
  have le: "\<not> (of_nat (length (concat (d # ds))) :: u16) < of_nat (length d)"
  proof -
    have "unat (of_nat (length (concat (d # ds))) :: u16) = length (concat (d # ds))" "unat (of_nat (length d) :: u16) = length d"
      using n by (auto simp: unat_of_nat simp del: of_nat_add)
    then show ?thesis unfolding word_less_nat_alt by simp
  qed
  have "fst (place q (d # ds)) = of_nat (length (concat (d # ds)))" by (simp add: place_def)
  then show "USB_GetNextDescriptor m (place q (d # ds)) = place q ds"
    using le place_Cons [of q d ds] by (simp add: USB_GetNextDescriptor_def case_prod_unfold z Let_def prod_eq_iff) (simp add: place_def)
  show "holds m (snd (place q ds)) (concat ds)"
    using holds_append [of m ?p d "concat ds"] h place_Cons [of q d ds] by simp
qed

lemma type_at: "holds m p (concat (d # ds)) \<Longrightarrow> sized d \<Longrightarrow> DESCRIPTOR_TYPE m p = d ! 1"
  using holds_nth [of m p "concat (d # ds)" 1] by (simp add: DESCRIPTOR_TYPE_def sized_def nth_append)

text \<open>The next descriptor of a type, by the descriptors after the current one.\<close>

lemma search_type:
  assumes "list_all sized (d # ds)" "holds m (snd (place q (d # ds))) (concat (d # ds))" "length (concat (d # ds)) < 0x10000"
  shows "USB_GetNextDescriptorOfType m ty (place q (d # ds)) = Some (place q (dropWhile (\<lambda>x. \<not> has_type ty x) ds))"
  using assms
proof (induction ds arbitrary: d)
  case Nil
  have "USB_GetNextDescriptorOfType m ty (place q []) = Some (place q [])"
    by (subst USB_GetNextDescriptorOfType.simps) (simp add: place_def)
  moreover have "fst (place q [d]) \<noteq> 0" using Nil by (simp add: place_bytes)
  ultimately show ?case using next_place(1) [of d m q "[]"] Nil
    by (subst USB_GetNextDescriptorOfType.simps) (simp add: Let_def)
next
  case (Cons x ds)
  have ne: "fst (place q (d # x # ds)) \<noteq> 0" using Cons.prems by (simp add: place_bytes)
  note st = next_place [of d m q "x # ds"]
  have h: "holds m (snd (place q (x # ds))) (concat (x # ds))" using st(2) Cons.prems by simp
  have "DESCRIPTOR_TYPE m (snd (place q (x # ds))) = x ! 1" using type_at [OF h] Cons.prems by simp
  moreover have "USB_GetNextDescriptorOfType m ty (place q (x # ds)) = Some (place q (dropWhile (\<lambda>x. \<not> has_type ty x) ds))"
    using Cons h by simp
  ultimately show ?case using ne st(1) Cons.prems
    by (subst USB_GetNextDescriptorOfType.simps) (simp add: Let_def has_type_def)
qed

lemma search_before:
  assumes "list_all sized (d # ds)" "holds m (snd (place q (d # ds))) (concat (d # ds))" "length (concat (d # ds)) < 0x10000"
  shows "USB_GetNextDescriptorOfTypeBefore m ty b (place q (d # ds)) =
    (let r = dropWhile (\<lambda>x. \<not> has_type ty x \<and> \<not> has_type b x) ds
     in Some (if r = [] \<or> has_type ty (hd r) then place q r else (0, snd (place q r))))"
  using assms
proof (induction ds arbitrary: d)
  case Nil
  have "USB_GetNextDescriptorOfTypeBefore m ty b (place q []) = Some (place q [])"
    by (subst USB_GetNextDescriptorOfTypeBefore.simps) (simp add: place_def)
  moreover have "fst (place q [d]) \<noteq> 0" using Nil by (simp add: place_bytes)
  moreover have "place q [] = (0, snd (place q []))" by (simp add: place_def)
  ultimately show ?case using next_place(1) [of d m q "[]"] Nil
    by (subst USB_GetNextDescriptorOfTypeBefore.simps) (simp add: Let_def)
next
  case (Cons x ds)
  have ne: "fst (place q (d # x # ds)) \<noteq> 0" using Cons.prems by (simp add: place_bytes)
  note st = next_place [of d m q "x # ds"]
  have h: "holds m (snd (place q (x # ds))) (concat (x # ds))" using st(2) Cons.prems by simp
  have "DESCRIPTOR_TYPE m (snd (place q (x # ds))) = x ! 1" using type_at [OF h] Cons.prems by simp
  moreover note Cons.IH [of x]
  ultimately show ?case using ne st(1) Cons.prems h
    by (subst USB_GetNextDescriptorOfTypeBefore.simps) (simp add: Let_def has_type_def)
qed

lemma search_suffix:
  assumes "list_all sized (d # ds)" "holds m (snd (place q (d # ds))) (concat (d # ds))" "length (concat (d # ds)) < 0x10000"
    "ds = xs @ ys"
  shows "holds m (snd (place q ys)) (concat ys)" "length (concat ys) < 0x10000"
proof -
  have "snd (place q (d # ds)) + of_nat (length (concat (d # xs))) = snd (place q ys)"
    by (simp add: place_def assms(4))
  then show "holds m (snd (place q ys)) (concat ys)" using assms(2,4) holds_append [of m "snd (place q (d # ds))" "concat (d # xs)" "concat ys"] by auto
  show "length (concat ys) < 0x10000" using assms(3,4) by simp
qed

lemma search_after:
  assumes a: "list_all sized (d # ds)" "holds m (snd (place q (d # ds))) (concat (d # ds))" "length (concat (d # ds)) < 0x10000"
  shows "USB_GetNextDescriptorOfTypeAfter m ty b (place q (d # ds)) =
    Some (place q (dropWhile (\<lambda>x. \<not> has_type ty x) (tl (dropWhile (\<lambda>x. \<not> has_type b x) ds))))"
proof -
  let ?r = "dropWhile (\<lambda>x. \<not> has_type b x) ds"
  have ds: "ds = takeWhile (\<lambda>x. \<not> has_type b x) ds @ ?r" by simp
  have r: "list_all sized ?r" using a(1) ds by (metis list_all_append list.pred_inject(2))
  note h = search_suffix [OF a ds]
  have z: "fst (place q ?r) = 0 \<longleftrightarrow> ?r = []" using place_bytes [OF h(2) r] .
  show ?thesis
  proof (cases ?r)
    case Nil
    show ?thesis using search_type [OF a, of b] z unfolding USB_GetNextDescriptorOfTypeAfter_def Nil by simp
  next
    case (Cons x xs)
    show ?thesis using search_type [OF a, of b] z search_type [of x xs m q ty] h r
      unfolding USB_GetNextDescriptorOfTypeAfter_def Cons by simp
  qed
qed

lemma search_zero: "m p = 0 \<Longrightarrow> m (p + 1) \<noteq> ty \<Longrightarrow> n \<noteq> 0 \<Longrightarrow> USB_GetNextDescriptorOfType m ty (n, p) = None"
proof (rule ccontr)
  assume a: "m p = 0" "m (p + 1) \<noteq> ty" "n \<noteq> 0" "USB_GetNextDescriptorOfType m ty (n, p) \<noteq> None"
  then obtain y where y: "USB_GetNextDescriptorOfType m ty (n, p) = Some y" by blast
  have "\<not> (m p = 0 \<and> m (p + 1) \<noteq> ty \<and> (n, p) = (n, p) \<and> n \<noteq> 0)"
    by (rule USB_GetNextDescriptorOfType.raw_induct [of "\<lambda>m ty c y. \<not> (m p = 0 \<and> m (p + 1) \<noteq> ty \<and> c = (n, p) \<and> n \<noteq> 0)", OF _ y])
      (auto simp: USB_GetNextDescriptor_def DESCRIPTOR_SIZE_def DESCRIPTOR_TYPE_def Let_def split: if_splits)
  with a show False by simp
qed

text \<open>
  C40. The search functions. On memory that holds a list of descriptors with correct sizes they return, and find
  what a search of the list finds: the next descriptor of a type; the next of a type before one of
  another type, with no bytes left when that comes first; the next of a type after the next one of another
  type. At the end of the list no bytes are left. A descriptor of size 0 that is not of the type makes the search
  run forever.
\<close>

theorem search_finds_first:
  assumes "list_all sized (d # ds)" and "holds m (snd (place q (d # ds))) (concat (d # ds))" and "length (concat (d # ds)) < 0x10000"
  shows "USB_GetNextDescriptorOfType m ty (place q (d # ds)) = Some (place q (dropWhile (\<lambda>x. \<not> has_type ty x) ds))
    \<and> USB_GetNextDescriptorOfTypeBefore m ty b (place q (d # ds)) =
        (let r = dropWhile (\<lambda>x. \<not> has_type ty x \<and> \<not> has_type b x) ds
         in Some (if r = [] \<or> has_type ty (hd r) then place q r else (0, snd (place q r))))
    \<and> USB_GetNextDescriptorOfTypeAfter m ty b (place q (d # ds)) =
        Some (place q (dropWhile (\<lambda>x. \<not> has_type ty x) (tl (dropWhile (\<lambda>x. \<not> has_type b x) ds))))
    \<and> (m p = 0 \<and> m (p + 1) \<noteq> ty \<and> n \<noteq> 0 \<longrightarrow> USB_GetNextDescriptorOfType m ty (n, p) = None)"
  using search_type [OF assms] search_before [OF assms] search_after [OF assms] search_zero by blast

subsection \<open>The configuration of the device\<close>

text \<open>The descriptors in the bytes of a configuration.\<close>

function split_descriptors :: "u8 list \<Rightarrow> u8 list list" where
  "split_descriptors bs =
     (if bs = [] \<or> hd bs = 0 then []
      else take (unat (hd bs)) bs # split_descriptors (drop (unat (hd bs)) bs))"
  by pat_completeness auto
termination
  by (relation "measure length") (auto simp: unat_gt_0)

declare split_descriptors.simps [simp del]

text \<open>Every interface is followed by as many endpoints as it says.\<close>

fun interfaces_ok :: "u8 list list \<Rightarrow> bool" where
  "interfaces_ok [] = True"
| "interfaces_ok (d # ds) =
     ((has_type 4 d \<longrightarrow> unat (d ! 4) = length (filter (has_type 5) (takeWhile (\<lambda>x. \<not> has_type 4 x) ds))) \<and> interfaces_ok ds)"

definition valid_configuration :: "u8 list \<Rightarrow> bool" where
  "valid_configuration bs =
     (let ds = split_descriptors bs; es = filter (has_type 5) ds; fs = filter (has_type 4) ds
      in concat ds = bs \<and> list_all sized ds \<and> ds \<noteq> [] \<and> has_type 2 (hd ds)
       \<and> unat (word16 [hd ds ! 2, hd ds ! 3]) = length bs \<and> unat (hd ds ! 4) = length fs
       \<and> map (\<lambda>d. unat (d ! 2)) fs = [0..<length fs] \<and> interfaces_ok ds
       \<and> distinct (map (\<lambda>d. d ! 2) es)
       \<and> list_all (\<lambda>d. 0 < d ! 2 AND ENDPOINT_EPNUM_MASK \<and> d ! 2 AND ENDPOINT_EPNUM_MASK < ENDPOINT_TOTAL_ENDPOINTS) es)"

lemma configuration_valid: "valid_configuration (config_bytes ConfigurationDescriptor)"
  by code_simp

text \<open>Address, transfer type and size of an endpoint descriptor.\<close>

definition endpoint_entry :: "u8 list \<Rightarrow> u8 \<times> u8 \<times> u16" where
  "endpoint_entry d = (d ! 2, d ! 3 AND 3, word16 [d ! 4, d ! 5])"

lemma configuration_endpoints:
  "map endpoint_entry (filter (has_type 5) (split_descriptors (config_bytes ConfigurationDescriptor)))
   = [(0x82, 3, 8), (0x04, 2, 16), (0x83, 2, 16)]"
  by code_simp

lemma configure_sizes:
  assumes "epSize p = 8 \<or> epSize p = 16"
  obtains ok t where "Endpoint_ConfigureEndpointTable e [p] s = Some (ok, t)"
    "VirtualSerial_CDC_Interface t = VirtualSerial_CDC_Interface s"
proof -
  have "Endpoint_ConfigureEndpoint e a ty 8 b s \<noteq> None" for a ty b
    by (simp add: Endpoint_ConfigureEndpoint_def Let_def bind_eq_None_conv mask_8 del: not_None_eq)
  then obtain ok t where "Endpoint_ConfigureEndpoint e (epAddress p) (epType p) (epSize p) (epBanks p) s = Some (ok, t)"
    using assms configure_16 [of e "epAddress p" "epType p" "epBanks p" s] by fastforce
  then obtain ok t where c: "Endpoint_ConfigureEndpointTable e [p] s = Some (ok, t)"
    by (cases "epAddress p = 0"; cases ok) auto
  then show ?thesis using that io_only_fields(6) [OF configure_table_io] by blast
qed

lemma cdc_endpoints_set_up:
  assumes "VirtualSerial_CDC_Interface s = cdc_interface_init"
  obtains ok t where "CDC_Device_ConfigureEndpoints e s = Some (ok, t)"
    "VirtualSerial_CDC_Interface t = (clear_cdc_state cdc_interface_init)\<lparr>
       DataINEndpoint := \<lparr>epAddress = 0x83, epSize = 16, epType = EP_TYPE_BULK, epBanks = 1\<rparr>,
       DataOUTEndpoint := \<lparr>epAddress = 0x04, epSize = 16, epType = EP_TYPE_BULK, epBanks = 1\<rparr>,
       NotificationEndpoint := \<lparr>epAddress = 0x82, epSize = 8, epType = EP_TYPE_INTERRUPT, epBanks = 1\<rparr>\<rparr>"
proof -
  let ?in = "\<lparr>epAddress = 0x83, epSize = 16, epType = EP_TYPE_BULK, epBanks = 1\<rparr>"
  let ?out = "\<lparr>epAddress = 0x04, epSize = 16, epType = EP_TYPE_BULK, epBanks = 1\<rparr>"
  let ?not = "\<lparr>epAddress = 0x82, epSize = 8, epType = EP_TYPE_INTERRUPT, epBanks = 1\<rparr>"
  let ?i = "(clear_cdc_state cdc_interface_init)\<lparr>DataINEndpoint := ?in, DataOUTEndpoint := ?out, NotificationEndpoint := ?not\<rparr>"
  let ?s = "s\<lparr>VirtualSerial_CDC_Interface := ?i\<rparr>"
  obtain o1 s1 where 1: "Endpoint_ConfigureEndpointTable e [?in] ?s = Some (o1, s1)" "VirtualSerial_CDC_Interface s1 = ?i"
    using configure_sizes [of ?in e ?s] by auto
  obtain o2 s2 where 2: "Endpoint_ConfigureEndpointTable e [?out] s1 = Some (o2, s2)" "VirtualSerial_CDC_Interface s2 = ?i"
    using configure_sizes [of ?out e s1] 1(2) by auto
  obtain o3 s3 where 3: "Endpoint_ConfigureEndpointTable e [?not] s2 = Some (o3, s3)" "VirtualSerial_CDC_Interface s3 = ?i"
    using configure_sizes [of ?not e s2] 2(2) by auto
  have i: "(clear_cdc_state cdc_interface_init)\<lparr>DataINEndpoint := (DataINEndpoint (clear_cdc_state cdc_interface_init))\<lparr>epType := EP_TYPE_BULK\<rparr>,
      DataOUTEndpoint := (DataOUTEndpoint (clear_cdc_state cdc_interface_init))\<lparr>epType := EP_TYPE_BULK\<rparr>,
      NotificationEndpoint := (NotificationEndpoint (clear_cdc_state cdc_interface_init))\<lparr>epType := EP_TYPE_INTERRUPT\<rparr>\<rparr> = ?i"
    by (simp add: clear_cdc_state_def cdc_interface_init_def CDC_TX_EPADDR_def CDC_RX_EPADDR_def CDC_NOTIFICATION_EPADDR_def
        CDC_TXRX_EPSIZE_def CDC_NOTIFICATION_EPSIZE_def ENDPOINT_DIR_IN_def ENDPOINT_DIR_OUT_def)
  have d: "DataINEndpoint ?i = ?in" "DataOUTEndpoint ?i = ?out" "NotificationEndpoint ?i = ?not" by simp_all
  have "CDC_Device_ConfigureEndpoints e s = Some (if \<not> o1 then (False, s1) else if \<not> o2 then (False, s2) else (o3, s3))"
    unfolding CDC_Device_ConfigureEndpoints_def assms Let_def i d 1(1) bind.bind_lunit case_prod_conv
    using 2(1) 3(1) by (simp del: Endpoint_ConfigureEndpointTable.simps)
  then show ?thesis using that 1(2) 2(2) 3(2) by (cases o1; cases o2) auto
qed


text \<open>The search on the device's own configuration: the endpoint descriptor that follows the second interface.\<close>

definition own_descriptors :: "u8 list list" where
  "own_descriptors = split_descriptors (config_bytes ConfigurationDescriptor)"

lemma own_concat: "concat own_descriptors = config_bytes ConfigurationDescriptor" "list_all sized own_descriptors"
  using configuration_valid unfolding valid_configuration_def own_descriptors_def Let_def by blast+

lemma own_found:
  "dropWhile (\<lambda>x. \<not> has_type 5 x) (tl (dropWhile (\<lambda>x. \<not> has_type 0x24 x) (tl own_descriptors))) = drop 5 own_descriptors"
  by code_simp

lemma own_facts:
  "holds packed_flash (snd (place 80 own_descriptors)) (concat own_descriptors)"
  "length (concat own_descriptors) < 0x10000" "own_descriptors \<noteq> []"
proof -
  have n: "length (concat own_descriptors) = 62" by (simp add: own_concat descriptor_lengths)
  have "in_flash 18 (config_bytes ConfigurationDescriptor) packed_dev"
    using packed_linked by (simp add: linked_def packed_image_def the_layout_def layout.truncate_def)
  then have "holds packed_flash 18 (config_bytes ConfigurationDescriptor)" by (simp add: in_flash_def holds_def packed_dev_def)
  then show "holds packed_flash (snd (place 80 own_descriptors)) (concat own_descriptors)" by (simp add: place_def own_concat descriptor_lengths)
  show "length (concat own_descriptors) < 0x10000" "own_descriptors \<noteq> []" using n by auto
qed

theorem search_finds_first_witness:
  "list_all sized own_descriptors \<and> holds packed_flash (snd (place 80 own_descriptors)) (concat own_descriptors)
   \<and> USB_GetNextDescriptorOfTypeAfter packed_flash 5 0x24 (place 80 own_descriptors) = Some (place 80 (drop 5 own_descriptors))"
proof -
  obtain d ds where c: "own_descriptors = d # ds" using own_facts(3) by (cases own_descriptors) auto
  show ?thesis using own_facts(1,2) own_concat(2) own_found search_finds_first [of d ds packed_flash 80 5 "0x24"] unfolding c by simp
qed

end
