(* ===== verification/Hid_Device_Facts.thy ===== *)
theory Hid_Device_Facts
  imports Hid_Device Descriptor_Facts
begin

section \<open>HID reports\<close>

text \<open>
  When the task of the HID driver sends a report, and what the host reads back of the settings it made.
\<close>

subsection \<open>A free bank\<close>

text \<open>The selected endpoint is an IN endpoint whose bank takes data at any time, on a configured device.\<close>

definition in_free :: "env \<Rightarrow> bool" where
  "in_free e \<longleftrightarrow> (\<forall>h. e h GPIOR0 = DEVICE_STATE_Configured \<and> bit (e h UECFG0X) EPDIR
     \<and> bit (e h UEINTX) TXINI \<and> bit (e h UEINTX) RWAL)"

lemma free_wait:
  assumes "in_free e"
  shows "\<exists>h. Endpoint_WaitUntilReady e s = Some (ENDPOINT_READYWAIT_NoError, s\<lparr>hist := h @ hist s\<rparr>) \<and> set h \<subseteq> Reads {UDFNUML, UDFNUMH, UECFG0X, UEINTX}"
proof -
  let ?h = "Rd UDFNUMH (e (Rd UDFNUML (e (hist s) UDFNUML) # hist s) UDFNUMH) # Rd UDFNUML (e (hist s) UDFNUML) # hist s"
  let ?k = "Rd UECFG0X (e ?h UECFG0X) # ?h"
  have "Endpoint_WaitUntilReady e s = Some (ENDPOINT_READYWAIT_NoError, s\<lparr>hist := Rd UEINTX (e ?k UEINTX) # ?k\<rparr>)"
    using assms unfolding in_free_def Endpoint_WaitUntilReady_def USB_Device_GetFrameNumber_def rd_def Let_def prod.case
    by (subst ready_loop.simps)
      (simp add: ready_turn_def Endpoint_GetEndpointDirection_def Endpoint_IsINReady_def io_defs)
  then show ?thesis
    by (intro exI [of _ "[Rd UEINTX (e ?k UEINTX), Rd UECFG0X (e ?h UECFG0X),
        Rd UDFNUMH (e (Rd UDFNUML (e (hist s) UDFNUML) # hist s) UDFNUMH), Rd UDFNUML (e (hist s) UDFNUML)]"]) simp
qed

lemma free_loop:
  assumes "in_free e"
  shows "\<exists>h. rw_loop (write_up mem) e p L n None s = Some (0, None, s\<lparr>hist := h @ hist s\<rparr>)
    \<and> writes UEDATX h = mem_bytes p (unat L) s \<and> set h \<subseteq> Reads {UEINTX} \<union> range (Wr UEDATX)"
proof (induction "unat L" arbitrary: p L n s)
  case 0
  then have "L = 0" by (simp add: unat_eq_0)
  then show ?case by (intro exI [of _ "[]"], subst rw_loop.simps) (simp add: stream_consts mem_bytes_def)
next
  case (Suc k)
  let ?v = "e (hist s) UEINTX"
  let ?s = "s\<lparr>hist := [Wr UEDATX (mem s p), Rd UEINTX ?v] @ hist s\<rparr>"
  have L: "L \<noteq> 0" using Suc(2) by auto
  then have k: "unat (L - 1) = k" using Suc(2) unat_pred [of L] by simp
  from Suc(1) [of "L - 1" "p + 1" "n + 1" ?s] k obtain h where h:
    "rw_loop (write_up mem) e (p + 1) (L - 1) (n + 1) None ?s = Some (0, None, ?s\<lparr>hist := h @ hist ?s\<rparr>)"
    "writes UEDATX h = mem_bytes (p + 1) k ?s" "set h \<subseteq> Reads {UEINTX} \<union> range (Wr UEDATX)" by auto
  have "bit ?v RWAL" using assms by (simp add: in_free_def)
  then have "rw_loop (write_up mem) e p L n None s = rw_loop (write_up mem) e (p + 1) (L - 1) (n + 1) None ?s"
    using L by (subst rw_loop.simps) (simp add: rwal_eq mem_up.transfer_step, simp add: write_up_def move_up_def)
  moreover have "mem_bytes p (Suc k) s = mem s p # mem_bytes (p + 1) k ?s"
    by (simp add: mem_bytes_def upt_conv_Cons map_Suc_upt [symmetric] add.assoc del: upt_Suc)
  ultimately show ?case using h Suc(2)
    by (intro exI [of _ "h @ [Wr UEDATX (mem s p), Rd UEINTX ?v]"]) simp
qed

lemma free_write:
  assumes "in_free e"
  shows "\<exists>h. Endpoint_Write_Stream_LE e p L None s = Some (0, None, s\<lparr>hist := h @ hist s\<rparr>)
    \<and> writes UEDATX h = mem_bytes p (unat L) s"
proof -
  obtain g where g: "Endpoint_WaitUntilReady e s = Some (ENDPOINT_READYWAIT_NoError, s\<lparr>hist := g @ hist s\<rparr>)"
    "set g \<subseteq> Reads {UDFNUML, UDFNUMH, UECFG0X, UEINTX}"
    using free_wait [OF assms] by blast
  obtain h where h: "rw_loop (write_up mem) e p L 0 None (s\<lparr>hist := g @ hist s\<rparr>) = Some (0, None, s\<lparr>hist := h @ g @ hist s\<rparr>)"
    "writes UEDATX h = mem_bytes p (unat L) s"
    using free_loop [OF assms, of p L 0 "s\<lparr>hist := g @ hist s\<rparr>"] by (auto simp: mem_bytes_def)
  have "set (writes UEDATX g) = {}" using g(2) by (auto simp: writes_set)
  then show ?thesis using g(1) h
    by (intro exI [of _ "h @ g"])
      (simp add: Endpoint_Write_Stream_LE_def rw_stream_def, simp add: write_up_def offset_first_def)
qed

subsection \<open>Reports\<close>

lemma put_mem_hist: "put_mem p b (s\<lparr>hist := h\<rparr>) = (put_mem p b s)\<lparr>hist := h\<rparr>" for s :: usb_dev
  by (simp add: put_mem_def)

lemma put_bytes_fields [simp]:
  "hist (put_bytes p bs (s\<lparr>hist := h\<rparr>)) = h" "put_bytes p bs (s\<lparr>hist := h\<rparr>) = (put_bytes p bs s)\<lparr>hist := h\<rparr>"
proof -
  show x: "put_bytes p bs (s\<lparr>hist := h\<rparr>) = (put_bytes p bs s)\<lparr>hist := h\<rparr>"
    by (induction p bs s rule: put_bytes.induct) (simp_all add: put_mem_hist)
  show "hist (put_bytes p bs (s\<lparr>hist := h\<rparr>)) = h" by (simp add: x)
qed

lemma mem_bytes_hist [simp]: "mem_bytes p n (s\<lparr>hist := h\<rparr>) = mem_bytes p n s"
  by (simp add: mem_bytes_def)

text \<open>Two areas of \<open>n\<close> bytes with no byte in common.\<close>

definition apart :: "u16 \<Rightarrow> u16 \<Rightarrow> nat \<Rightarrow> bool" where
  "apart p q n \<longleftrightarrow> (\<forall>i<n. \<forall>j<n. p + of_nat i \<noteq> q + of_nat j)"

lemma mem_bytes_apart:
  assumes "apart p q n" "length bs \<le> n" "k \<le> n"
  shows "mem_bytes q k (put_bytes p bs s) = mem_bytes q k s"
  using assms unfolding mem_bytes_def apart_def
  by (intro map_cong refl put_bytes_other) (metis atLeastLessThan_iff order_less_le_trans set_upt)

lemma mem_bytes_put:
  assumes "length bs < 0x10000"
  shows "mem_bytes p (length bs) (put_bytes p bs s) = bs"
  using put_bytes_mem [OF assms, of _ p s] by (intro nth_equalityI) (auto simp: mem_bytes_def)

lemma mem_bytes_prefix: "k \<le> n \<Longrightarrow> mem_bytes p k s = take k (mem_bytes p n s)"
  by (simp add: mem_bytes_def take_map)

text \<open>After clearing \<open>n\<close> bytes and writing a report there, the area holds the report and zeros.\<close>

lemma mem_report:
  assumes "length bs \<le> n" "n < 0x10000"
  shows "mem_bytes p n (put_bytes p bs (memset_0 p n s)) = bs @ replicate (n - length bs) 0"
proof (rule nth_equalityI)
  fix i assume "i < length (mem_bytes p n (put_bytes p bs (memset_0 p n s)))"
  then have i: "i < n" by (simp add: mem_bytes_def)
  have z: "mem (memset_0 p n s) (p + of_nat i) = 0"
    using put_bytes_mem [of "replicate n 0" i p s] i assms by (simp add: memset_0_def)
  show "mem_bytes p n (put_bytes p bs (memset_0 p n s)) ! i = (bs @ replicate (n - length bs) 0) ! i"
  proof (cases "i < length bs")
    case True
    then show ?thesis using put_bytes_mem [of bs i p] i assms by (simp add: mem_bytes_def nth_append)
  next
    case False
    have "p + of_nat i \<noteq> p + (of_nat j :: u16)" if "j < length bs" for j
    proof -
      have "unat (of_nat i :: u16) = i" "unat (of_nat j :: u16) = j" using that i assms by (simp_all add: unat_of_nat)
      then show ?thesis using that False by auto
    qed
    then show ?thesis using z False i by (simp add: mem_bytes_def nth_append put_bytes_other)
  qed
qed (use assms in \<open>simp add: mem_bytes_def\<close>)

text \<open>The callback stores the report \<open>bs\<close> in its buffer and changes nothing else.\<close>

definition stores_report :: "create_report \<Rightarrow> u16 \<Rightarrow> USB_ClassInfo_HID_Device_t \<Rightarrow> bool \<Rightarrow> u8 \<Rightarrow> u8 list \<Rightarrow> bool" where
  "stores_report create buf i force rid bs \<longleftrightarrow>
     (\<forall>s. create 0 0 buf (i, s) = (force, rid, of_nat (length bs), i, put_bytes buf bs s))"

definition send_due :: "USB_ClassInfo_HID_Device_t \<Rightarrow> bool \<Rightarrow> u8 list \<Rightarrow> usb_dev \<Rightarrow> bool" where
  "send_due i force bs s \<longleftrightarrow> bs \<noteq> []
     \<and> (force \<or> PrevReportINBuffer i \<noteq> 0 \<and> mem_bytes (PrevReportINBuffer i) (length bs) s \<noteq> bs
        \<or> IdleCount i \<noteq> 0 \<and> IdleMSRemaining i = 0)"

definition report_packet :: "u8 \<Rightarrow> u8 list \<Rightarrow> u8 list" where
  "report_packet rid bs = (if rid \<noteq> 0 then [rid] else []) @ bs"

lemma frame_number_result:
  "\<exists>f k. USB_Device_GetFrameNumber e s = (f, s\<lparr>hist := k @ hist s\<rparr>) \<and> writes UEDATX k = []"
proof -
  let ?l = "e (hist s) UDFNUML"
  let ?h = "e (Rd UDFNUML ?l # hist s) UDFNUMH"
  have "USB_Device_GetFrameNumber e s = (word16 [?l, ?h], s\<lparr>hist := [Rd UDFNUMH ?h, Rd UDFNUML ?l] @ hist s\<rparr>)"
    by (simp add: USB_Device_GetFrameNumber_def rd_def Let_def)
  then show ?thesis by (intro exI [of _ "word16 [?l, ?h]"] exI [of _ "[Rd UDFNUMH ?h, Rd UDFNUML ?l]"]) simp
qed

lemma poll_reports:
  assumes free: "in_free e" and cb: "stores_report create buf i force rid bs"
    and n: "N = unat (PrevReportINBufferSize i)" "length bs \<le> N"
    and ap: "PrevReportINBuffer i = 0 \<or> apart buf (PrevReportINBuffer i) N"
  shows "\<exists>i' t h. hid_poll create buf e (i, s) = Some (i', t) \<and> hist t = h @ hist s
    \<and> writes UEDATX h = (if send_due i force bs s then report_packet rid bs else [])
    \<and> IdleMSRemaining i' = (if send_due i force bs s then IdleCount i else IdleMSRemaining i)
    \<and> (PrevReportINBuffer i \<noteq> 0 \<longrightarrow> mem_bytes (PrevReportINBuffer i) N t = bs @ replicate (N - length bs) 0)"
proof -
  let ?prev = "PrevReportINBuffer i"
  have "unat (PrevReportINBufferSize i) < 2 ^ LENGTH(8)" by (rule unsigned_less)
  then have N: "N < 0x10000" using n(1) by simp
  then have l: "unat (of_nat (length bs) :: u16) = length bs" using n(2) by (simp add: unat_of_nat)
  then have z: "(of_nat (length bs) :: u16) = 0 \<longleftrightarrow> bs = []" by (metis length_0_conv unat_eq_0)
  let ?s1 = "put_bytes buf bs (memset_0 buf N s)"
  have full: "mem_bytes buf N ?s1 = bs @ replicate (N - length bs) 0" using mem_report [OF n(2) N] .
  have bs: "mem_bytes buf (length bs) ?s1 = bs" using mem_bytes_prefix [OF n(2), of buf ?s1] full by simp
  have old: "mem_bytes ?prev (length bs) ?s1 = mem_bytes ?prev (length bs) s" if "?prev \<noteq> 0"
    using ap that n(2) by (simp add: mem_bytes_apart memset_0_def)
  define s2 where "s2 = (if ?prev \<noteq> 0 then memcpy ?prev buf N ?s1 else ?s1)"
  have s2: "hist s2 = hist s" by (simp add: s2_def memcpy_def memset_0_def)
  have prev: "mem_bytes ?prev N s2 = bs @ replicate (N - length bs) 0" if "?prev \<noteq> 0"
    using that mem_bytes_put [of "mem_bytes buf N ?s1" ?prev ?s1] N n(2) by (simp add: s2_def memcpy_def full)
  have buf: "mem_bytes buf (length bs) s2 = bs"
  proof (cases "?prev = 0")
    case False
    then have "apart ?prev buf N" using ap unfolding apart_def by metis
    then show ?thesis using False n(2) bs by (simp add: s2_def memcpy_def mem_bytes_apart full)
  qed (use bs in \<open>simp add: s2_def\<close>)
  have c: "create 0 0 buf (i, memset_0 buf N s) = (force, rid, of_nat (length bs), i, ?s1)" using cb by (simp add: stores_report_def)
  have due: "(of_nat (length bs) :: u16) \<noteq> 0 \<and> (force \<or> (?prev \<noteq> 0 \<and> mem_bytes buf (length bs) ?s1 \<noteq> mem_bytes ?prev (length bs) ?s1)
      \<or> IdleCount i \<noteq> 0 \<and> IdleMSRemaining i = 0) \<longleftrightarrow> send_due i force bs s"
    unfolding send_due_def z bs using old by auto
  have eq: "hid_poll create buf e (i, s) = do {
      (i, s) \<leftarrow> (if send_due i force bs s
        then (let i = i\<lparr>IdleMSRemaining := IdleCount i\<rparr>; s = Endpoint_SelectEndpoint (epAddress (ReportINEndpoint i)) s2;
                  s = (if rid \<noteq> 0 then Endpoint_Write_8 rid s else s)
              in do { (code, bp, s) \<leftarrow> Endpoint_Write_Stream_LE e buf (of_nat (length bs)) None s; Some (i, Endpoint_ClearIN e s) })
        else Some (i, s2));
      let (f, s) = USB_Device_GetFrameNumber e s in Some (i\<lparr>PrevFrameNum := f\<rparr>, s) }"
    unfolding hid_poll_def prod.case Let_def n(1) [symmetric] c l due s2_def [symmetric] ..
  show ?thesis
  proof (cases "send_due i force bs s")
    case True
    have r: "ReportINEndpoint (i\<lparr>IdleMSRemaining := IdleCount i\<rparr>) = ReportINEndpoint i" by simp
    let ?s3 = "Endpoint_SelectEndpoint (epAddress (ReportINEndpoint i)) s2"
    define s4 where "s4 = (if rid \<noteq> 0 then Endpoint_Write_8 rid ?s3 else ?s3)"
    let ?g = "(if rid \<noteq> 0 then [Wr UEDATX rid] else []) @ [Wr UENUM (epAddress (ReportINEndpoint i) AND ENDPOINT_EPNUM_MASK)]"
    have s4: "s4 = s2\<lparr>hist := ?g @ hist s\<rparr>"
      unfolding s4_def s2 [symmetric] by (simp add: Endpoint_SelectEndpoint_def Endpoint_Write_8_def wr_def)
    obtain h where h: "Endpoint_Write_Stream_LE e buf (of_nat (length bs)) None s4 = Some (0, None, s4\<lparr>hist := h @ hist s4\<rparr>)"
      "writes UEDATX h = mem_bytes buf (length bs) s4"
      using free_write [OF free, of buf "of_nat (length bs)" s4] unfolding l by blast
    let ?t = "Endpoint_ClearIN e (s4\<lparr>hist := h @ hist s4\<rparr>)"
    obtain v w where t: "?t = s2\<lparr>hist := ([Wr UEINTX v, Rd UEINTX w] @ h @ ?g) @ hist s\<rparr>"
      using clear_in_result [of e "s4\<lparr>hist := h @ hist s4\<rparr>"] unfolding s4 by auto
    obtain f k where f: "USB_Device_GetFrameNumber e ?t = (f, ?t\<lparr>hist := k @ hist ?t\<rparr>)" "writes UEDATX k = []"
      using frame_number_result by blast
    have "hid_poll create buf e (i, s) = Some (i\<lparr>IdleMSRemaining := IdleCount i, PrevFrameNum := f\<rparr>, ?t\<lparr>hist := k @ hist ?t\<rparr>)"
      unfolding eq Let_def if_P [OF True] r s4_def [symmetric] h(1) using f(1) by simp
    moreover have "writes UEDATX h = bs" using h(2) buf unfolding s4 by simp
    ultimately show ?thesis using True f(2) prev unfolding t
      by (intro exI [of _ "i\<lparr>IdleMSRemaining := IdleCount i, PrevFrameNum := f\<rparr>"] exI [of _ "k @ [Wr UEINTX v, Rd UEINTX w] @ h @ ?g"])
        (simp add: report_packet_def)
  next
    case False
    obtain f k where f: "USB_Device_GetFrameNumber e s2 = (f, s2\<lparr>hist := k @ hist s2\<rparr>)" "writes UEDATX k = []"
      using frame_number_result by blast
    have "hid_poll create buf e (i, s) = Some (i\<lparr>PrevFrameNum := f\<rparr>, s2\<lparr>hist := k @ hist s\<rparr>)"
      unfolding eq Let_def if_not_P [OF False] using f(1) s2 by simp
    then show ?thesis using False f(2) prev
      by (intro exI [of _ "i\<lparr>PrevFrameNum := f\<rparr>"] exI [of _ "s2\<lparr>hist := k @ hist s\<rparr>"] exI [of _ k]) simp
  qed
qed


text \<open>A report of three bytes on a bus that is always free: sent the first time, not sent again unchanged.\<close>

definition free_bus :: env where
  "free_bus h r = (if r = GPIOR0 then DEVICE_STATE_Configured else - 1)"

definition example_hid :: USB_ClassInfo_HID_Device_t where
  "example_hid = \<lparr>hid_InterfaceNumber = 0, ReportINEndpoint = \<lparr>epAddress = 0x81, epSize = 8, epType = 3, epBanks = 1\<rparr>,
     PrevReportINBuffer = 0x200, PrevReportINBufferSize = 4, UsingReportProtocol = True, PrevFrameNum = 0, IdleCount = 500,
     IdleMSRemaining = 7\<rparr>"

definition example_create :: create_report where
  "example_create rid ty buf = (\<lambda>(i, s). (False, 2, 3, i, put_bytes buf [5, 6, 7] s))"


subsection \<open>Settings\<close>

lemma send_byte_writes:
  assumes "hid_send_byte e b s = Some t"
  shows "\<exists>h. hist t = h @ hist s \<and> writes UEDATX h = [b]"
proof -
  let ?s0 = "Endpoint_ClearSETUP e s"
  obtain s1 where s1: "wait_bit e UEINTX TXINI ?s0 = Some s1"
    and t: "Endpoint_ClearStatusStage e (Endpoint_ClearIN e (Endpoint_Write_8 b s1)) = Some t"
    using assms by (auto simp: hid_send_byte_def bind_eq_Some_conv)
  have no: "writes UEDATX k = []" if "set k \<subseteq> A" "\<And>v. Wr UEDATX v \<notin> A" for k A
    using adds_writes [of A "[]" k UEDATX] that by (auto simp: adds_def)
  obtain g where g: "hist s1 = g @ hist ?s0" "set g \<subseteq> Reads {UEINTX}"
    using wait_bit_io [OF s1] by (auto simp: io_only_def adds_def)
  obtain v w where c: "Endpoint_ClearIN e (Endpoint_Write_8 b s1) = s1\<lparr>hist := [Wr UEINTX v, Rd UEINTX w, Wr UEDATX b] @ hist s1\<rparr>"
    using clear_in_result [of e "Endpoint_Write_8 b s1"] by (auto simp: Endpoint_Write_8_def wr_def)
  obtain k where k: "hist t = k @ [Wr UEINTX v, Rd UEINTX w, Wr UEDATX b] @ hist s1" "set k \<subseteq> no_fifo"
    using status_stage_io [OF t] unfolding c by (auto simp: io_only_def adds_def)
  have "writes UEDATX g = []" "writes UEDATX k = []" using no [OF g(2)] no [OF k(2)] by simp_all
  then show ?thesis using k(1) g(1) unfolding clear_setup_eq by simp
qed

text \<open>A SETUP packet with a class request to the interface is pending.\<close>

definition hid_asks :: "env \<Rightarrow> USB_ClassInfo_HID_Device_t \<Rightarrow> usb_dev \<Rightarrow> u8 \<Rightarrow> u8 \<Rightarrow> bool" where
  "hid_asks e i s ty q \<longleftrightarrow> bit (e (hist s) UEINTX) RXSTPI \<and> bmRequestType (USB_ControlRequest s) = ty
     \<and> bRequest (USB_ControlRequest s) = q \<and> wIndex (USB_ControlRequest s) = ucast (hid_InterfaceNumber i)"

lemma idle_byte: "ucast (drop_bit 2 (drop_bit 6 (v AND 0xFF00))) = (ucast (drop_bit 8 v) :: u8)" for v :: u16
proof -
  have "(0xFF00 :: u16) = push_bit 8 (mask 8)" by (simp add: mask_eq_exp_minus_1)
  then show ?thesis by (simp only:) (rule word8_eqI, auto simp: bit_simps)
qed

text \<open>
  C29. The settings of the host come back. After a request that sets the idle rate or the protocol, and whatever
  happens on the device in between, the request that reads it back sends one byte: the idle
  rate the host set, although the driver keeps it in milliseconds, or whether the protocol is the report protocol.
\<close>

theorem hid_settings_round_trip:
  assumes "HID_Device_ProcessControlRequest create process buf e (i, s) = Some (i', s')"
    and "HID_Device_ProcessControlRequest create process buf e' (i', t) = Some (i'', t')"
    and "(q, g) \<in> {(HID_REQ_SetIdle, HID_REQ_GetIdle), (HID_REQ_SetProtocol, HID_REQ_GetProtocol)}"
    and "hid_asks e i s 0x21 q" and "hid_asks e' i' t 0xA1 g"
  shows "\<exists>h. hist t' = h @ hist t \<and> writes UEDATX h =
    [let v = wValue (USB_ControlRequest s) in if q = HID_REQ_SetIdle then ucast (drop_bit 8 v) else if v AND 0xFF \<noteq> 0 then 1 else 0]"
proof -
  let ?s = "s\<lparr>hist := Rd UEINTX (e (hist s) UEINTX) # hist s\<rparr>"
  let ?t = "t\<lparr>hist := Rd UEINTX (e' (hist t) UEINTX) # hist t\<rparr>"
  have st: "USB_ControlRequest s1 = USB_ControlRequest s" if "Endpoint_ClearStatusStage e (Endpoint_ClearSETUP e ?s) = Some s1" for s1
    using io_only_fields(4) [OF status_stage_io [OF that]] by (simp add: clear_setup_eq)
  have ex: "\<exists>h. hist t' = h @ hist t \<and> writes UEDATX h = [b]" if "hid_send_byte e' b ?t = Some t'" for b
    using send_byte_writes [OF that] by (auto intro: exI [of _ "_ @ [Rd UEINTX (e' (hist t) UEINTX)]"])
  from assms(3) consider "q = HID_REQ_SetIdle" "g = HID_REQ_GetIdle" | "q = HID_REQ_SetProtocol" "g = HID_REQ_GetProtocol" by auto
  then show ?thesis
  proof cases
    case 1
    then have "IdleCount i' = drop_bit 6 (wValue (USB_ControlRequest s) AND 0xFF00)"
      using assms(1,4) st
      by (auto simp: HID_Device_ProcessControlRequest_def setup_read hid_asks_def req_consts hid_set_idle_def Let_def bind_eq_Some_conv)
    moreover have "hid_send_byte e' (ucast (drop_bit 2 (IdleCount i'))) ?t = Some t'"
      using 1 assms(2,5) by (auto simp: HID_Device_ProcessControlRequest_def setup_read hid_asks_def req_consts Let_def)
    ultimately show ?thesis using 1 ex by (simp add: idle_byte)
  next
    case 2
    then have "UsingReportProtocol i' = (wValue (USB_ControlRequest s) AND 0xFF \<noteq> 0)"
      using assms(1,4) st
      by (auto simp: HID_Device_ProcessControlRequest_def setup_read hid_asks_def req_consts hid_set_protocol_def Let_def bind_eq_Some_conv)
    moreover have "hid_send_byte e' (if UsingReportProtocol i' then 1 else 0) ?t = Some t'"
      using 2 assms(2,5) by (auto simp: HID_Device_ProcessControlRequest_def setup_read hid_asks_def req_consts Let_def)
    ultimately show ?thesis using 2 ex by (simp add: req_consts)
  qed
qed

definition asking_idle :: "u8 \<Rightarrow> u8 \<Rightarrow> u16 \<Rightarrow> usb_dev" where
  "asking_idle ty q v = zero_dev\<lparr>USB_ControlRequest := \<lparr>bmRequestType = ty, bRequest = q, wValue = v, wIndex = 0, wLength = 0\<rparr>\<rparr>"

lemma asking_idle_hid:
  assumes "hid_InterfaceNumber i = 0"
  shows "hid_asks ready_hw i (asking_idle ty q v) ty q"
  using assms by (simp add: hid_asks_def asking_idle_def ready_hw_def bit_simps)

theorem hid_settings_round_trip_witness:
  "\<exists>i' s' i'' t'. HID_Device_ProcessControlRequest example_create (\<lambda>_ _ _ _. id) 0x300 ready_hw (example_hid, asking_idle 0x21 0x0A 0x7D00) = Some (i', s')
    \<and> HID_Device_ProcessControlRequest example_create (\<lambda>_ _ _ _. id) 0x300 ready_hw (i', asking_idle 0xA1 0x02 0) = Some (i'', t')
    \<and> writes UEDATX (hist t') = [0x7D]"
proof -
  let ?P = "HID_Device_ProcessControlRequest example_create (\<lambda>_ _ _ _. id) 0x300 ready_hw"
  note d = HID_Device_ProcessControlRequest_def setup_read hid_asks_def req_consts hid_set_idle_def Let_def
  have a: "hid_asks ready_hw example_hid (asking_idle 0x21 0x0A 0x7D00) 0x21 0x0A" by (rule asking_idle_hid) (simp add: example_hid_def)
  obtain s1 where "Endpoint_ClearStatusStage ready_hw (Endpoint_ClearSETUP ready_hw ((asking_idle 0x21 0x0A 0x7D00)
      \<lparr>hist := Rd UEINTX (ready_hw (hist (asking_idle 0x21 0x0A 0x7D00)) UEINTX) # hist (asking_idle 0x21 0x0A 0x7D00)\<rparr>)) = Some s1"
    using ready_status by blast
  then obtain c where s: "?P (example_hid, asking_idle 0x21 0x0A 0x7D00) = Some (example_hid\<lparr>IdleCount := c\<rparr>, s1)"
    using a by (auto simp: d)
  let ?i = "example_hid\<lparr>IdleCount := c\<rparr>"
  have b: "hid_asks ready_hw ?i (asking_idle 0xA1 0x02 0) 0xA1 0x02" by (rule asking_idle_hid) (simp add: example_hid_def)
  have "hid_send_byte ready_hw x u \<noteq> None" for x u
    by (simp add: hid_send_byte_def bind_eq_None_conv ready_status ready_bit usb_consts del: not_None_eq)
  then obtain t1 where "hid_send_byte ready_hw (ucast (drop_bit 2 (IdleCount ?i))) ((asking_idle 0xA1 0x02 0)
      \<lparr>hist := Rd UEINTX (ready_hw (hist (asking_idle 0xA1 0x02 0)) UEINTX) # hist (asking_idle 0xA1 0x02 0)\<rparr>) = Some t1" by blast
  then have t: "?P (?i, asking_idle 0xA1 0x02 0) = Some (?i, t1)" using b by (auto simp: d)
  have q: "(0x0A, 0x02) \<in> {(HID_REQ_SetIdle, HID_REQ_GetIdle), (HID_REQ_SetProtocol, HID_REQ_GetProtocol)}" by (simp add: req_consts)
  have "writes UEDATX (hist t1) = [0x7D]"
    using hid_settings_round_trip [OF s t q a b] by (simp add: asking_idle_def zero_dev_def req_consts)
  then show ?thesis using s t by blast
qed

end
