(* ===== verification/Midi_Device.thy ===== *)
theory Midi_Device
  imports Hid_Device_Facts
begin

section \<open>MIDI class driver: MIDIClassDevice.c\<close>

text \<open>
  The device side of the MIDI class, which the build compiles and the application does not call. An event
  packet is four bytes in memory at the address \<open>Event\<close>.
\<close>

record USB_ClassInfo_MIDI_Device_t =
  StreamingInterfaceNumber :: u8
  midi_DataINEndpoint :: USB_Endpoint_Table_t
  midi_DataOUTEndpoint :: USB_Endpoint_Table_t
  RESERVED :: u8

definition sizeof_MIDI_EventPacket :: u16 where "sizeof_MIDI_EventPacket = 4"

definition MIDI_Device_ConfigureEndpoints ::
    "env \<Rightarrow> USB_ClassInfo_MIDI_Device_t \<Rightarrow> usb_dev \<Rightarrow> (bool \<times> USB_ClassInfo_MIDI_Device_t \<times> usb_dev) option" where
  "MIDI_Device_ConfigureEndpoints e i s =
     (let i = i\<lparr>RESERVED := 0\<rparr>;
          i = i\<lparr>midi_DataINEndpoint := (midi_DataINEndpoint i)\<lparr>epType := EP_TYPE_BULK\<rparr>,
                midi_DataOUTEndpoint := (midi_DataOUTEndpoint i)\<lparr>epType := EP_TYPE_BULK\<rparr>\<rparr>
      in do {
        (ok, s) \<leftarrow> Endpoint_ConfigureEndpointTable e [midi_DataINEndpoint i] s;
        if \<not> ok then Some (False, i, s)
        else do {
          (ok, s) \<leftarrow> Endpoint_ConfigureEndpointTable e [midi_DataOUTEndpoint i] s;
          if \<not> ok then Some (False, i, s) else Some (True, i, s)
        }
      })"

definition MIDI_Device_Flush :: "env \<Rightarrow> USB_ClassInfo_MIDI_Device_t \<Rightarrow> usb_dev \<Rightarrow> (u8 \<times> usb_dev) option" where
  "MIDI_Device_Flush e i s =
     (let (st, s) = rd e GPIOR0 s
      in if st \<noteq> DEVICE_STATE_Configured then Some (ENDPOINT_RWSTREAM_DeviceDisconnected, s)
         else
           (let s = Endpoint_SelectEndpoint (epAddress (midi_DataINEndpoint i)) s;
                (n, s) = Endpoint_BytesInEndpoint e s
            in if n \<noteq> 0
               then do {
                 (ErrorCode, s) \<leftarrow> Endpoint_WaitUntilReady e (Endpoint_ClearIN e s);
                 if ErrorCode \<noteq> ENDPOINT_READYWAIT_NoError then Some (ready_code ErrorCode, s)
                 else Some (ready_code ENDPOINT_READYWAIT_NoError, s)
               }
               else Some (ready_code ENDPOINT_READYWAIT_NoError, s)))"

definition MIDI_Device_USBTask :: "env \<Rightarrow> USB_ClassInfo_MIDI_Device_t \<Rightarrow> usb_dev \<Rightarrow> usb_dev option" where
  "MIDI_Device_USBTask e i s =
     (let (st, s) = rd e GPIOR0 s
      in if st \<noteq> DEVICE_STATE_Configured then Some s
         else
           (let s = Endpoint_SelectEndpoint (epAddress (midi_DataINEndpoint i)) s;
                (ready, s) = Endpoint_IsINReady e s
            in if ready then map_option snd (MIDI_Device_Flush e i s) else Some s))"

definition MIDI_Device_SendEventPacket :: "env \<Rightarrow> USB_ClassInfo_MIDI_Device_t \<Rightarrow> u16 \<Rightarrow> usb_dev \<Rightarrow> (u8 \<times> usb_dev) option" where
  "MIDI_Device_SendEventPacket e i Event s =
     (let (st, s) = rd e GPIOR0 s
      in if st \<noteq> DEVICE_STATE_Configured then Some (ENDPOINT_RWSTREAM_DeviceDisconnected, s)
         else do {
           (ErrorCode, bp, s) \<leftarrow> Endpoint_Write_Stream_LE e Event sizeof_MIDI_EventPacket None
             (Endpoint_SelectEndpoint (epAddress (midi_DataINEndpoint i)) s);
           if ErrorCode \<noteq> ENDPOINT_RWSTREAM_NoError then Some (ErrorCode, s)
           else (let (allowed, s) = Endpoint_IsReadWriteAllowed e s
                 in Some (ENDPOINT_RWSTREAM_NoError, if \<not> allowed then Endpoint_ClearIN e s else s))
         })"

definition MIDI_Device_ReceiveEventPacket :: "env \<Rightarrow> USB_ClassInfo_MIDI_Device_t \<Rightarrow> u16 \<Rightarrow> usb_dev \<Rightarrow> (bool \<times> usb_dev) option" where
  "MIDI_Device_ReceiveEventPacket e i Event s =
     (let (st, s) = rd e GPIOR0 s
      in if st \<noteq> DEVICE_STATE_Configured then Some (False, s)
         else
           (let s = Endpoint_SelectEndpoint (epAddress (midi_DataOUTEndpoint i)) s;
                (allowed, s) = Endpoint_IsReadWriteAllowed e s
            in if \<not> allowed then Some (False, s)
               else do {
                 (code, bp, s) \<leftarrow> Endpoint_Read_Stream_LE e Event sizeof_MIDI_EventPacket None s;
                 (let (allowed, s) = Endpoint_IsReadWriteAllowed e s
                  in Some (True, if \<not> allowed then Endpoint_ClearOUT e s else s))
               }))"

text \<open>On a bus that is free an event packet goes out as its four bytes, and the code says so.\<close>

lemma midi_send_packet:
  assumes "in_free e"
  shows "\<exists>h t. MIDI_Device_SendEventPacket e i Event s = Some (0, t) \<and> hist t = h @ hist s \<and> writes UEDATX h = mem_bytes Event 4 s"
proof -
  let ?g = "[Wr UENUM (epAddress (midi_DataINEndpoint i) AND ENDPOINT_EPNUM_MASK), Rd GPIOR0 (e (hist s) GPIOR0)]"
  let ?s1 = "s\<lparr>hist := ?g @ hist s\<rparr>"
  obtain h where h: "Endpoint_Write_Stream_LE e Event 4 None ?s1 = Some (0, None, ?s1\<lparr>hist := h @ hist ?s1\<rparr>)"
    "writes UEDATX h = mem_bytes Event 4 s"
    using free_write [OF assms, of Event 4 ?s1] by auto
  let ?v = "e (h @ ?g @ hist s) UEINTX"
  have st: "e (hist s) GPIOR0 = DEVICE_STATE_Configured" "bit ?v RWAL" using assms by (simp_all add: in_free_def)
  have "MIDI_Device_SendEventPacket e i Event s = Some (0, s\<lparr>hist := Rd UEINTX ?v # h @ ?g @ hist s\<rparr>)"
    using h(1) st
    by (simp add: MIDI_Device_SendEventPacket_def rd_def Let_def Endpoint_SelectEndpoint_def wr_def sizeof_MIDI_EventPacket_def
        stream_consts rwal_eq)
  then show ?thesis using h(2) by (intro exI [of _ "Rd UEINTX ?v # h @ ?g"] exI [of _ "s\<lparr>hist := Rd UEINTX ?v # h @ ?g @ hist s\<rparr>"]) simp
qed

text \<open>A device that is not configured sends nothing and says so, and receives nothing.\<close>

lemma midi_not_configured:
  assumes "e (hist s) GPIOR0 \<noteq> DEVICE_STATE_Configured"
  shows "MIDI_Device_SendEventPacket e i Event s = Some (ENDPOINT_RWSTREAM_DeviceDisconnected, snd (rd e GPIOR0 s))"
    "MIDI_Device_Flush e i s = Some (ENDPOINT_RWSTREAM_DeviceDisconnected, snd (rd e GPIOR0 s))"
    "MIDI_Device_ReceiveEventPacket e i Event s = Some (False, snd (rd e GPIOR0 s))"
  using assms
  by (simp_all add: MIDI_Device_SendEventPacket_def MIDI_Device_Flush_def MIDI_Device_ReceiveEventPacket_def rd_def Let_def)

text \<open>A received packet is the next four bytes of the bank, stored at the address of the event, or fewer when the read is cut short.\<close>

lemma midi_receive_packet:
  assumes "frames_advance e" "ready_means_rwal e" "MIDI_Device_ReceiveEventPacket e i Event s = Some (True, t)"
  shows "\<exists>h. hist t = h @ hist s \<and> length (reads UEDATX h) \<le> 4
    \<and> (\<forall>j < length (reads UEDATX h). mem t (Event + of_nat j) = reads UEDATX h ! j)"
proof -
  let ?k = "[Wr UENUM (epAddress (midi_DataOUTEndpoint i) AND ENDPOINT_EPNUM_MASK), Rd GPIOR0 (e (hist s) GPIOR0)]"
  let ?s1 = "s\<lparr>hist := (Rd UEINTX (e (?k @ hist s) UEINTX) # ?k) @ hist s\<rparr>"
  obtain code s' h where r: "Endpoint_Read_Stream_LE e Event 4 None ?s1 = Some (code, None, s')" "hist s' = h @ hist ?s1"
    "length (reads UEDATX h) \<le> 4" "\<forall>j < length (reads UEDATX h). mem s' (Event + of_nat j) = reads UEDATX h ! j"
    using get_up.stream_reads [OF assms(1,2), of Event 4 ?s1]
    by (auto simp: Endpoint_Read_Stream_LE_def) (auto simp: read_up_def offset_first_def)
  let ?s2 = "s'\<lparr>hist := Rd UEINTX (e (hist s') UEINTX) # hist s'\<rparr>"
  obtain v w where c: "Endpoint_ClearOUT e ?s2 = ?s2\<lparr>hist := [Wr UEINTX v, Rd UEINTX w] @ hist ?s2\<rparr>"
    using clear_out_result by blast
  have "t = (if bit (e (hist s') UEINTX) RWAL then ?s2 else Endpoint_ClearOUT e ?s2)"
    using assms(3) r(1)
    by (simp add: MIDI_Device_ReceiveEventPacket_def rd_def Let_def Endpoint_SelectEndpoint_def wr_def sizeof_MIDI_EventPacket_def
        rwal_eq split: if_splits)
  then obtain g where t: "hist t = g @ hist s'" "mem t = mem s'" "reads UEDATX g = []"
    unfolding c by (cases "bit (e (hist s') UEINTX) RWAL") auto
  then show ?thesis using r(2-4)
    by (intro exI [of _ "g @ h @ Rd UEINTX (e (?k @ hist s) UEINTX) # ?k"]) simp
qed

end
