(* ===== verification/Hid_Parser.thy ===== *)
theory Hid_Parser
  imports Lufa_Common
begin

section \<open>The HID report parser of HIDParser.c\<close>

text \<open>
  \<^verbatim>\<open>USB_ProcessHIDReport\<close> reads a HID report descriptor and fills a \<^verbatim>\<open>HID_ReportInfo_t\<close>;
  \<^verbatim>\<open>USB_GetHIDReportItemInfo\<close> and \<^verbatim>\<open>USB_SetHIDReportItemInfo\<close> move a value between a report and an
  item; \<^verbatim>\<open>USB_GetHIDReportSize\<close> gives the size of a report.

  The structures are records with the fields of the header. A pointer into an array of the parser is
  the index it has there (\<open>None\<close> for \<^verbatim>\<open>NULL\<close>). The descriptor lies in a memory of 16-bit addresses,
  because the parser does not check that the data of an item lies before the end of the descriptor.
  The local variables of the parser are the record \<open>hid_parser\<close>. Three things the source leaves open
  are parameters, collected in the record \<open>hid_env\<close>: the contents of the uninitialised locals, the value behind
  the end of \<^verbatim>\<open>UsageList\<close>, which the shift of a full list reads, and the callback
  \<^verbatim>\<open>CALLBACK_HIDParser_FilterHIDReportItem\<close> of the application. A write outside an array ends the
  model with \<open>Wild_Write\<close>.
\<close>

record HID_MinMax_t =
  Minimum :: u32
  Maximum :: u32

record HID_Unit_t =
  Unit_Type :: u32
  Exponent :: u8

record HID_Usage_t =
  Page :: u16
  Usage :: u16

record HID_CollectionPath_t =
  Collection_Type :: u8
  Collection_Usage :: HID_Usage_t
  Parent :: "nat option"

record HID_ReportItem_Attributes_t =
  BitSize :: u8
  Item_Usage :: HID_Usage_t
  Unit :: HID_Unit_t
  Logical :: HID_MinMax_t
  Physical :: HID_MinMax_t

record HID_ReportItem_t =
  BitOffset :: u16
  ItemType :: u8
  ItemFlags :: u16
  Item_ReportID :: u8
  CollectionPath :: "nat option"
  Attributes :: HID_ReportItem_Attributes_t
  Value :: u32
  PreviousValue :: u32

record HID_ReportSizeInfo_t =
  Size_ReportID :: u8
  ReportSizeBits :: "u16 list"

record HID_ReportInfo_t =
  TotalReportItems :: u8
  ReportItems :: "HID_ReportItem_t list"
  CollectionPaths :: "HID_CollectionPath_t list"
  TotalDeviceReports :: u8
  ReportIDSizes :: "HID_ReportSizeInfo_t list"
  LargestReportSizeBits :: u16
  UsingReportIDs :: bool

record HID_StateTable_t =
  State_Attributes :: HID_ReportItem_Attributes_t
  ReportCount :: u8
  State_ReportID :: u8

definition HID_STATETABLE_STACK_DEPTH :: nat where "HID_STATETABLE_STACK_DEPTH = 2"
definition HID_USAGE_STACK_DEPTH :: nat where "HID_USAGE_STACK_DEPTH = 8"
definition HID_MAX_COLLECTIONS :: nat where "HID_MAX_COLLECTIONS = 10"
definition HID_MAX_REPORTITEMS :: nat where "HID_MAX_REPORTITEMS = 20"
definition HID_MAX_REPORT_IDS :: nat where "HID_MAX_REPORT_IDS = 10"

text \<open>The item bytes of HIDReportData.h with a data size of 0.\<close>

definition HID_RI_DATA_SIZE_MASK :: u8 where "HID_RI_DATA_SIZE_MASK = 0x03"
definition HID_RI_TYPE_MASK :: u8 where "HID_RI_TYPE_MASK = 0x0C"
definition HID_RI_TAG_MASK :: u8 where "HID_RI_TAG_MASK = 0xF0"
definition HID_RI_TYPE_MAIN :: u8 where "HID_RI_TYPE_MAIN = 0x00"
definition HID_RI_TYPE_GLOBAL :: u8 where "HID_RI_TYPE_GLOBAL = 0x04"
definition HID_RI_TYPE_LOCAL :: u8 where "HID_RI_TYPE_LOCAL = 0x08"
definition HID_RI_DATA_BITS_8 :: u8 where "HID_RI_DATA_BITS_8 = 0x01"
definition HID_RI_DATA_BITS_16 :: u8 where "HID_RI_DATA_BITS_16 = 0x02"
definition HID_RI_DATA_BITS_32 :: u8 where "HID_RI_DATA_BITS_32 = 0x03"
definition HID_RI_INPUT :: u8 where "HID_RI_INPUT = HID_RI_TYPE_MAIN OR 0x80"
definition HID_RI_OUTPUT :: u8 where "HID_RI_OUTPUT = HID_RI_TYPE_MAIN OR 0x90"
definition HID_RI_COLLECTION :: u8 where "HID_RI_COLLECTION = HID_RI_TYPE_MAIN OR 0xa0"
definition HID_RI_FEATURE :: u8 where "HID_RI_FEATURE = HID_RI_TYPE_MAIN OR 0xb0"
definition HID_RI_END_COLLECTION :: u8 where "HID_RI_END_COLLECTION = HID_RI_TYPE_MAIN OR 0xc0"
definition HID_RI_USAGE_PAGE :: u8 where "HID_RI_USAGE_PAGE = HID_RI_TYPE_GLOBAL OR 0x0"
definition HID_RI_LOGICAL_MINIMUM :: u8 where "HID_RI_LOGICAL_MINIMUM = HID_RI_TYPE_GLOBAL OR 0x10"
definition HID_RI_LOGICAL_MAXIMUM :: u8 where "HID_RI_LOGICAL_MAXIMUM = HID_RI_TYPE_GLOBAL OR 0x20"
definition HID_RI_PHYSICAL_MINIMUM :: u8 where "HID_RI_PHYSICAL_MINIMUM = HID_RI_TYPE_GLOBAL OR 0x30"
definition HID_RI_PHYSICAL_MAXIMUM :: u8 where "HID_RI_PHYSICAL_MAXIMUM = HID_RI_TYPE_GLOBAL OR 0x40"
definition HID_RI_UNIT_EXPONENT :: u8 where "HID_RI_UNIT_EXPONENT = HID_RI_TYPE_GLOBAL OR 0x50"
definition HID_RI_UNIT :: u8 where "HID_RI_UNIT = HID_RI_TYPE_GLOBAL OR 0x60"
definition HID_RI_REPORT_SIZE :: u8 where "HID_RI_REPORT_SIZE = HID_RI_TYPE_GLOBAL OR 0x70"
definition HID_RI_REPORT_ID :: u8 where "HID_RI_REPORT_ID = HID_RI_TYPE_GLOBAL OR 0x80"
definition HID_RI_REPORT_COUNT :: u8 where "HID_RI_REPORT_COUNT = HID_RI_TYPE_GLOBAL OR 0x90"
definition HID_RI_PUSH :: u8 where "HID_RI_PUSH = HID_RI_TYPE_GLOBAL OR 0xa0"
definition HID_RI_POP :: u8 where "HID_RI_POP = HID_RI_TYPE_GLOBAL OR 0xb0"
definition HID_RI_USAGE :: u8 where "HID_RI_USAGE = HID_RI_TYPE_LOCAL OR 0x0"
definition HID_RI_USAGE_MINIMUM :: u8 where "HID_RI_USAGE_MINIMUM = HID_RI_TYPE_LOCAL OR 0x10"
definition HID_RI_USAGE_MAXIMUM :: u8 where "HID_RI_USAGE_MAXIMUM = HID_RI_TYPE_LOCAL OR 0x20"

definition HID_IOF_CONSTANT :: u32 where "HID_IOF_CONSTANT = push_bit 0 1"

lemmas hid_ri_defs =
  HID_RI_DATA_SIZE_MASK_def HID_RI_TYPE_MASK_def HID_RI_TAG_MASK_def HID_RI_TYPE_MAIN_def HID_RI_TYPE_GLOBAL_def
  HID_RI_TYPE_LOCAL_def HID_RI_DATA_BITS_8_def HID_RI_DATA_BITS_16_def HID_RI_DATA_BITS_32_def
  HID_RI_INPUT_def HID_RI_OUTPUT_def HID_RI_COLLECTION_def HID_RI_FEATURE_def
  HID_RI_END_COLLECTION_def HID_RI_USAGE_PAGE_def HID_RI_LOGICAL_MINIMUM_def
  HID_RI_LOGICAL_MAXIMUM_def HID_RI_PHYSICAL_MINIMUM_def HID_RI_PHYSICAL_MAXIMUM_def
  HID_RI_UNIT_EXPONENT_def HID_RI_UNIT_def HID_RI_REPORT_SIZE_def HID_RI_REPORT_ID_def
  HID_RI_REPORT_COUNT_def HID_RI_PUSH_def HID_RI_POP_def HID_RI_USAGE_def HID_RI_USAGE_MINIMUM_def
  HID_RI_USAGE_MAXIMUM_def

datatype HID_Parse_ErrorCodes_t =
    HID_PARSE_Successful
  | HID_PARSE_HIDStackOverflow
  | HID_PARSE_HIDStackUnderflow
  | HID_PARSE_InsufficientReportItems
  | HID_PARSE_UnexpectedEndCollection
  | HID_PARSE_InsufficientCollectionPaths
  | HID_PARSE_UsageListOverflow
  | HID_PARSE_InsufficientReportIDItems
  | HID_PARSE_NoUnfilteredReportItems

text \<open>The structures after \<^verbatim>\<open>memset(..., 0x00, ...)\<close>.\<close>

definition zero_usage :: HID_Usage_t where "zero_usage = \<lparr>Page = 0, Usage = 0\<rparr>"
definition zero_minmax :: HID_MinMax_t where "zero_minmax = \<lparr>Minimum = 0, Maximum = 0\<rparr>"

definition zero_attributes :: HID_ReportItem_Attributes_t where
  "zero_attributes = \<lparr>BitSize = 0, Item_Usage = zero_usage, Unit = \<lparr>Unit_Type = 0, Exponent = 0\<rparr>,
     Logical = zero_minmax, Physical = zero_minmax\<rparr>"

definition zero_item :: HID_ReportItem_t where
  "zero_item = \<lparr>BitOffset = 0, ItemType = 0, ItemFlags = 0, Item_ReportID = 0, CollectionPath = None,
     Attributes = zero_attributes, Value = 0, PreviousValue = 0\<rparr>"

definition zero_size_info :: HID_ReportSizeInfo_t where
  "zero_size_info = \<lparr>Size_ReportID = 0, ReportSizeBits = [0, 0, 0]\<rparr>"

definition zero_report_info :: HID_ReportInfo_t where
  "zero_report_info =
     \<lparr>TotalReportItems = 0, ReportItems = replicate HID_MAX_REPORTITEMS zero_item,
      CollectionPaths = replicate HID_MAX_COLLECTIONS \<lparr>Collection_Type = 0, Collection_Usage = zero_usage, Parent = None\<rparr>,
      TotalDeviceReports = 0, ReportIDSizes = replicate HID_MAX_REPORT_IDS zero_size_info,
      LargestReportSizeBits = 0, UsingReportIDs = False\<rparr>"

definition zero_state_table :: HID_StateTable_t where
  "zero_state_table = \<lparr>State_Attributes = zero_attributes, ReportCount = 0, State_ReportID = 0\<rparr>"

subsection \<open>The parser\<close>

record hid_parser =
  ReportData :: u16
  ReportSize :: u16
  StateTable :: "HID_StateTable_t list"
  CurrStateTable :: nat
  CurrCollectionPath :: "nat option"
  CurrReportIDInfo :: nat
  UsageList :: "u16 list"
  UsageListSize :: u8
  UsageMinMax :: HID_MinMax_t
  ParserData :: HID_ReportInfo_t

record hid_env =
  hid_mem :: "u16 \<Rightarrow> u8"
  hid_filter :: "HID_ReportItem_t \<Rightarrow> bool"
  usage_init :: "u16 list"
  usage_past :: u16
  state_init :: HID_StateTable_t
  item_init :: HID_ReportItem_t

datatype hid_result = Return HID_Parse_ErrorCodes_t HID_ReportInfo_t | Wild_Write

text \<open>Lines 55 to 85: the item byte and its data.\<close>

definition hid_fetch :: "hid_env \<Rightarrow> hid_parser \<Rightarrow> u8 \<times> u32 \<times> hid_parser" where
  "hid_fetch e p =
     (let HIDReportItem = hid_mem e (ReportData p);
          p = p\<lparr>ReportData := ReportData p + 1, ReportSize := ReportSize p - 1\<rparr>;
          d = (\<lambda>i. hid_mem e (ReportData p + i));
          sz = HIDReportItem AND HID_RI_DATA_SIZE_MASK
      in if sz = HID_RI_DATA_BITS_32 then
           (HIDReportItem,
            push_bit 24 (ucast (d 3)) OR push_bit 16 (ucast (d 2)) OR ucast (push_bit 8 (ucast (d 1) :: u16)) OR ucast (d 0),
            p\<lparr>ReportSize := ReportSize p - 4, ReportData := ReportData p + 4\<rparr>)
         else if sz = HID_RI_DATA_BITS_16 then
           (HIDReportItem, ucast (push_bit 8 (ucast (d 1)) OR ucast (d 0) :: u16),
            p\<lparr>ReportSize := ReportSize p - 2, ReportData := ReportData p + 2\<rparr>)
         else if sz = HID_RI_DATA_BITS_8 then
           (HIDReportItem, ucast (d 0), p\<lparr>ReportSize := ReportSize p - 1, ReportData := ReportData p + 1\<rparr>)
         else (HIDReportItem, 0, p))"

abbreviation curr_state :: "hid_parser \<Rightarrow> HID_StateTable_t" where
  "curr_state p \<equiv> StateTable p ! CurrStateTable p"

definition set_state :: "(HID_StateTable_t \<Rightarrow> HID_StateTable_t) \<Rightarrow> hid_parser \<Rightarrow> hid_parser" where
  "set_state f p = p\<lparr>StateTable := (StateTable p)[CurrStateTable p := f (curr_state p)]\<rparr>"

definition set_attributes ::
  "(HID_ReportItem_Attributes_t \<Rightarrow> HID_ReportItem_Attributes_t) \<Rightarrow> hid_parser \<Rightarrow> hid_parser" where
  "set_attributes f p = set_state (\<lambda>t. t\<lparr>State_Attributes := f (State_Attributes t)\<rparr>) p"

text \<open>
  Lines 89 to 98. \<^verbatim>\<open>sizeof(HID_ReportItem_t)\<close> is 42 and \<^verbatim>\<open>sizeof(HID_StateTable_t)\<close> is 28 in the
  packed layout of the build, so the copy of 42 bytes to the second of two entries ends 14 bytes
  behind the array.
\<close>

definition sizeof_HID_ReportItem_t :: nat where "sizeof_HID_ReportItem_t = 42"
definition sizeof_HID_StateTable_t :: nat where "sizeof_HID_StateTable_t = 28"

definition hid_push :: "hid_parser \<Rightarrow> hid_result + hid_parser" where
  "hid_push p =
     (if CurrStateTable p = HID_STATETABLE_STACK_DEPTH - 1 then
        Inl (Return HID_PARSE_HIDStackOverflow (ParserData p))
      else if (CurrStateTable p + 1) * sizeof_HID_StateTable_t + sizeof_HID_ReportItem_t
            > HID_STATETABLE_STACK_DEPTH * sizeof_HID_StateTable_t then Inl Wild_Write
      else Inr (p\<lparr>StateTable := (StateTable p)[CurrStateTable p + 1 := curr_state p],
                  CurrStateTable := CurrStateTable p + 1\<rparr>))"

definition hid_pop :: "hid_parser \<Rightarrow> hid_result + hid_parser" where
  "hid_pop p =
     (if CurrStateTable p = 0 then Inl (Return HID_PARSE_HIDStackUnderflow (ParserData p))
      else Inr (p\<lparr>CurrStateTable := CurrStateTable p - 1\<rparr>))"

definition hid_usage_page :: "u8 \<Rightarrow> u32 \<Rightarrow> hid_parser \<Rightarrow> hid_parser" where
  "hid_usage_page HIDReportItem ReportItemData p =
     (let page = (\<lambda>v. set_attributes (\<lambda>a. a\<lparr>Item_Usage := (Item_Usage a)\<lparr>Page := v\<rparr>\<rparr>));
          p = (if HIDReportItem AND HID_RI_DATA_SIZE_MASK = HID_RI_DATA_BITS_32
               then page (ucast (drop_bit 16 ReportItemData)) p else p)
      in page (ucast ReportItemData) p)"

text \<open>Lines 135 to 164.\<close>

definition hid_report_id :: "u32 \<Rightarrow> hid_parser \<Rightarrow> hid_result + hid_parser" where
  "hid_report_id ReportItemData p =
     (let p = set_state (\<lambda>t. t\<lparr>State_ReportID := ucast ReportItemData\<rparr>) p;
          id = State_ReportID (curr_state p);
          info = ParserData p;
          finish = (\<lambda>p. let info = ParserData p; info = info\<lparr>UsingReportIDs := True\<rparr>; i = CurrReportIDInfo p
             in Inr (p\<lparr>ParserData := info\<lparr>ReportIDSizes :=
                  (ReportIDSizes info)[i := (ReportIDSizes info ! i)\<lparr>Size_ReportID := id\<rparr>]\<rparr>\<rparr>))
      in if UsingReportIDs info then
           (case List.find (\<lambda>i. Size_ReportID (ReportIDSizes info ! i) = id) [0..<unat (TotalDeviceReports info)] of
              Some i \<Rightarrow> finish (p\<lparr>CurrReportIDInfo := i\<rparr>)
            | None \<Rightarrow>
                if TotalDeviceReports info = of_nat HID_MAX_REPORT_IDS then
                  Inl (Return HID_PARSE_InsufficientReportIDItems info)
                else
                  (let i = unat (TotalDeviceReports info)
                   in finish (p\<lparr>CurrReportIDInfo := i,
                        ParserData := info\<lparr>TotalDeviceReports := TotalDeviceReports info + 1,
                          ReportIDSizes := (ReportIDSizes info)[i := zero_size_info]\<rparr>\<rparr>)))
         else finish p)"

definition hid_usage_item :: "u32 \<Rightarrow> hid_parser \<Rightarrow> hid_result + hid_parser" where
  "hid_usage_item ReportItemData p =
     (if UsageListSize p = of_nat HID_USAGE_STACK_DEPTH then
        Inl (Return HID_PARSE_UsageListOverflow (ParserData p))
      else Inr (p\<lparr>UsageList := (UsageList p)[unat (UsageListSize p) := ucast ReportItemData],
                  UsageListSize := UsageListSize p + 1\<rparr>))"

text \<open>Lines 202 to 214 and 238 to 250: take a usage from the list or from the range.\<close>

definition usage_shift :: "u16 \<Rightarrow> nat \<Rightarrow> u16 list \<Rightarrow> u16 list" where
  "usage_shift past n ul =
     fold (\<lambda>i ul. ul[i := if i + 1 < HID_USAGE_STACK_DEPTH then ul ! (i + 1) else past]) [0..<n] ul"

definition take_usage :: "hid_env \<Rightarrow> hid_parser \<Rightarrow> u16 option \<times> hid_parser" where
  "take_usage e p =
     (if UsageListSize p \<noteq> 0 then
        (Some (UsageList p ! 0),
         p\<lparr>UsageList := usage_shift (usage_past e) (unat (UsageListSize p)) (UsageList p),
           UsageListSize := UsageListSize p - 1\<rparr>)
      else if Minimum (UsageMinMax p) \<le> Maximum (UsageMinMax p) then
        (Some (ucast (Minimum (UsageMinMax p))),
         p\<lparr>UsageMinMax := (UsageMinMax p)\<lparr>Minimum := Minimum (UsageMinMax p) + 1\<rparr>\<rparr>)
      else (None, p))"

text \<open>Lines 177 to 222.\<close>

definition set_path :: "nat \<Rightarrow> (HID_CollectionPath_t \<Rightarrow> HID_CollectionPath_t) \<Rightarrow> hid_parser \<Rightarrow> hid_parser" where
  "set_path i f p =
     (let info = ParserData p
      in p\<lparr>ParserData := info\<lparr>CollectionPaths := (CollectionPaths info)[i := f (CollectionPaths info ! i)]\<rparr>\<rparr>)"

definition hid_collection :: "hid_env \<Rightarrow> u32 \<Rightarrow> hid_parser \<Rightarrow> hid_result + hid_parser" where
  "hid_collection e ReportItemData p =
     (let fill = (\<lambda>i p.
            let p = p\<lparr>CurrCollectionPath := Some i\<rparr>;
                p = set_path i (\<lambda>c. c\<lparr>Collection_Type := ucast ReportItemData,
                      Collection_Usage := (Collection_Usage c)\<lparr>Page := Page (Item_Usage (State_Attributes (curr_state p)))\<rparr>\<rparr>) p
            in case take_usage e p of
                 (None, p) \<Rightarrow> Inr p
               | (Some u, p) \<Rightarrow> Inr (set_path i (\<lambda>c. c\<lparr>Collection_Usage := (Collection_Usage c)\<lparr>Usage := u\<rparr>\<rparr>) p))
      in case CurrCollectionPath p of
           None \<Rightarrow> fill 0 p
         | Some parent \<Rightarrow>
             (case List.find (\<lambda>i. Parent (CollectionPaths (ParserData p) ! i) = None) [1..<HID_MAX_COLLECTIONS] of
                None \<Rightarrow> Inl (Return HID_PARSE_InsufficientCollectionPaths (ParserData p))
              | Some i \<Rightarrow> fill i (set_path i (\<lambda>c. c\<lparr>Parent := Some parent\<rparr>) p)))"

definition hid_end_collection :: "hid_parser \<Rightarrow> hid_result + hid_parser" where
  "hid_end_collection p =
     (case CurrCollectionPath p of
        None \<Rightarrow> Inl (Return HID_PARSE_UnexpectedEndCollection (ParserData p))
      | Some i \<Rightarrow> Inr (p\<lparr>CurrCollectionPath := Parent (CollectionPaths (ParserData p) ! i)\<rparr>))"

text \<open>Lines 223 to 275: one report item of an INPUT, OUTPUT or FEATURE item, and the loop over them.\<close>

definition HID_REPORT_ITEM_In :: nat where "HID_REPORT_ITEM_In = 0"
definition HID_REPORT_ITEM_Out :: nat where "HID_REPORT_ITEM_Out = 1"
definition HID_REPORT_ITEM_Feature :: nat where "HID_REPORT_ITEM_Feature = 2"

definition hid_item_type :: "u8 \<Rightarrow> nat" where
  "hid_item_type HIDReportItem =
     (let ItemTypeTag = HIDReportItem AND (HID_RI_TYPE_MASK OR HID_RI_TAG_MASK)
      in if ItemTypeTag = HID_RI_INPUT then HID_REPORT_ITEM_In
         else if ItemTypeTag = HID_RI_OUTPUT then HID_REPORT_ITEM_Out
         else HID_REPORT_ITEM_Feature)"

definition hid_add_item :: "hid_env \<Rightarrow> u8 \<Rightarrow> u32 \<Rightarrow> hid_parser \<Rightarrow> hid_result + hid_parser" where
  "hid_add_item e HIDReportItem ReportItemData p =
     (let st = curr_state p;
          new = (item_init e)\<lparr>Attributes := State_Attributes st, ItemFlags := ucast ReportItemData,
                  CollectionPath := CurrCollectionPath p, Item_ReportID := State_ReportID st\<rparr>;
          (u, p) = take_usage e p;
          new = (case u of None \<Rightarrow> new
                 | Some u \<Rightarrow> new\<lparr>Attributes := (Attributes new)\<lparr>Item_Usage := (Item_Usage (Attributes new))\<lparr>Usage := u\<rparr>\<rparr>\<rparr>);
          type = hid_item_type HIDReportItem;
          new = new\<lparr>ItemType := of_nat type\<rparr>;
          info = ParserData p;
          ri = ReportIDSizes info ! CurrReportIDInfo p;
          new = new\<lparr>BitOffset := ReportSizeBits ri ! type\<rparr>;
          bits = ReportSizeBits ri ! type + ucast (BitSize (State_Attributes st));
          info = info\<lparr>ReportIDSizes :=
                   (ReportIDSizes info)[CurrReportIDInfo p := ri\<lparr>ReportSizeBits := (ReportSizeBits ri)[type := bits]\<rparr>]\<rparr>;
          info = info\<lparr>LargestReportSizeBits := max (LargestReportSizeBits info) bits\<rparr>
      in if TotalReportItems info = of_nat HID_MAX_REPORTITEMS then
           Inl (Return HID_PARSE_InsufficientReportItems info)
         else
           (let info = info\<lparr>ReportItems := (ReportItems info)[unat (TotalReportItems info) := new]\<rparr>;
                info = (if ReportItemData AND HID_IOF_CONSTANT = 0 \<and> hid_filter e new
                        then info\<lparr>TotalReportItems := TotalReportItems info + 1\<rparr> else info)
            in Inr (p\<lparr>ParserData := info\<rparr>)))"

primrec hid_add_items :: "hid_env \<Rightarrow> u8 \<Rightarrow> u32 \<Rightarrow> nat \<Rightarrow> hid_parser \<Rightarrow> hid_result + hid_parser" where
  "hid_add_items e HIDReportItem ReportItemData 0 p = Inr p"
| "hid_add_items e HIDReportItem ReportItemData (Suc n) p =
     (case hid_add_item e HIDReportItem ReportItemData p of
        Inl r \<Rightarrow> Inl r
      | Inr p \<Rightarrow> hid_add_items e HIDReportItem ReportItemData n p)"

text \<open>Lines 87 to 281: the switch over the item.\<close>

definition hid_switch :: "hid_env \<Rightarrow> u8 \<Rightarrow> u32 \<Rightarrow> hid_parser \<Rightarrow> hid_result + hid_parser" where
  "hid_switch e HIDReportItem d p =
     (let tag = HIDReportItem AND (HID_RI_TYPE_MASK OR HID_RI_TAG_MASK)
      in if tag = HID_RI_PUSH then hid_push p
         else if tag = HID_RI_POP then hid_pop p
         else if tag = HID_RI_USAGE_PAGE then Inr (hid_usage_page HIDReportItem d p)
         else if tag = HID_RI_LOGICAL_MINIMUM then
           Inr (set_attributes (\<lambda>a. a\<lparr>Logical := (Logical a)\<lparr>Minimum := d\<rparr>\<rparr>) p)
         else if tag = HID_RI_LOGICAL_MAXIMUM then
           Inr (set_attributes (\<lambda>a. a\<lparr>Logical := (Logical a)\<lparr>Maximum := d\<rparr>\<rparr>) p)
         else if tag = HID_RI_PHYSICAL_MINIMUM then
           Inr (set_attributes (\<lambda>a. a\<lparr>Physical := (Physical a)\<lparr>Minimum := d\<rparr>\<rparr>) p)
         else if tag = HID_RI_PHYSICAL_MAXIMUM then
           Inr (set_attributes (\<lambda>a. a\<lparr>Physical := (Physical a)\<lparr>Maximum := d\<rparr>\<rparr>) p)
         else if tag = HID_RI_UNIT_EXPONENT then
           Inr (set_attributes (\<lambda>a. a\<lparr>Unit := (Unit a)\<lparr>Exponent := ucast d\<rparr>\<rparr>) p)
         else if tag = HID_RI_UNIT then
           Inr (set_attributes (\<lambda>a. a\<lparr>Unit := (Unit a)\<lparr>Unit_Type := d\<rparr>\<rparr>) p)
         else if tag = HID_RI_REPORT_SIZE then Inr (set_attributes (\<lambda>a. a\<lparr>BitSize := ucast d\<rparr>) p)
         else if tag = HID_RI_REPORT_COUNT then Inr (set_state (\<lambda>t. t\<lparr>ReportCount := ucast d\<rparr>) p)
         else if tag = HID_RI_REPORT_ID then hid_report_id d p
         else if tag = HID_RI_USAGE then hid_usage_item d p
         else if tag = HID_RI_USAGE_MINIMUM then Inr (p\<lparr>UsageMinMax := (UsageMinMax p)\<lparr>Minimum := d\<rparr>\<rparr>)
         else if tag = HID_RI_USAGE_MAXIMUM then Inr (p\<lparr>UsageMinMax := (UsageMinMax p)\<lparr>Maximum := d\<rparr>\<rparr>)
         else if tag = HID_RI_COLLECTION then hid_collection e d p
         else if tag = HID_RI_END_COLLECTION then hid_end_collection p
         else if tag = HID_RI_INPUT \<or> tag = HID_RI_OUTPUT \<or> tag = HID_RI_FEATURE then
           hid_add_items e HIDReportItem d (unat (ReportCount (curr_state p))) p
         else Inr p)"

text \<open>One turn of the loop of lines 53 to 289, the loop, and the function.\<close>

definition hid_item :: "hid_env \<Rightarrow> hid_parser \<Rightarrow> hid_result + hid_parser" where
  "hid_item e p =
     (let (HIDReportItem, d, p) = hid_fetch e p
      in case hid_switch e HIDReportItem d p of
           Inl r \<Rightarrow> Inl r
         | Inr p \<Rightarrow>
             Inr (if HIDReportItem AND HID_RI_TYPE_MASK = HID_RI_TYPE_MAIN
                  then p\<lparr>UsageMinMax := \<lparr>Minimum = 0, Maximum = 0\<rparr>, UsageListSize := 0\<rparr> else p))"

partial_function (option) hid_loop :: "hid_env \<Rightarrow> hid_parser \<Rightarrow> hid_result option" where
  "hid_loop e p =
     (if ReportSize p = 0 then
        Some (Return (if TotalReportItems (ParserData p) = 0 then HID_PARSE_NoUnfilteredReportItems
                      else HID_PARSE_Successful) (ParserData p))
      else (case hid_item e p of Inl r \<Rightarrow> Some r | Inr p \<Rightarrow> hid_loop e p))"

declare hid_loop.simps [code]

definition hid_start :: "hid_env \<Rightarrow> u16 \<Rightarrow> u16 \<Rightarrow> hid_parser" where
  "hid_start e data siz =
     \<lparr>ReportData = data, ReportSize = siz, StateTable = [zero_state_table, state_init e], CurrStateTable = 0,
      CurrCollectionPath = None, CurrReportIDInfo = 0, UsageList = usage_init e, UsageListSize = 0,
      UsageMinMax = \<lparr>Minimum = 0, Maximum = 0\<rparr>, ParserData = zero_report_info\<lparr>TotalDeviceReports := 1\<rparr>\<rparr>"

definition USB_ProcessHIDReport :: "hid_env \<Rightarrow> u16 \<Rightarrow> u16 \<Rightarrow> hid_result option" where
  "USB_ProcessHIDReport e data siz = hid_loop e (hid_start e data siz)"

end
