(* ===== verification/Hid_Report.thy ===== *)
theory Hid_Report
  imports Hid_Parser
begin

section \<open>Values in HID reports: the report functions of HIDParser.c\<close>

text \<open>
  \<^verbatim>\<open>USB_GetHIDReportItemInfo\<close>, \<^verbatim>\<open>USB_SetHIDReportItemInfo\<close> and \<^verbatim>\<open>USB_GetHIDReportSize\<close>. A report is the
  memory behind the pointer \<^verbatim>\<open>ReportData\<close>, a function from offsets to bytes; the item is \<open>None\<close> for a
  \<^verbatim>\<open>NULL\<close> pointer. The loops \<^verbatim>\<open>while (DataBitsRem--)\<close> run as often as their counter says.
\<close>

primrec get_bits :: "(nat \<Rightarrow> u8) \<Rightarrow> nat \<Rightarrow> u16 \<Rightarrow> u32 \<Rightarrow> u32 \<Rightarrow> u32" where
  "get_bits data 0 CurrentBit BitMask val = val"
| "get_bits data (Suc n) CurrentBit BitMask val =
     get_bits data n (CurrentBit + 1) (push_bit 1 BitMask)
       (if data (unat (CurrentBit div 8)) AND push_bit (unat (CurrentBit mod 8)) 1 \<noteq> 0 then val OR BitMask else val)"

definition USB_GetHIDReportItemInfo ::
  "(nat \<Rightarrow> u8) \<Rightarrow> HID_ReportItem_t option \<Rightarrow> bool \<times> HID_ReportItem_t option" where
  "USB_GetHIDReportItemInfo data item =
     (case item of
        None \<Rightarrow> (False, item)
      | Some it \<Rightarrow>
          (let read = (\<lambda>data.
                let it = it\<lparr>PreviousValue := Value it\<rparr>;
                    it = it\<lparr>Value := 0\<rparr>
                in (True, Some (it\<lparr>Value :=
                     get_bits data (unat (BitSize (Attributes it))) (BitOffset it) 1 (Value it)\<rparr>)))
           in if Item_ReportID it \<noteq> 0 then
                (if Item_ReportID it \<noteq> data 0 then (False, item) else read (\<lambda>i. data (i + 1)))
              else read data))"

primrec set_bits :: "u32 \<Rightarrow> nat \<Rightarrow> u16 \<Rightarrow> u32 \<Rightarrow> (nat \<Rightarrow> u8) \<Rightarrow> (nat \<Rightarrow> u8)" where
  "set_bits val 0 CurrentBit BitMask data = data"
| "set_bits val (Suc n) CurrentBit BitMask data =
     set_bits val n (CurrentBit + 1) (push_bit 1 BitMask)
       (if val AND push_bit (unat (CurrentBit mod 8)) 1 \<noteq> 0
        then (let i = unat (CurrentBit div 8) in data(i := ucast (ucast (data i) OR BitMask :: u32))) else data)"

definition USB_SetHIDReportItemInfo ::
  "(nat \<Rightarrow> u8) \<Rightarrow> HID_ReportItem_t option \<Rightarrow> (nat \<Rightarrow> u8) \<times> HID_ReportItem_t option" where
  "USB_SetHIDReportItemInfo data item =
     (case item of
        None \<Rightarrow> (data, item)
      | Some it \<Rightarrow>
          (let write = set_bits (Value it) (unat (BitSize (Attributes it))) (BitOffset it) 1;
               it' = it\<lparr>PreviousValue := Value it\<rparr>
           in if Item_ReportID it \<noteq> 0 then
                (let rest = write (\<lambda>i. data (i + 1))
                 in (\<lambda>i. if i = 0 then Item_ReportID it else rest (i - 1), Some it'))
              else (write data, Some it')))"

definition USB_GetHIDReportSize :: "HID_ReportInfo_t \<Rightarrow> u8 \<Rightarrow> nat \<Rightarrow> u16" where
  "USB_GetHIDReportSize info ReportID ReportType =
     (case List.find (\<lambda>i. Size_ReportID (ReportIDSizes info ! i) = ReportID) [0..<HID_MAX_REPORT_IDS] of
        Some i \<Rightarrow>
          (let bits = ReportSizeBits (ReportIDSizes info ! i) ! ReportType
           in bits div 8 + (if bits mod 8 \<noteq> 0 then 1 else 0))
      | None \<Rightarrow> 0)"

subsection \<open>Lemmas\<close>

text \<open>Bit \<open>w\<close> of a report, counted from the first byte and its lowest bit.\<close>

definition report_bit :: "(nat \<Rightarrow> u8) \<Rightarrow> u16 \<Rightarrow> bool" where
  "report_bit data w = bit (data (unat (w div 8))) (unat (w mod 8))"

lemma unat_mod_8: "unat (w mod 8) < 8" for w :: u16
  by (simp add: unat_mod_distrib)

lemma bit_get_bits:
  "j < 32 \<Longrightarrow> bit (get_bits data n cb (push_bit i 1) v) j \<longleftrightarrow>
     bit v j \<or> (i \<le> j \<and> j < i + n \<and> report_bit data (cb + of_nat (j - i)))"
proof (induction n arbitrary: cb i v)
  case (Suc n)
  let ?b = "data (unat (cb div 8)) AND push_bit (unat (cb mod 8)) 1 \<noteq> 0"
  have b: "?b \<longleftrightarrow> report_bit data cb"
    using unat_mod_8 [of cb] by (simp add: report_bit_def and_exp_eq_0_iff_not_bit)
  have "bit (get_bits data (Suc n) cb (push_bit i 1) v) j \<longleftrightarrow>
      bit (if ?b then v OR push_bit i 1 else v) j \<or>
      (Suc i \<le> j \<and> j < Suc i + n \<and> report_bit data (cb + 1 + of_nat (j - Suc i)))"
    using Suc.IH [of "cb + 1" "Suc i"] Suc.prems by (simp add: mult.commute [of "2 ^ i" 2])
  also have "\<dots> \<longleftrightarrow> bit v j \<or> (i \<le> j \<and> j < i + Suc n \<and> report_bit data (cb + of_nat (j - i)))"
  proof (cases "j = i")
    case True
    then show ?thesis using Suc.prems unfolding b by (auto simp: bit_simps)
  next
    case False
    have "cb + 1 + of_nat (j - Suc i) = cb + of_nat (j - i)" if "i < j"
      using that by (metis Suc_diff_Suc add.assoc of_nat_Suc)
    then show ?thesis using False Suc.prems by (auto simp: bit_simps)
  qed
  finally show ?case .
qed auto

lemma bit_set_bits:
  "b < 8 \<Longrightarrow> bit (set_bits v n cb (push_bit i 1) data q) b \<longleftrightarrow>
     bit (data q) b \<or> (i \<le> b \<and> b < i + n \<and> unat ((cb + of_nat (b - i)) div 8) = q
       \<and> bit v (unat ((cb + of_nat (b - i)) mod 8)))"
proof (induction n arbitrary: cb i data)
  case (Suc n)
  let ?b = "v AND push_bit (unat (cb mod 8)) 1 \<noteq> 0" and ?k = "unat (cb div 8)"
  let ?d = "if ?b then data(?k := ucast (ucast (data ?k) OR push_bit i 1 :: u32)) else data"
  have vb: "?b \<longleftrightarrow> bit v (unat (cb mod 8))"
    using unat_mod_8 [of cb] by (simp add: and_exp_eq_0_iff_not_bit)
  have d: "bit (?d q) b \<longleftrightarrow> bit (data q) b \<or> (bit v (unat (cb mod 8)) \<and> ?k = q \<and> i = b)"
    using Suc.prems unfolding vb by (auto simp: bit_simps)
  have "bit (set_bits v (Suc n) cb (push_bit i 1) data q) b \<longleftrightarrow>
      bit (?d q) b \<or> (Suc i \<le> b \<and> b < Suc i + n \<and> unat ((cb + 1 + of_nat (b - Suc i)) div 8) = q
       \<and> bit v (unat ((cb + 1 + of_nat (b - Suc i)) mod 8)))"
    using Suc.IH [of "cb + 1" "1 + i" ?d, OF Suc.prems]
    unfolding set_bits.simps Let_def push_bit_push_bit plus_1_eq_Suc .
  also have "\<dots> \<longleftrightarrow> bit (data q) b \<or> (i \<le> b \<and> b < i + Suc n \<and> unat ((cb + of_nat (b - i)) div 8) = q
       \<and> bit v (unat ((cb + of_nat (b - i)) mod 8)))"
  proof (cases "b = i")
    case True
    then show ?thesis unfolding d by auto
  next
    case False
    have "cb + 1 + of_nat (b - Suc i) = cb + of_nat (b - i)" if "i < b"
      using that by (metis Suc_diff_Suc add.assoc of_nat_Suc)
    then show ?thesis using False unfolding d by auto
  qed
  finally show ?case .
qed auto

lemma bit_set_item:
  "Item_ReportID it = 0 \<Longrightarrow> b < 8 \<Longrightarrow>
   bit (fst (USB_SetHIDReportItemInfo data (Some it)) q) b \<longleftrightarrow> bit (data q) b \<or>
     (b < unat (BitSize (Attributes it)) \<and> unat ((BitOffset it + of_nat b) div 8) = q
       \<and> bit (Value it) (unat ((BitOffset it + of_nat b) mod 8)))"
  using bit_set_bits [of b "Value it" "unat (BitSize (Attributes it))" "BitOffset it" 0 data q]
  by (simp add: USB_SetHIDReportItemInfo_def Let_def)

lemma bit_get_item:
  "Item_ReportID it = 0 \<Longrightarrow> j < 32 \<Longrightarrow>
   bit (Value (the (snd (USB_GetHIDReportItemInfo data (Some it))))) j \<longleftrightarrow>
     j < unat (BitSize (Attributes it)) \<and> report_bit data (BitOffset it + of_nat j)"
  using bit_get_bits [of j data "unat (BitSize (Attributes it))" "BitOffset it" 0 0]
  by (simp add: USB_GetHIDReportItemInfo_def Let_def)

lemma aligned_bit: "w mod 8 = 0 \<Longrightarrow> j < 8 \<Longrightarrow> unat ((w + of_nat j) mod 8) = j" for w :: u16
proof -
  assume w: "w mod 8 = 0" and j: "j < 8"
  have "unat (w mod 8) = 0" using w by simp
  then have "unat w mod 8 = 0" by (simp add: unat_mod_distrib)
  then have "(unat w + j) mod 8 = j" using j by presburger
  then show ?thesis
    using j by (simp add: unat_mod_distrib unat_word_ariths unat_of_nat mod_mod_cancel)
qed

subsection \<open>Properties\<close>

text \<open>
  C34. Reading an item. Unless the item is missing or belongs to another report, the value read has
  exactly the bits of the report that start at the item's offset, as many as its size says (a value has
  32 bits at most), and the value before is kept as the previous value; an item of another report
  is left as it was and the result is false.
\<close>

theorem get_report_item:
  "\<exists>v. USB_GetHIDReportItemInfo data (Some it) =
       (if Item_ReportID it = 0 \<or> Item_ReportID it = data 0
        then (True, Some (it\<lparr>PreviousValue := Value it, Value := v\<rparr>)) else (False, Some it)) \<and>
     map (bit v) [0..<32] =
       map (\<lambda>j. j < unat (BitSize (Attributes it)) \<and>
              report_bit (if Item_ReportID it = 0 then data else (\<lambda>i. data (i + 1))) (BitOffset it + of_nat j)) [0..<32]"
proof -
  let ?d = "if Item_ReportID it = 0 then data else (\<lambda>i. data (i + 1))"
  let ?v = "get_bits ?d (unat (BitSize (Attributes it))) (BitOffset it) 1 0"
  have "map (bit ?v) [0..<32] =
      map (\<lambda>j. j < unat (BitSize (Attributes it)) \<and> report_bit ?d (BitOffset it + of_nat j)) [0..<32]"
    using bit_get_bits [of _ ?d "unat (BitSize (Attributes it))" "BitOffset it" 0 0] by (intro map_cong) auto
  moreover have "USB_GetHIDReportItemInfo data (Some it) =
      (if Item_ReportID it = 0 \<or> Item_ReportID it = data 0
       then (True, Some (it\<lparr>PreviousValue := Value it, Value := ?v\<rparr>)) else (False, Some it))"
    by (simp add: USB_GetHIDReportItemInfo_def Let_def)
  ultimately show ?thesis by blast
qed




text \<open>
  C37. The size of a report is the number of bytes that its bits need, for the first entry with the
  given report ID, and 0 when there is none.
\<close>

theorem report_size_correct:
  "case List.find (\<lambda>i. Size_ReportID (ReportIDSizes info ! i) = rid) [0..<10] of
     None \<Rightarrow> USB_GetHIDReportSize info rid t = 0
   | Some i \<Rightarrow>
       (let n = unat (USB_GetHIDReportSize info rid t); bits = unat (ReportSizeBits (ReportIDSizes info ! i) ! t)
        in bits \<le> 8 * n \<and> 8 * n < bits + 8)"
proof -
  have "unat (b div 8 + (if b mod 8 \<noteq> 0 then 1 else 0)) = (unat b + 7) div 8" for b :: u16
  proof -
    have "unat b < 2 ^ 16" using unsigned_less [of b, where 'a = nat] by simp
    then have "unat b div 8 < 2 ^ 13" by (simp add: less_mult_imp_div_less)
    then have "unat (b div 8 + 1) = unat b div 8 + 1" by (simp add: unat_word_ariths unat_div_distrib)
    moreover have "b mod 8 = 0 \<longleftrightarrow> unat b mod 8 = 0"
      by (simp add: word_unat_eq_iff unat_mod_distrib)
    moreover have "unat b mod 8 = 0 \<Longrightarrow> unat b div 8 = (unat b + 7) div 8"
      "unat b mod 8 \<noteq> 0 \<Longrightarrow> unat b div 8 + 1 = (unat b + 7) div 8"
      by presburger+
    ultimately show ?thesis
      by (simp add: unat_div_distrib)
  qed
  moreover have "x \<le> 8 * ((x + 7) div 8) \<and> 8 * ((x + 7) div 8) < x + 8" for x :: nat
    by presburger
  ultimately show ?thesis
    by (simp add: USB_GetHIDReportSize_def HID_MAX_REPORT_IDS_def Let_def split: option.split)
qed

end
