(* ===== verification/Hid_Invariant.thy ===== *)
theory Hid_Invariant
  imports Hid_Parser
begin

section \<open>The HID parser stays within its arrays and returns\<close>

text \<open>
  The invariant of the parser: every index it follows lies in its array, the collections form a
  forest (every parent has a smaller index), and the usages it has stored are the only part of
  \<^verbatim>\<open>UsageList\<close> it depends on. Every item keeps it, whatever the descriptor holds. A descriptor whose
  items fit into its size is parsed to the end.
\<close>

definition path_ok :: "HID_CollectionPath_t list \<Rightarrow> bool" where
  "path_ok cs \<longleftrightarrow> length cs = 10 \<and> Parent (cs ! 0) = None \<and>
     (\<forall>i<10. \<forall>q. Parent (cs ! i) = Some q \<longrightarrow> q < i) \<and>
     (\<forall>i<10. \<forall>j<i. 0 < j \<longrightarrow> Parent (cs ! i) \<noteq> None \<longrightarrow> Parent (cs ! j) \<noteq> None)"

definition info_ok :: "HID_ReportInfo_t \<Rightarrow> bool" where
  "info_ok info \<longleftrightarrow>
     length (ReportItems info) = 20 \<and> unat (TotalReportItems info) \<le> 20 \<and>
     path_ok (CollectionPaths info) \<and>
     length (ReportIDSizes info) = 10 \<and> 1 \<le> unat (TotalDeviceReports info) \<and> unat (TotalDeviceReports info) \<le> 10 \<and>
     (\<forall>s\<in>set (ReportIDSizes info). length (ReportSizeBits s) = 3) \<and>
     (\<forall>i<unat (TotalReportItems info). unat (ItemType (ReportItems info ! i)) < 3 \<and>
        (\<forall>c. CollectionPath (ReportItems info ! i) = Some c \<longrightarrow> c < 10))"

definition curr_path_ok :: "hid_parser \<Rightarrow> bool" where
  "curr_path_ok p \<longleftrightarrow>
     (\<forall>c. CurrCollectionPath p = Some c \<longrightarrow> c < 10 \<and> (c = 0 \<or> Parent (CollectionPaths (ParserData p) ! c) \<noteq> None))"

definition hid_inv :: "hid_parser \<Rightarrow> bool" where
  "hid_inv p \<longleftrightarrow> info_ok (ParserData p) \<and> curr_path_ok p \<and>
     length (StateTable p) = 2 \<and> CurrStateTable p = 0 \<and>
     CurrReportIDInfo p < unat (TotalDeviceReports (ParserData p)) \<and>
     length (UsageList p) = 8 \<and> unat (UsageListSize p) \<le> 8"

text \<open>What a step of the parser may give: a state with the invariant, or a result with well-formed data.\<close>

definition step_ok :: "hid_result + hid_parser \<Rightarrow> bool" where
  "step_ok r = (case r of Inr p \<Rightarrow> hid_inv p | Inl (Return err info) \<Rightarrow> info_ok info \<and> err \<noteq> HID_PARSE_Successful
      | Inl Wild_Write \<Rightarrow> True)"

lemmas hid_consts = HID_STATETABLE_STACK_DEPTH_def HID_USAGE_STACK_DEPTH_def HID_MAX_COLLECTIONS_def
  HID_MAX_REPORTITEMS_def HID_MAX_REPORT_IDS_def

lemma step_ok_simps [simp]:
  "step_ok (Inr p) = hid_inv p" "step_ok (Inl Wild_Write)"
  "step_ok (Inl (Return err info)) = (info_ok info \<and> err \<noteq> HID_PARSE_Successful)"
  by (simp_all add: step_ok_def)

subsection \<open>Lemmas: every item keeps the invariant\<close>

lemma hid_inv_frame [simp]:
  "hid_inv (p\<lparr>ReportData := a\<rparr>) = hid_inv p" "hid_inv (p\<lparr>ReportSize := n\<rparr>) = hid_inv p"
  "hid_inv (p\<lparr>UsageMinMax := m\<rparr>) = hid_inv p"
  by (simp_all add: hid_inv_def curr_path_ok_def)

lemma hid_inv_usage: "hid_inv p \<Longrightarrow> length ul = 8 \<Longrightarrow> unat n \<le> 8 \<Longrightarrow> hid_inv (p\<lparr>UsageList := ul, UsageListSize := n\<rparr>)"
  by (simp add: hid_inv_def curr_path_ok_def)

lemma hid_inv_set_state [simp]: "hid_inv (set_state f p) = hid_inv p"
  by (simp add: hid_inv_def set_state_def curr_path_ok_def)

lemma hid_inv_set_attributes [simp]: "hid_inv (set_attributes f p) = hid_inv p"
  by (simp add: set_attributes_def)

lemma hid_inv_fetch: "hid_inv p \<Longrightarrow> hid_inv (snd (snd (hid_fetch e p)))"
  by (simp add: hid_fetch_def Let_def)

lemma step_ok_push: "hid_inv p \<Longrightarrow> step_ok (hid_push p)"
  by (simp add: hid_push_def hid_inv_def hid_consts sizeof_HID_ReportItem_t_def sizeof_HID_StateTable_t_def)

lemma step_ok_pop: "hid_inv p \<Longrightarrow> step_ok (hid_pop p)"
  by (simp add: hid_pop_def hid_inv_def)

lemma hid_inv_usage_page: "hid_inv p \<Longrightarrow> hid_inv (hid_usage_page b d p)"
  by (simp add: hid_usage_page_def Let_def)

lemma step_ok_usage_item: "hid_inv p \<Longrightarrow> step_ok (hid_usage_item d p)"
proof -
  assume inv: "hid_inv p"
  have "unat (UsageListSize p + 1) \<le> 8" if "UsageListSize p \<noteq> 8"
  proof -
    have "UsageListSize p < 8" using inv that by (simp add: hid_inv_def word_less_nat_alt word_unat_eq_iff le_less)
    then show ?thesis using unat_succ [of "UsageListSize p" 8] by (simp add: word_less_nat_alt)
  qed
  then show ?thesis
    using inv by (auto simp: hid_usage_item_def hid_consts hid_inv_def curr_path_ok_def)
qed

lemma length_usage_shift [simp]: "length (usage_shift past n ul) = length ul"
proof -
  have "length (fold (\<lambda>i ul. ul[i := if i + 1 < HID_USAGE_STACK_DEPTH then ul ! (i + 1) else past]) is ul) = length ul" for "is"
    by (induction "is" arbitrary: ul) simp_all
  then show ?thesis by (simp add: usage_shift_def)
qed

lemma hid_inv_take_usage: "hid_inv p \<Longrightarrow> hid_inv (snd (take_usage e p))"
  using unat_pred [of "UsageListSize p"]
  by (auto simp: take_usage_def hid_inv_def curr_path_ok_def)

lemma take_usage_frame:
  "ParserData (snd (take_usage e p)) = ParserData p" "CurrCollectionPath (snd (take_usage e p)) = CurrCollectionPath p"
  "CurrReportIDInfo (snd (take_usage e p)) = CurrReportIDInfo p" "StateTable (snd (take_usage e p)) = StateTable p"
  "CurrStateTable (snd (take_usage e p)) = CurrStateTable p" "ReportSize (snd (take_usage e p)) = ReportSize p"
  "ReportData (snd (take_usage e p)) = ReportData p"
  by (simp_all add: take_usage_def)

lemma step_ok_end_collection: "hid_inv p \<Longrightarrow> step_ok (hid_end_collection p)"
proof (cases "CurrCollectionPath p")
  case (Some i)
  assume inv: "hid_inv p"
  have path: "path_ok (CollectionPaths (ParserData p))" using inv by (simp add: hid_inv_def info_ok_def)
  have i: "i < 10" using inv Some by (simp add: hid_inv_def curr_path_ok_def)
  have "c < 10 \<and> (c = 0 \<or> Parent (CollectionPaths (ParserData p) ! c) \<noteq> None)"
    if c: "Parent (CollectionPaths (ParserData p) ! i) = Some c" for c
  proof -
    have "c < i" using path i c by (simp add: path_ok_def)
    then show ?thesis using path i c unfolding path_ok_def by (metis gr0I not_None_eq order_less_trans)
  qed
  then show ?thesis
    using inv Some by (simp add: hid_end_collection_def hid_inv_def curr_path_ok_def)
qed (simp add: hid_end_collection_def hid_inv_def)

lemma info_ok_sizes:
  "info_ok info \<Longrightarrow> length (ReportSizeBits x) = 3 \<Longrightarrow> info_ok (info\<lparr>ReportIDSizes := (ReportIDSizes info)[i := x]\<rparr>)"
  using set_update_subset_insert [of "ReportIDSizes info" i x] by (auto simp: info_ok_def)

lemma info_ok_frame [simp]:
  "info_ok (info\<lparr>UsingReportIDs := b\<rparr>) = info_ok info" "info_ok (info\<lparr>LargestReportSizeBits := n\<rparr>) = info_ok info"
  by (simp_all add: info_ok_def)

lemma sizes_length:
  "hid_inv p \<Longrightarrow> length (ReportSizeBits (ReportIDSizes (ParserData p) ! CurrReportIDInfo p)) = 3"
  by (auto simp: hid_inv_def info_ok_def)

lemma hid_inv_set_id:
  assumes "hid_inv p"
  shows "hid_inv (p\<lparr>ParserData := (ParserData p)\<lparr>UsingReportIDs := True, ReportIDSizes := (ReportIDSizes (ParserData p))
     [CurrReportIDInfo p := (ReportIDSizes (ParserData p) ! CurrReportIDInfo p)\<lparr>Size_ReportID := r\<rparr>]\<rparr>\<rparr>)"
proof -
  have "info_ok ((ParserData p)\<lparr>ReportIDSizes := (ReportIDSizes (ParserData p))
     [CurrReportIDInfo p := (ReportIDSizes (ParserData p) ! CurrReportIDInfo p)\<lparr>Size_ReportID := r\<rparr>]\<rparr>)"
    using assms sizes_length [OF assms] by (intro info_ok_sizes) (simp_all add: hid_inv_def)
  then show ?thesis using assms by (simp add: hid_inv_def curr_path_ok_def info_ok_def)
qed

lemma step_ok_report_id:
  assumes "hid_inv p"
  shows "step_ok (hid_report_id d p)"
proof -
  define q where "q = set_state (\<lambda>t. t\<lparr>State_ReportID := ucast d\<rparr>) p"
  have q: "hid_inv q" using assms by (simp add: q_def)
  define r where "r = State_ReportID (curr_state q)"
  let ?info = "ParserData q"
  let ?find = "List.find (\<lambda>i. Size_ReportID (ReportIDSizes ?info ! i) = r) [0..<unat (TotalDeviceReports ?info)]"
  show ?thesis
  proof (cases "UsingReportIDs ?info")
    case False
    then show ?thesis
      using hid_inv_set_id [OF q, of r] by (simp add: hid_report_id_def Let_def flip: q_def r_def)
  next
    case ids: True
    show ?thesis
    proof (cases ?find)
      case (Some i)
      then have "i < unat (TotalDeviceReports ?info)" by (auto simp: find_Some_iff)
      then have "hid_inv (q\<lparr>CurrReportIDInfo := i\<rparr>)" using q by (simp add: hid_inv_def curr_path_ok_def)
      from hid_inv_set_id [OF this, of r] show ?thesis
        using Some ids by (simp add: hid_report_id_def Let_def flip: q_def r_def)
    next
      case None
      let ?n = "TotalDeviceReports ?info"
      show ?thesis
      proof (cases "?n = 10")
        case True
        moreover have "info_ok ?info" using q by (simp add: hid_inv_def)
        ultimately show ?thesis
          using None ids by (simp add: hid_report_id_def Let_def hid_consts flip: q_def r_def)
      next
        case False
        have n: "unat ?n < 10" "1 \<le> unat ?n"
          using q False by (auto simp: hid_inv_def info_ok_def le_less word_unat_eq_iff)
        then have "unat (?n + 1) = Suc (unat ?n)" by (intro unat_succ [of _ 10]) (simp add: word_less_nat_alt)
        moreover have "info_ok (?info\<lparr>ReportIDSizes := (ReportIDSizes ?info)[unat ?n := zero_size_info]\<rparr>)"
          using q by (intro info_ok_sizes) (simp_all add: hid_inv_def zero_size_info_def)
        ultimately have "hid_inv (q\<lparr>CurrReportIDInfo := unat ?n, ParserData := ?info\<lparr>TotalDeviceReports := ?n + 1,
            ReportIDSizes := (ReportIDSizes ?info)[unat ?n := zero_size_info]\<rparr>\<rparr>)"
          using q n by (simp add: hid_inv_def curr_path_ok_def info_ok_def)
        from hid_inv_set_id [OF this, of r] show ?thesis
          using None ids False by (simp add: hid_report_id_def Let_def hid_consts flip: q_def r_def)
      qed
    qed
  qed
qed

text \<open>A new collection: the first free path, whose parent is the current path.\<close>

lemma path_ok_keep: "path_ok cs \<Longrightarrow> Parent x = Parent (cs ! i) \<Longrightarrow> path_ok (cs[i := x])"
  by (cases "i < 10") (auto simp: path_ok_def nth_list_update)

lemma path_ok_new:
  assumes "path_ok cs" "0 < i" "i < 10" "Parent (cs ! i) = None" "\<forall>j<i. 0 < j \<longrightarrow> Parent (cs ! j) \<noteq> None"
    "c < 10" "c = 0 \<or> Parent (cs ! c) \<noteq> None"
  shows "path_ok (cs[i := (cs ! i)\<lparr>Parent := Some c\<rparr>])"
proof -
  have "c < i"
  proof (rule ccontr)
    assume "\<not> c < i"
    with assms have "i < c" "Parent (cs ! c) \<noteq> None" by (auto simp: not_less le_less)
    with assms show False unfolding path_ok_def by metis
  qed
  with assms show ?thesis
    unfolding path_ok_def by (auto simp: nth_list_update)
qed

lemma hid_inv_set_path:
  assumes "hid_inv p" "\<And>c. Parent (f c) = Parent c"
  shows "hid_inv (set_path i f p)"
proof -
  have "path_ok ((CollectionPaths (ParserData p))[i := f (CollectionPaths (ParserData p) ! i)])"
    using assms by (intro path_ok_keep) (simp_all add: hid_inv_def info_ok_def)
  moreover have "Parent ((CollectionPaths (ParserData p))[i := f (CollectionPaths (ParserData p) ! i)] ! c)
      = Parent (CollectionPaths (ParserData p) ! c)" for c
    using assms(2) by (cases "i < length (CollectionPaths (ParserData p))") (auto simp: nth_list_update list_update_beyond)
  ultimately show ?thesis
    using assms(1) by (simp add: hid_inv_def set_path_def Let_def info_ok_def curr_path_ok_def)
qed

lemma hid_inv_curr_path:
  "hid_inv p \<Longrightarrow> c < 10 \<Longrightarrow> c = 0 \<or> Parent (CollectionPaths (ParserData p) ! c) \<noteq> None
     \<Longrightarrow> hid_inv (p\<lparr>CurrCollectionPath := Some c\<rparr>)"
  by (simp add: hid_inv_def curr_path_ok_def)

definition path_fill :: "hid_env \<Rightarrow> u32 \<Rightarrow> nat \<Rightarrow> hid_parser \<Rightarrow> hid_parser" where
  "path_fill e d i p =
     (let p = p\<lparr>CurrCollectionPath := Some i\<rparr>;
          p = set_path i (\<lambda>c. c\<lparr>Collection_Type := ucast d,
                Collection_Usage := (Collection_Usage c)\<lparr>Page := Page (Item_Usage (State_Attributes (curr_state p)))\<rparr>\<rparr>) p
      in case take_usage e p of
           (None, p) \<Rightarrow> p
         | (Some u, p) \<Rightarrow> set_path i (\<lambda>c. c\<lparr>Collection_Usage := (Collection_Usage c)\<lparr>Usage := u\<rparr>\<rparr>) p)"

lemma hid_collection_eq:
  "hid_collection e d p =
     (case CurrCollectionPath p of
        None \<Rightarrow> Inr (path_fill e d 0 p)
      | Some parent \<Rightarrow>
          (case List.find (\<lambda>i. Parent (CollectionPaths (ParserData p) ! i) = None) [1..<10] of
             None \<Rightarrow> Inl (Return HID_PARSE_InsufficientCollectionPaths (ParserData p))
           | Some i \<Rightarrow> Inr (path_fill e d i (set_path i (\<lambda>c. c\<lparr>Parent := Some parent\<rparr>) p))))"
  by (simp add: hid_collection_def path_fill_def Let_def hid_consts split: option.split prod.split)

lemma hid_inv_path_fill:
  assumes "hid_inv p" "i < 10" "i = 0 \<or> Parent (CollectionPaths (ParserData p) ! i) \<noteq> None"
  shows "hid_inv (path_fill e d i p)"
proof -
  let ?p = "p\<lparr>CurrCollectionPath := Some i\<rparr>"
  let ?q = "set_path i (\<lambda>c. c\<lparr>Collection_Type := ucast d,
     Collection_Usage := (Collection_Usage c)\<lparr>Page := Page (Item_Usage (State_Attributes (curr_state ?p)))\<rparr>\<rparr>) ?p"
  have "hid_inv ?q" by (rule hid_inv_set_path [OF hid_inv_curr_path [OF assms]]) simp
  then have "hid_inv (snd (take_usage e ?q))" by (rule hid_inv_take_usage)
  then show ?thesis
    by (auto simp: path_fill_def Let_def split: prod.split option.split intro!: hid_inv_set_path)
qed

text \<open>The two cases of a collection: the root, or the first free path under the current one.\<close>

lemma hid_collection_cases:
  assumes "hid_inv p"
  obtains (Root) "CurrCollectionPath p = None"
  | (Full) c where "CurrCollectionPath p = Some c"
      "List.find (\<lambda>i. Parent (CollectionPaths (ParserData p) ! i) = None) [1..<10] = None"
  | (Child) c i where "CurrCollectionPath p = Some c"
      "List.find (\<lambda>i. Parent (CollectionPaths (ParserData p) ! i) = None) [1..<10] = Some i" "i < 10"
      "hid_inv (set_path i (\<lambda>x. x\<lparr>Parent := Some c\<rparr>) p)"
      "Parent (CollectionPaths (ParserData (set_path i (\<lambda>x. x\<lparr>Parent := Some c\<rparr>) p)) ! i) \<noteq> None"
proof (cases "CurrCollectionPath p")
  case (Some c)
  have info: "info_ok (ParserData p)" using assms by (simp add: hid_inv_def)
  let ?cs = "CollectionPaths (ParserData p)"
  let ?find = "List.find (\<lambda>i. Parent (?cs ! i) = None) [1..<10]"
  show ?thesis
  proof (cases ?find)
    case None
    then show ?thesis using Some Full by blast
  next
    case found: (Some i)
    then obtain k where k: "k < 9" "i = Suc k" "Parent (?cs ! i) = None" "\<forall>j<k. Parent (?cs ! Suc j) \<noteq> None"
      by (auto simp: find_Some_iff simp del: upt_Suc)
    have before: "\<forall>j<i. 0 < j \<longrightarrow> Parent (?cs ! j) \<noteq> None"
      using k by (metis Suc_less_eq gr0_implies_Suc)
    have c: "c < 10" "c = 0 \<or> Parent (?cs ! c) \<noteq> None"
      using assms Some by (simp_all add: hid_inv_def curr_path_ok_def)
    let ?p = "set_path i (\<lambda>x. x\<lparr>Parent := Some c\<rparr>) p"
    have path: "path_ok (?cs[i := (?cs ! i)\<lparr>Parent := Some c\<rparr>])"
      using k before c info by (intro path_ok_new) (simp_all add: info_ok_def)
    have len: "length ?cs = 10" using info by (simp add: info_ok_def path_ok_def)
    have "hid_inv ?p"
      using assms path len k c by (auto simp: hid_inv_def set_path_def Let_def info_ok_def curr_path_ok_def nth_list_update)
    moreover have "Parent (CollectionPaths (ParserData ?p) ! i) \<noteq> None"
      using len k by (simp add: set_path_def Let_def)
    ultimately show ?thesis using Child [OF Some found] k by simp
  qed
qed (rule Root)

lemma step_ok_collection:
  assumes "hid_inv p"
  shows "step_ok (hid_collection e d p)"
proof -
  have "info_ok (ParserData p)" using assms by (simp add: hid_inv_def)
  then show ?thesis
    by (cases rule: hid_collection_cases [OF assms])
       (auto simp: hid_collection_eq intro!: hid_inv_path_fill assms)
qed

lemma hid_item_type_lt: "hid_item_type b < 3"
  by (simp add: hid_item_type_def Let_def HID_REPORT_ITEM_In_def HID_REPORT_ITEM_Out_def HID_REPORT_ITEM_Feature_def)

lemma info_ok_add:
  assumes "info_ok info" "TotalReportItems info \<noteq> 20" "unat (ItemType new) < 3" "\<forall>c. CollectionPath new = Some c \<longrightarrow> c < 10"
  shows "info_ok (info\<lparr>ReportItems := (ReportItems info)[unat (TotalReportItems info) := new]\<rparr>)"
    "info_ok (info\<lparr>ReportItems := (ReportItems info)[unat (TotalReportItems info) := new],
       TotalReportItems := TotalReportItems info + 1\<rparr>)"
proof -
  have "unat (TotalReportItems info) < 20"
    using assms(1,2) by (auto simp: info_ok_def le_less word_unat_eq_iff)
  moreover from this have "unat (TotalReportItems info + 1) = Suc (unat (TotalReportItems info))"
    by (intro unat_succ [of _ 20]) (simp add: word_less_nat_alt)
  ultimately show "info_ok (info\<lparr>ReportItems := (ReportItems info)[unat (TotalReportItems info) := new]\<rparr>)"
    "info_ok (info\<lparr>ReportItems := (ReportItems info)[unat (TotalReportItems info) := new],
       TotalReportItems := TotalReportItems info + 1\<rparr>)"
    using assms by (auto simp: info_ok_def nth_list_update less_Suc_eq)
qed

text \<open>A report item: the item written and the data updated, in terms of the state before.\<close>

definition new_item :: "hid_env \<Rightarrow> u8 \<Rightarrow> u32 \<Rightarrow> u16 option \<Rightarrow> hid_parser \<Rightarrow> HID_ReportItem_t" where
  "new_item e b d u p =
     (let st = curr_state p; at = State_Attributes st; t = hid_item_type b;
          new = (item_init e)\<lparr>Attributes := at, ItemFlags := ucast d, CollectionPath := CurrCollectionPath p,
                  Item_ReportID := State_ReportID st\<rparr>
      in (case u of None \<Rightarrow> new | Some u \<Rightarrow> new\<lparr>Attributes := at\<lparr>Item_Usage := (Item_Usage at)\<lparr>Usage := u\<rparr>\<rparr>\<rparr>)
           \<lparr>ItemType := of_nat t, BitOffset := ReportSizeBits (ReportIDSizes (ParserData p) ! CurrReportIDInfo p) ! t\<rparr>)"

definition new_sizes :: "u8 \<Rightarrow> hid_parser \<Rightarrow> HID_ReportInfo_t" where
  "new_sizes b p =
     (let info = ParserData p; t = hid_item_type b; ri = ReportIDSizes info ! CurrReportIDInfo p;
          bits = ReportSizeBits ri ! t + ucast (BitSize (State_Attributes (curr_state p)))
      in info\<lparr>ReportIDSizes := (ReportIDSizes info)[CurrReportIDInfo p := ri\<lparr>ReportSizeBits := (ReportSizeBits ri)[t := bits]\<rparr>],
              LargestReportSizeBits := max (LargestReportSizeBits info) bits\<rparr>)"

definition new_info :: "hid_env \<Rightarrow> u8 \<Rightarrow> u32 \<Rightarrow> u16 option \<Rightarrow> hid_parser \<Rightarrow> HID_ReportInfo_t" where
  "new_info e b d u p =
     (let info = new_sizes b p; new = new_item e b d u p
      in if d AND HID_IOF_CONSTANT = 0 \<and> hid_filter e new
         then info\<lparr>ReportItems := (ReportItems info)[unat (TotalReportItems info) := new], TotalReportItems := TotalReportItems info + 1\<rparr>
         else info\<lparr>ReportItems := (ReportItems info)[unat (TotalReportItems info) := new]\<rparr>)"

lemma hid_add_item_eq:
  "hid_add_item e b d p =
     (if TotalReportItems (ParserData p) = 20 then Inl (Return HID_PARSE_InsufficientReportItems (new_sizes b p))
      else Inr ((snd (take_usage e p))\<lparr>ParserData := new_info e b d (fst (take_usage e p)) p\<rparr>))"
  by (cases "fst (take_usage e p)")
     (simp_all add: hid_add_item_def new_info_def new_sizes_def new_item_def Let_def split_def take_usage_frame hid_consts)

lemma new_info_frame [simp]:
  "TotalDeviceReports (new_info e b d u p) = TotalDeviceReports (ParserData p)"
  "CollectionPaths (new_info e b d u p) = CollectionPaths (ParserData p)"
  by (simp_all add: new_info_def new_sizes_def Let_def)

lemma info_ok_new:
  assumes "hid_inv p"
  shows "info_ok (new_sizes b p)" "TotalReportItems (ParserData p) \<noteq> 20 \<Longrightarrow> info_ok (new_info e b d u p)"
proof -
  let ?info = "ParserData p" and ?t = "hid_item_type b"
  let ?ri = "ReportIDSizes ?info ! CurrReportIDInfo p"
  show ok: "info_ok (new_sizes b p)"
    using assms sizes_length [OF assms] by (simp add: new_sizes_def Let_def hid_inv_def info_ok_sizes)
  have new: "unat (ItemType (new_item e b d u p)) < 3" "\<forall>c. CollectionPath (new_item e b d u p) = Some c \<longrightarrow> c < 10"
    using assms hid_item_type_lt [of b]
    by (auto simp: new_item_def Let_def hid_inv_def curr_path_ok_def unat_of_nat split: option.split)
  show "info_ok (new_info e b d u p)" if "TotalReportItems ?info \<noteq> 20"
  proof -
    have "TotalReportItems (new_sizes b p) \<noteq> 20" using that by (simp add: new_sizes_def Let_def)
    from info_ok_add [OF ok this new] show ?thesis by (simp add: new_info_def Let_def)
  qed
qed

lemma hid_inv_new_info:
  "hid_inv p \<Longrightarrow> info_ok info \<Longrightarrow> TotalDeviceReports info = TotalDeviceReports (ParserData p) \<Longrightarrow>
     CollectionPaths info = CollectionPaths (ParserData p) \<Longrightarrow> hid_inv (p\<lparr>ParserData := info\<rparr>)"
  by (simp add: hid_inv_def curr_path_ok_def)

lemma step_ok_add_item:
  assumes "hid_inv p"
  shows "step_ok (hid_add_item e b d p)"
  using info_ok_new [OF assms]
  by (auto simp: hid_add_item_eq take_usage_frame intro!: hid_inv_new_info hid_inv_take_usage [OF assms])

lemma step_ok_add_items: "hid_inv p \<Longrightarrow> step_ok (hid_add_items e b d n p)"
proof (induction n arbitrary: p)
  case (Suc n)
  show ?case
    using step_ok_add_item [OF Suc.prems, of e b d] Suc.IH
    by (auto split: sum.split)
qed simp

lemma step_ok_switch: "hid_inv p \<Longrightarrow> step_ok (hid_switch e b d p)"
  by (simp add: hid_switch_def Let_def step_ok_push step_ok_pop hid_inv_usage_page step_ok_report_id step_ok_usage_item
      step_ok_collection step_ok_end_collection step_ok_add_items)

lemma step_ok_item: "hid_inv p \<Longrightarrow> step_ok (hid_item e p)"
proof -
  assume inv: "hid_inv p"
  obtain b d q where f: "hid_fetch e p = (b, d, q)" by (metis prod_cases3)
  then have "hid_inv q" using hid_inv_fetch [OF inv, of e] by simp
  then have "step_ok (hid_switch e b d q)" by (rule step_ok_switch)
  then show ?thesis
    by (auto simp: hid_item_def f hid_inv_def curr_path_ok_def split: sum.split)
qed

subsection \<open>Lemmas: the position in the descriptor\<close>

text \<open>The number of bytes of an item, from its first byte, and descriptors whose items fit their size.\<close>

definition item_len :: "u8 \<Rightarrow> nat" where
  "item_len b = (if b AND 3 = 3 then 5 else if b AND 3 = 2 then 3 else if b AND 3 = 1 then 2 else 1)"

function hid_fits :: "(u16 \<Rightarrow> u8) \<Rightarrow> u16 \<Rightarrow> nat \<Rightarrow> bool" where
  "hid_fits m a n =
     (if n = 0 then True
      else item_len (m a) \<le> n \<and> hid_fits m (a + of_nat (item_len (m a))) (n - item_len (m a)))"
  by pat_completeness auto
termination
  by (relation "measure (\<lambda>(m, a, n). n)") (auto simp: item_len_def)

declare hid_fits.simps [simp del]

lemma hid_fetch_pos:
  "ReportData (snd (snd (hid_fetch e p))) = ReportData p + of_nat (item_len (hid_mem e (ReportData p)))"
  "ReportSize (snd (snd (hid_fetch e p))) = ReportSize p - of_nat (item_len (hid_mem e (ReportData p)))"
  by (simp_all add: hid_fetch_def item_len_def Let_def hid_ri_defs algebra_simps)

definition same_pos :: "hid_parser \<Rightarrow> hid_result + hid_parser \<Rightarrow> bool" where
  "same_pos p r = (case r of Inl _ \<Rightarrow> True | Inr q \<Rightarrow> ReportData q = ReportData p \<and> ReportSize q = ReportSize p)"

lemma same_pos_set_state [simp]:
  "ReportData (set_state f p) = ReportData p" "ReportSize (set_state f p) = ReportSize p"
  "ReportData (set_attributes g p) = ReportData p" "ReportSize (set_attributes g p) = ReportSize p"
  "ReportData (set_path i h p) = ReportData p" "ReportSize (set_path i h p) = ReportSize p"
  by (simp_all add: set_state_def set_attributes_def set_path_def Let_def)

lemma same_pos_add_items: "same_pos p (hid_add_items e b d n p)"
proof (induction n arbitrary: p)
  case (Suc n)
  have "same_pos p (hid_add_item e b d p)"
    by (simp add: same_pos_def hid_add_item_eq take_usage_frame)
  then show ?case
    using Suc.IH [of "projr (hid_add_item e b d p)"]
    by (cases "hid_add_item e b d p") (auto simp: same_pos_def split: sum.splits)
qed (simp add: same_pos_def)

lemma same_pos_collection: "same_pos p (hid_collection e d p)"
  by (auto simp: same_pos_def hid_collection_eq path_fill_def Let_def take_usage_def split: option.split prod.split)

lemma same_pos_report_id: "same_pos p (hid_report_id d p)"
  by (simp add: same_pos_def hid_report_id_def Let_def split: option.split)

lemma same_pos_switch: "same_pos p (hid_switch e b d p)"
proof -
  have "same_pos p (hid_push p)" "same_pos p (hid_pop p)" "same_pos p (hid_usage_item d p)" "same_pos p (hid_end_collection p)"
    "same_pos p (Inr (hid_usage_page b d p))"
    by (simp_all add: same_pos_def hid_push_def hid_pop_def hid_usage_item_def hid_end_collection_def hid_usage_page_def
        Let_def split: option.split)
  moreover have "same_pos p (Inr (set_attributes g p))" "same_pos p (Inr (set_state f p))"
    "same_pos p (Inr (p\<lparr>UsageMinMax := m\<rparr>))" "same_pos p (Inr p)" for f g m
    by (simp_all add: same_pos_def)
  ultimately show ?thesis
    by (simp add: hid_switch_def Let_def same_pos_add_items same_pos_collection same_pos_report_id)
qed

lemma hid_item_pos:
  "hid_item e p = Inr q \<Longrightarrow> ReportData q = ReportData p + of_nat (item_len (hid_mem e (ReportData p)))
     \<and> ReportSize q = ReportSize p - of_nat (item_len (hid_mem e (ReportData p)))"
proof -
  assume item: "hid_item e p = Inr q"
  obtain b d r where f: "hid_fetch e p = (b, d, r)" by (metis prod_cases3)
  then show ?thesis
    using item same_pos_switch [of r e b d] hid_fetch_pos [of e p]
    by (auto simp: hid_item_def same_pos_def split: sum.splits if_splits)
qed

subsection \<open>Lemmas: what the parser does not depend on\<close>

text \<open>
  Two states of the parser are similar when they differ only in the part of \<^verbatim>\<open>UsageList\<close> behind
  the stored usages and in the second entry of the state table.
\<close>

definition sim :: "hid_parser \<Rightarrow> hid_parser \<Rightarrow> bool" where
  "sim p p' \<longleftrightarrow> hid_inv p \<and>
     (\<exists>u t. p' = p\<lparr>UsageList := u, StateTable := t\<rparr> \<and> length u = 8 \<and> length t = 2 \<and> t ! 0 = StateTable p ! 0 \<and>
        (\<forall>i<unat (UsageListSize p). u ! i = UsageList p ! i))"

definition step_sim :: "hid_result + hid_parser \<Rightarrow> hid_result + hid_parser \<Rightarrow> bool" where
  "step_sim r r' = (case r of Inl a \<Rightarrow> r' = Inl a | Inr p \<Rightarrow> (\<exists>p'. r' = Inr p' \<and> sim p p'))"

lemma simE:
  assumes "sim p p'"
  obtains u t where "p' = p\<lparr>UsageList := u, StateTable := t\<rparr>" "length u = 8" "length t = 2" "t ! 0 = StateTable p ! 0"
    "\<forall>i<unat (UsageListSize p). u ! i = UsageList p ! i" "hid_inv p" "CurrStateTable p = 0"
  using assms by (auto simp: sim_def hid_inv_def)

lemma sim_state: "sim p p' \<Longrightarrow> curr_state p' = curr_state p"
  by (erule simE) simp

lemma sim_set_state:
  assumes "sim p p'"
  shows "sim (set_state f p) (set_state f p')"
proof -
  obtain u t where a: "p' = p\<lparr>UsageList := u, StateTable := t\<rparr>" "length u = 8" "length t = 2" "t ! 0 = StateTable p ! 0"
    "\<forall>i<unat (UsageListSize p). u ! i = UsageList p ! i" "hid_inv p" "CurrStateTable p = 0"
    by (rule simE [OF assms])
  have "length (StateTable p) = 2" using a(6) by (simp add: hid_inv_def)
  with a have "\<exists>v s. set_state f p' = (set_state f p)\<lparr>UsageList := v, StateTable := s\<rparr> \<and> length v = 8 \<and> length s = 2
      \<and> s ! 0 = StateTable (set_state f p) ! 0 \<and> (\<forall>i<unat (UsageListSize (set_state f p)). v ! i = UsageList (set_state f p) ! i)"
    by (intro exI [of _ u] exI [of _ "t[0 := f (t ! 0)]"]) (simp add: set_state_def)
  then show ?thesis using a(6) by (simp add: sim_def)
qed

lemma sim_set_attributes: "sim p p' \<Longrightarrow> sim (set_attributes f p) (set_attributes f p')"
  by (simp add: set_attributes_def sim_set_state)

text \<open>An update that reads neither \<^verbatim>\<open>UsageList\<close> nor \<^verbatim>\<open>StateTable\<close> keeps similarity.\<close>

lemma sim_update:
  assumes "sim p p'" "hid_inv (f p)" "\<And>p u t. f (p\<lparr>UsageList := u, StateTable := t\<rparr>) = (f p)\<lparr>UsageList := u, StateTable := t\<rparr>"
    "UsageList (f p) = UsageList p" "StateTable (f p) = StateTable p" "UsageListSize (f p) = UsageListSize p"
  shows "sim (f p) (f p')"
proof -
  obtain u t where a: "p' = p\<lparr>UsageList := u, StateTable := t\<rparr>" "length u = 8" "length t = 2" "t ! 0 = StateTable p ! 0"
    "\<forall>i<unat (UsageListSize p). u ! i = UsageList p ! i"
    by (rule simE [OF assms(1)])
  show ?thesis
    unfolding sim_def using a(2-5) assms(2,4-6)
    by (intro conjI exI [of _ u] exI [of _ t]) (simp_all add: a(1) assms(3))
qed

lemma usage_shift_nth:
  assumes "length ul = 8" "Suc i < n" "n \<le> 8"
  shows "usage_shift past n ul ! i = ul ! Suc i"
proof -
  have "m \<le> 8 \<Longrightarrow> fold (\<lambda>i ul. ul[i := if i + 1 < 8 then ul ! (i + 1) else past]) [0..<m] ul
      = map (\<lambda>i. if i < m then (if i + 1 < 8 then ul ! (i + 1) else past) else ul ! i) [0..<8]" for m
  proof (induction m)
    case 0
    show ?case using assms(1) by (simp add: map_nth [symmetric] del: upt_Suc) (metis assms(1) map_nth)
  next
    case (Suc m)
    then show ?case
      by (intro nth_equalityI) (auto simp: nth_list_update less_Suc_eq)
  qed
  from this [of n] show ?thesis
    using assms by (simp add: usage_shift_def hid_consts del: upt_Suc)
qed

lemma sim_take_usage:
  assumes "sim p p'"
  shows "fst (take_usage e' p') = fst (take_usage e p)" "sim (snd (take_usage e p)) (snd (take_usage e' p'))"
proof -
  obtain u t where a: "p' = p\<lparr>UsageList := u, StateTable := t\<rparr>" "length u = 8" "length t = 2" "t ! 0 = StateTable p ! 0"
    "\<forall>i<unat (UsageListSize p). u ! i = UsageList p ! i" "hid_inv p"
    by (rule simE [OF assms]) blast
  let ?n = "UsageListSize p"
  have nz: "?n \<noteq> 0 \<Longrightarrow> 0 < unat ?n" by (simp add: unat_gt_0)
  show "fst (take_usage e' p') = fst (take_usage e p)"
    using a nz by (simp add: take_usage_def)
  have len: "length (UsageList p) = 8" "unat ?n \<le> 8" using a(6) by (simp_all add: hid_inv_def)
  have inv: "hid_inv (snd (take_usage e p))" by (rule hid_inv_take_usage [OF a(6)])
  show "sim (snd (take_usage e p)) (snd (take_usage e' p'))"
  proof (cases "?n = 0")
    case True
    then show ?thesis
      using a inv unfolding sim_def by (intro conjI exI [of _ u] exI [of _ t]) (simp_all add: take_usage_def)
  next
    case False
    have "usage_shift x (unat ?n) u ! i = usage_shift y (unat ?n) (UsageList p) ! i" if "i < unat (?n - 1)" for i x y
      using that False a len unat_pred [OF False] by (simp add: usage_shift_nth)
    then show ?thesis
      using a inv False unfolding sim_def
      by (intro conjI exI [of _ "usage_shift (usage_past e') (unat ?n) u"] exI [of _ t]) (simp_all add: take_usage_def)
  qed
qed

lemma step_sim_update:
  assumes "sim p p'" "step_ok (F p)"
    "\<And>p u t. F (p\<lparr>UsageList := u, StateTable := t\<rparr>) = map_sum (\<lambda>x. x) (\<lambda>q. q\<lparr>UsageList := u, StateTable := t\<rparr>) (F p)"
    "\<And>q. F p = Inr q \<Longrightarrow> UsageList q = UsageList p \<and> StateTable q = StateTable p \<and> UsageListSize q = UsageListSize p"
  shows "step_sim (F p) (F p')"
proof -
  obtain u t where a: "p' = p\<lparr>UsageList := u, StateTable := t\<rparr>" "length u = 8" "length t = 2" "t ! 0 = StateTable p ! 0"
    "\<forall>i<unat (UsageListSize p). u ! i = UsageList p ! i"
    by (rule simE [OF assms(1)])
  have F: "F p' = map_sum (\<lambda>x. x) (\<lambda>q. q\<lparr>UsageList := u, StateTable := t\<rparr>) (F p)"
    unfolding a(1) by (rule assms(3))
  show ?thesis
  proof (cases "F p")
    case (Inr q)
    then have "sim q (q\<lparr>UsageList := u, StateTable := t\<rparr>)"
      unfolding sim_def using a assms(2) assms(4) [OF Inr]
      by (intro conjI exI [of _ u] exI [of _ t]) simp_all
    then show ?thesis using Inr F by (simp add: step_sim_def)
  qed (simp add: step_sim_def F)
qed

lemma sim_inv: "sim p p' \<Longrightarrow> hid_inv p"
  by (simp add: sim_def)

lemma step_sim_push: "sim p p' \<Longrightarrow> step_sim (hid_push p) (hid_push p')"
  by (erule simE) (simp add: step_sim_def hid_push_def hid_consts sizeof_HID_ReportItem_t_def sizeof_HID_StateTable_t_def)

lemma step_sim_pop: "sim p p' \<Longrightarrow> step_sim (hid_pop p) (hid_pop p')"
  by (erule simE) (simp add: step_sim_def hid_pop_def)

lemma step_sim_end_collection: "sim p p' \<Longrightarrow> step_sim (hid_end_collection p) (hid_end_collection p')"
  by (rule step_sim_update [OF _ step_ok_end_collection [OF sim_inv]])
     (auto simp: hid_end_collection_def split: option.splits)

lemma step_sim_usage_item:
  assumes "sim p p'"
  shows "step_sim (hid_usage_item d p) (hid_usage_item d p')"
proof -
  obtain u t where a: "p' = p\<lparr>UsageList := u, StateTable := t\<rparr>" "length u = 8" "length t = 2" "t ! 0 = StateTable p ! 0"
    "\<forall>i<unat (UsageListSize p). u ! i = UsageList p ! i" "hid_inv p"
    by (rule simE [OF assms]) blast
  let ?n = "UsageListSize p"
  show ?thesis
  proof (cases "?n = 8")
    case False
    have len: "length (UsageList p) = 8" "unat ?n \<le> 8" using a(6) by (simp_all add: hid_inv_def)
    with False have n: "unat ?n < 8" by (auto simp: le_less word_unat_eq_iff)
    then have s: "unat (?n + 1) = Suc (unat ?n)" by (intro unat_succ [of _ 8]) (simp add: word_less_nat_alt)
    have inv: "hid_inv (p\<lparr>UsageList := (UsageList p)[unat ?n := ucast d], UsageListSize := ?n + 1\<rparr>)"
      using step_ok_usage_item [OF a(6), of d] False by (simp add: hid_usage_item_def hid_consts)
    have "sim (p\<lparr>UsageList := (UsageList p)[unat ?n := ucast d], UsageListSize := ?n + 1\<rparr>)
        (p'\<lparr>UsageList := u[unat ?n := ucast d], UsageListSize := ?n + 1\<rparr>)"
      unfolding sim_def using a inv n s len
      by (intro conjI exI [of _ "u[unat ?n := ucast d]"] exI [of _ t]) (simp_all add: nth_list_update less_Suc_eq)
    then show ?thesis using False a by (simp add: step_sim_def hid_usage_item_def hid_consts)
  qed (simp add: step_sim_def hid_usage_item_def hid_consts a(1))
qed

text \<open>The part of the report ID item behind the state table.\<close>

definition report_id_tail :: "u8 \<Rightarrow> hid_parser \<Rightarrow> hid_result + hid_parser" where
  "report_id_tail r p =
     (let info = ParserData p;
          finish = (\<lambda>p. let info = ParserData p; info = info\<lparr>UsingReportIDs := True\<rparr>; i = CurrReportIDInfo p
             in Inr (p\<lparr>ParserData := info\<lparr>ReportIDSizes :=
                  (ReportIDSizes info)[i := (ReportIDSizes info ! i)\<lparr>Size_ReportID := r\<rparr>]\<rparr>\<rparr>))
      in if UsingReportIDs info then
           (case List.find (\<lambda>i. Size_ReportID (ReportIDSizes info ! i) = r) [0..<unat (TotalDeviceReports info)] of
              Some i \<Rightarrow> finish (p\<lparr>CurrReportIDInfo := i\<rparr>)
            | None \<Rightarrow>
                if TotalDeviceReports info = of_nat HID_MAX_REPORT_IDS then
                  Inl (Return HID_PARSE_InsufficientReportIDItems info)
                else
                  (let i = unat (TotalDeviceReports info)
                   in finish (p\<lparr>CurrReportIDInfo := i,
                        ParserData := info\<lparr>TotalDeviceReports := TotalDeviceReports info + 1,
                          ReportIDSizes := (ReportIDSizes info)[i := zero_size_info]\<rparr>\<rparr>)))
         else finish p)"

lemma hid_report_id_eq:
  "hid_report_id d p =
     (let q = set_state (\<lambda>t. t\<lparr>State_ReportID := ucast d\<rparr>) p in report_id_tail (State_ReportID (curr_state q)) q)"
  unfolding hid_report_id_def report_id_tail_def Let_def ..

lemma step_sim_report_id:
  assumes "sim p p'"
  shows "step_sim (hid_report_id d p) (hid_report_id d p')"
proof -
  let ?f = "set_state (\<lambda>t. t\<lparr>State_ReportID := ucast d\<rparr>)"
  have q: "sim (?f p) (?f p')" by (rule sim_set_state [OF assms])
  have "step_ok (report_id_tail (State_ReportID (curr_state (?f p))) (?f p))"
    using step_ok_report_id [OF sim_inv [OF assms], of d] by (simp add: hid_report_id_eq Let_def)
  then have "step_sim (report_id_tail (State_ReportID (curr_state (?f p))) (?f p))
      (report_id_tail (State_ReportID (curr_state (?f p))) (?f p'))"
    by (rule step_sim_update [OF q]) (auto simp: report_id_tail_def Let_def split: option.splits if_splits)
  then show ?thesis
    using sim_state [OF q] by (simp add: hid_report_id_eq Let_def)
qed

lemma sim_set_path:
  assumes "sim p p'" "hid_inv (set_path i f p)"
  shows "sim (set_path i f p) (set_path i f p')"
  by (rule sim_update [where f = "set_path i f", OF assms]) (simp_all add: set_path_def Let_def)

lemma sim_path_fill:
  assumes "sim p p'" "i < 10" "i = 0 \<or> Parent (CollectionPaths (ParserData p) ! i) \<noteq> None"
  shows "sim (path_fill e d i p) (path_fill e' d i p')"
proof -
  let ?p = "p\<lparr>CurrCollectionPath := Some i\<rparr>" and ?p' = "p'\<lparr>CurrCollectionPath := Some i\<rparr>"
  have p: "sim ?p ?p'"
    by (rule sim_update [where f = "\<lambda>p. p\<lparr>CurrCollectionPath := Some i\<rparr>", OF assms(1)
          hid_inv_curr_path [OF sim_inv [OF assms(1)] assms(2,3)]]) simp_all
  let ?g = "\<lambda>p c. c\<lparr>Collection_Type := ucast d,
     Collection_Usage := (Collection_Usage c)\<lparr>Page := Page (Item_Usage (State_Attributes (curr_state p)))\<rparr>\<rparr>"
  have g: "?g ?p' = ?g ?p" using sim_state [OF p] by simp
  let ?q = "set_path i (?g ?p) ?p" and ?q' = "set_path i (?g ?p) ?p'"
  have "hid_inv ?q" by (rule hid_inv_set_path [OF sim_inv [OF p]]) simp
  then have q: "sim ?q ?q'" by (rule sim_set_path [OF p])
  note u = sim_take_usage [OF q, where e = e and e' = e']
  have "sim (set_path i (\<lambda>c. c\<lparr>Collection_Usage := (Collection_Usage c)\<lparr>Usage := x\<rparr>\<rparr>) (snd (take_usage e ?q)))
      (set_path i (\<lambda>c. c\<lparr>Collection_Usage := (Collection_Usage c)\<lparr>Usage := x\<rparr>\<rparr>) (snd (take_usage e' ?q')))" for x
    by (rule sim_set_path [OF u(2) hid_inv_set_path [OF sim_inv [OF u(2)]]]) simp
  moreover have "path_fill e d i p = (case fst (take_usage e ?q) of None \<Rightarrow> snd (take_usage e ?q)
      | Some x \<Rightarrow> set_path i (\<lambda>c. c\<lparr>Collection_Usage := (Collection_Usage c)\<lparr>Usage := x\<rparr>\<rparr>) (snd (take_usage e ?q)))"
    by (simp add: path_fill_def Let_def split_def)
  moreover have "path_fill e' d i p' = (case fst (take_usage e' ?q') of None \<Rightarrow> snd (take_usage e' ?q')
      | Some x \<Rightarrow> set_path i (\<lambda>c. c\<lparr>Collection_Usage := (Collection_Usage c)\<lparr>Usage := x\<rparr>\<rparr>) (snd (take_usage e' ?q')))"
    unfolding g [symmetric] by (simp add: path_fill_def Let_def split_def)
  ultimately show ?thesis
    using u by (simp split: option.split)
qed

lemma step_sim_collection:
  assumes "sim p p'"
  shows "step_sim (hid_collection e d p) (hid_collection e' d p')"
proof -
  have same: "CurrCollectionPath p' = CurrCollectionPath p" "ParserData p' = ParserData p"
    by (rule simE [OF assms], simp)+
  show ?thesis
  proof (cases rule: hid_collection_cases [OF sim_inv [OF assms]])
    case 1
    then show ?thesis
      using sim_path_fill [OF assms, of 0 e d e'] same by (simp add: hid_collection_eq step_sim_def)
  next
    case (2 c)
    then show ?thesis using same by (simp add: hid_collection_eq step_sim_def)
  next
    case (3 c i)
    have "sim (path_fill e d i (set_path i (\<lambda>x. x\<lparr>Parent := Some c\<rparr>) p)) (path_fill e' d i (set_path i (\<lambda>x. x\<lparr>Parent := Some c\<rparr>) p'))"
      by (rule sim_path_fill [OF sim_set_path [OF assms 3(4)] 3(3) disjI2 [OF 3(5)]])
    then show ?thesis using 3 same by (simp add: hid_collection_eq step_sim_def)
  qed
qed

definition env_sim :: "hid_env \<Rightarrow> hid_env \<Rightarrow> bool" where
  "env_sim e e' \<longleftrightarrow> hid_filter e' = hid_filter e \<and> item_init e' = item_init e"

lemma step_sim_add_item:
  assumes "sim p p'" "env_sim e e'"
  shows "step_sim (hid_add_item e b d p) (hid_add_item e' b d p')"
proof -
  have same: "CurrCollectionPath p' = CurrCollectionPath p" "ParserData p' = ParserData p" "CurrReportIDInfo p' = CurrReportIDInfo p"
    by (rule simE [OF assms(1)], simp)+
  note u = sim_take_usage [OF assms(1), where e = e and e' = e']
  have sizes: "new_sizes b p' = new_sizes b p"
    using sim_state [OF assms(1)] by (simp add: new_sizes_def same Let_def)
  have item: "new_item e' b d u p' = new_item e b d u p" for u
    using sim_state [OF assms(1)] assms(2) by (simp add: new_item_def same Let_def env_sim_def)
  have info: "new_info e' b d u p' = new_info e b d u p" for u
    using assms(2) by (simp add: new_info_def item sizes Let_def env_sim_def)
  have "sim ((snd (take_usage e p))\<lparr>ParserData := i\<rparr>) ((snd (take_usage e' p'))\<lparr>ParserData := i\<rparr>)"
    if "hid_inv ((snd (take_usage e p))\<lparr>ParserData := i\<rparr>)" for i
    by (rule sim_update [where f = "\<lambda>p. p\<lparr>ParserData := i\<rparr>", OF u(2) that]) simp_all
  then show ?thesis
    using step_ok_add_item [OF sim_inv [OF assms(1)], of e b d]
    by (simp add: hid_add_item_eq step_sim_def same sizes info u(1) split: if_splits)
qed

lemma step_sim_add_items:
  "sim p p' \<Longrightarrow> env_sim e e' \<Longrightarrow> step_sim (hid_add_items e b d n p) (hid_add_items e' b d n p')"
proof (induction n arbitrary: p p')
  case (Suc n)
  show ?case
  proof (cases "hid_add_item e b d p")
    case (Inr q)
    then obtain q' where "hid_add_item e' b d p' = Inr q'" "sim q q'"
      using step_sim_add_item [OF Suc.prems, of b d] by (auto simp: step_sim_def)
    then show ?thesis using Inr Suc.IH Suc.prems(2) by simp
  qed (use step_sim_add_item [OF Suc.prems, of b d] in \<open>simp add: step_sim_def\<close>)
qed (simp add: step_sim_def)

lemma step_sim_if:
  "(c \<Longrightarrow> step_sim a a') \<Longrightarrow> (\<not> c \<Longrightarrow> step_sim b b') \<Longrightarrow> step_sim (if c then a else b) (if c then a' else b')"
  by simp

lemma sim_minmax: "sim p p' \<Longrightarrow> sim (p\<lparr>UsageMinMax := f (UsageMinMax p)\<rparr>) (p'\<lparr>UsageMinMax := f (UsageMinMax p')\<rparr>)"
  by (rule sim_update [where f = "\<lambda>p. p\<lparr>UsageMinMax := f (UsageMinMax p)\<rparr>"]) (simp_all add: sim_inv)

lemma step_sim_switch:
  assumes "sim p p'" "env_sim e e'"
  shows "step_sim (hid_switch e b d p) (hid_switch e' b d p')"
proof -
  have inr: "step_sim (Inr q) (Inr q') = sim q q'" for q q' by (simp add: step_sim_def)
  have page: "sim (hid_usage_page b d p) (hid_usage_page b d p')"
    using assms(1) by (simp add: hid_usage_page_def Let_def sim_set_attributes)
  note mm = sim_minmax [OF assms(1), of "\<lambda>m. m\<lparr>Minimum := d\<rparr>"] sim_minmax [OF assms(1), of "\<lambda>m. m\<lparr>Maximum := d\<rparr>"]
  show ?thesis
    unfolding hid_switch_def Let_def sim_state [OF assms(1)]
    by (intro step_sim_if)
       (simp_all add: inr page mm assms step_sim_push step_sim_pop step_sim_report_id step_sim_usage_item
         step_sim_collection step_sim_end_collection step_sim_add_items sim_set_attributes sim_set_state)
qed

lemma hid_fetch_sim:
  assumes "sim p p'" "\<forall>i<item_len (hid_mem e (ReportData p)). hid_mem e' (ReportData p + of_nat i) = hid_mem e (ReportData p + of_nat i)"
  obtains b d q q' where "hid_fetch e p = (b, d, q)" "hid_fetch e' p' = (b, d, q')" "sim q q'"
proof -
  let ?a = "ReportData p" and ?b = "hid_mem e (ReportData p)"
  have a': "ReportData p' = ?a" by (rule simE [OF assms(1)]) simp
  have mem: "i < item_len ?b \<Longrightarrow> hid_mem e' (?a + of_nat i) = hid_mem e (?a + of_nat i)" for i
    using assms(2) by blast
  have b: "hid_mem e' ?a = ?b" using mem [of 0] by (simp add: item_len_def split: if_splits)
  have d: "hid_mem e' (?a + 1) = hid_mem e (?a + 1)" if "?b AND 3 \<noteq> 0"
    using mem [of 1] that u8_and_3 [of ?b] by (auto simp: item_len_def)
  have d2: "hid_mem e' (?a + 2) = hid_mem e (?a + 2)" if "?b AND 3 = 2 \<or> ?b AND 3 = 3"
    using mem [of 2] that by (auto simp: item_len_def)
  have d34: "hid_mem e' (?a + 3) = hid_mem e (?a + 3)" "hid_mem e' (?a + 4) = hid_mem e (?a + 4)" if "?b AND 3 = 3"
    using mem [of 3] mem [of 4] that by (auto simp: item_len_def)
  have eq: "fst (hid_fetch e' p') = fst (hid_fetch e p)" "fst (snd (hid_fetch e' p')) = fst (snd (hid_fetch e p))"
    using d d2 d34 by (auto simp: hid_fetch_def Let_def hid_ri_defs a' b add.assoc)
  let ?f = "\<lambda>n p. p\<lparr>ReportData := ReportData p + of_nat n, ReportSize := ReportSize p - of_nat n\<rparr>"
  have f: "snd (snd (hid_fetch e x)) = ?f (item_len (hid_mem e (ReportData x))) x" for e x
    by (simp add: hid_fetch_def Let_def hid_ri_defs item_len_def algebra_simps)
  have "sim (?f (item_len ?b) p) (?f (item_len ?b) p')"
    by (rule sim_update [where f = "?f (item_len ?b)", OF assms(1)]) (simp_all add: sim_inv [OF assms(1)])
  then have "sim (snd (snd (hid_fetch e p))) (snd (snd (hid_fetch e' p')))"
    unfolding f a' b .
  with eq that show ?thesis by (metis prod.collapse)
qed

lemma step_sim_item:
  assumes "sim p p'" "env_sim e e'"
    "\<forall>i<item_len (hid_mem e (ReportData p)). hid_mem e' (ReportData p + of_nat i) = hid_mem e (ReportData p + of_nat i)"
  shows "step_sim (hid_item e p) (hid_item e' p')"
proof -
  obtain b d q q' where f: "hid_fetch e p = (b, d, q)" "hid_fetch e' p' = (b, d, q')" "sim q q'"
    by (rule hid_fetch_sim [OF assms(1,3)])
  note sw = step_sim_switch [OF f(3) assms(2), of b d]
  show ?thesis
  proof (cases "hid_switch e b d q")
    case (Inl r)
    then show ?thesis using sw f by (simp add: hid_item_def step_sim_def)
  next
    case (Inr r)
    then obtain r' where r': "hid_switch e' b d q' = Inr r'" "sim r r'"
      using sw by (auto simp: step_sim_def)
    have "sim (r\<lparr>UsageMinMax := m, UsageListSize := 0\<rparr>) (r'\<lparr>UsageMinMax := m, UsageListSize := 0\<rparr>)" for m
    proof -
      obtain u t where a: "r' = r\<lparr>UsageList := u, StateTable := t\<rparr>" "length u = 8" "length t = 2" "t ! 0 = StateTable r ! 0"
        "hid_inv r"
        by (rule simE [OF r'(2)]) blast
      then show ?thesis
        unfolding sim_def by (intro conjI exI [of _ u] exI [of _ t]) (simp_all add: hid_inv_def curr_path_ok_def)
    qed
    then show ?thesis using Inr r' f by (simp add: hid_item_def step_sim_def)
  qed
qed

subsection \<open>Lemmas: the loop\<close>

definition result_ok :: "hid_result \<Rightarrow> bool" where
  "result_ok r = (case r of Wild_Write \<Rightarrow> True
     | Return err info \<Rightarrow> info_ok info \<and> (err = HID_PARSE_Successful \<longrightarrow> TotalReportItems info \<noteq> 0))"

lemma hid_loop_ok:
  assumes "hid_loop e p = Some r" "hid_inv p"
  shows "result_ok r"
proof -
  have "hid_inv p \<longrightarrow> result_ok r"
  proof (rule hid_loop.raw_induct [of "\<lambda>e p r. hid_inv p \<longrightarrow> result_ok r", OF _ assms(1)], intro impI)
    fix f e p r
    assume IH: "\<And>e p r. f e p = Some r \<Longrightarrow> hid_inv p \<longrightarrow> result_ok r"
      and eq: "(if ReportSize p = 0 then
        Some (Return (if TotalReportItems (ParserData p) = 0 then HID_PARSE_NoUnfilteredReportItems
                      else HID_PARSE_Successful) (ParserData p))
        else (case hid_item e p of Inl r \<Rightarrow> Some r | Inr p \<Rightarrow> f e p)) = Some r"
      and inv: "hid_inv p"
    show "result_ok r"
    proof (cases "ReportSize p = 0")
      case True
      then show ?thesis using eq inv by (auto simp: result_ok_def hid_inv_def)
    next
      case False
      note ok = step_ok_item [OF inv, of e]
      show ?thesis
      proof (cases "hid_item e p")
        case (Inl a)
        then show ?thesis using eq False ok by (cases a) (auto simp: result_ok_def)
      next
        case (Inr q)
        then show ?thesis using eq False ok IH [of e q r] by simp
      qed
    qed
  qed
  then show ?thesis using assms(2) by simp
qed

lemma unat_item_len: "unat (of_nat (item_len b) :: u16) = item_len b"
proof -
  have "item_len b < 2 ^ LENGTH(16)" by (simp add: item_len_def)
  then show ?thesis by (rule of_nat_inverse [OF refl])
qed

lemma hid_loop_well_formed:
  assumes "hid_fits (hid_mem e) a n" "a = ReportData p" "n = unat (ReportSize p)" "sim p p'" "env_sim e e'"
    "\<forall>i<n. hid_mem e' (a + of_nat i) = hid_mem e (a + of_nat i)"
  shows "\<exists>r. hid_loop e p = Some r \<and> hid_loop e' p' = Some r"
  using assms
proof (induction "hid_mem e" a n arbitrary: p p' rule: hid_fits.induct)
  case (1 a n)
  have same: "ReportSize p' = ReportSize p" "ParserData p' = ParserData p" by (rule simE [OF "1.prems"(4)], simp)+
  show ?case
  proof (cases "n = 0")
    case True
    then have "ReportSize p = 0" using "1.prems"(3) by (simp add: unat_eq_zero)
    then show ?thesis using same by (simp add: hid_loop.simps)
  next
    case False
    let ?l = "item_len (hid_mem e a)"
    have fits: "?l \<le> n" "hid_fits (hid_mem e) (a + of_nat ?l) (n - ?l)"
      using "1.prems"(1) False hid_fits.simps [of "hid_mem e" a n] by simp_all
    have st: "step_sim (hid_item e p) (hid_item e' p')"
      using "1.prems"(2,6) fits(1) by (intro step_sim_item "1.prems"(4,5)) simp
    have nz: "ReportSize p \<noteq> 0" "ReportSize p' \<noteq> 0" using False "1.prems"(3) same by auto
    have IH: "\<exists>r. hid_loop e q = Some r \<and> hid_loop e' q' = Some r" if q: "hid_item e p = Inr q" "sim q q'" for q q'
    proof (rule "1.hyps" [OF False fits(2)])
      have l: "unat (of_nat ?l :: u16) = ?l" by (rule unat_item_len)
      moreover have "of_nat ?l \<le> ReportSize p" using fits(1) "1.prems"(3) l by (simp only: word_le_nat_alt)
      ultimately show "n - ?l = unat (ReportSize q)"
        using hid_item_pos [OF q(1)] "1.prems"(2,3) by (simp only: unat_sub)
      show "a + of_nat ?l = ReportData q" using hid_item_pos [OF q(1)] "1.prems"(2) by simp
      show "\<forall>i<n - ?l. hid_mem e' (a + of_nat ?l + of_nat i) = hid_mem e (a + of_nat ?l + of_nat i)"
      proof (intro allI impI)
        fix i assume "i < n - ?l"
        then have "?l + i < n" by simp
        with "1.prems"(6) have "hid_mem e' (a + of_nat (?l + i)) = hid_mem e (a + of_nat (?l + i))" by blast
        then show "hid_mem e' (a + of_nat ?l + of_nat i) = hid_mem e (a + of_nat ?l + of_nat i)"
          by (simp only: of_nat_add add.assoc)
      qed
    qed (rule q(2) "1.prems"(5))+
    show ?thesis
    proof (cases "hid_item e p")
      case (Inl r)
      then have "hid_item e' p' = Inl r" using st by (simp add: step_sim_def)
      with Inl nz show ?thesis by (simp add: hid_loop.simps [of e p] hid_loop.simps [of e' p'])
    next
      case (Inr q)
      then obtain q' where q': "hid_item e' p' = Inr q'" "sim q q'" using st by (auto simp: step_sim_def)
      from IH [OF Inr q'(2)] Inr q' nz show ?thesis
        by (simp add: hid_loop.simps [of e p] hid_loop.simps [of e' p'])
    qed
  qed
qed

lemma hid_inv_start: "length (usage_init e) = 8 \<Longrightarrow> hid_inv (hid_start e a n)"
  by (simp add: hid_inv_def hid_start_def info_ok_def path_ok_def curr_path_ok_def zero_report_info_def hid_consts
      zero_size_info_def)

lemma sim_start:
  "length (usage_init e) = 8 \<Longrightarrow> length (usage_init e') = 8 \<Longrightarrow> sim (hid_start e a n) (hid_start e' a n)"
  unfolding sim_def
  by (intro conjI hid_inv_start exI [of _ "usage_init e'"] exI [of _ "[zero_state_table, state_init e']"])
     (simp_all add: hid_start_def)

text \<open>Only a PUSH item writes outside an array.\<close>

lemma no_wild_write:
  "hid_pop p \<noteq> Inl Wild_Write" "hid_report_id d p \<noteq> Inl Wild_Write" "hid_usage_item d p \<noteq> Inl Wild_Write"
  "hid_collection e d p \<noteq> Inl Wild_Write" "hid_end_collection p \<noteq> Inl Wild_Write"
  by (simp_all add: hid_pop_def hid_report_id_eq report_id_tail_def hid_usage_item_def hid_collection_eq hid_end_collection_def
      Let_def split: option.split)

lemma no_wild_write_add_items: "hid_add_items e b d n p \<noteq> Inl Wild_Write"
proof (induction n arbitrary: p)
  case (Suc n)
  have "hid_add_item e b d p \<noteq> Inl Wild_Write" by (simp add: hid_add_item_eq)
  then show ?case using Suc.IH by (auto split: sum.split)
qed simp

lemma hid_fetch_item: "fst (hid_fetch e p) = hid_mem e (ReportData p)"
  by (simp add: hid_fetch_def Let_def)

lemma switch_wild_write:
  assumes "hid_inv p"
  shows "hid_switch e b d p = Inl Wild_Write \<longleftrightarrow> b AND 0xFC = 0xA4"
proof -
  have push: "hid_push p = Inl Wild_Write"
    using assms by (simp add: hid_push_def hid_inv_def hid_consts sizeof_HID_ReportItem_t_def sizeof_HID_StateTable_t_def)
  have tag: "b AND (HID_RI_TYPE_MASK OR HID_RI_TAG_MASK) = b AND 0xFC" "HID_RI_PUSH = 0xA4"
    by (simp_all add: hid_ri_defs)
  show ?thesis
    unfolding hid_switch_def Let_def tag using push
    by (simp add: no_wild_write no_wild_write_add_items)
qed

subsection \<open>Properties\<close>


text \<open>A descriptor with two 8-bit input items, in two environments.\<close>

definition example_env :: "u8 \<Rightarrow> u16 \<Rightarrow> hid_env" where
  "example_env x y =
     \<lparr>hid_mem = (\<lambda>a. if a < 8 then [0x05, 0x01, 0x75, 0x08, 0x95, 0x02, 0x81, 0x02] ! unat a else x), hid_filter = (\<lambda>i. True),
      usage_init = replicate 8 y, usage_past = y, state_init = zero_state_table, item_init = zero_item\<rparr>"

lemma example_fits: "hid_fits (hid_mem (example_env 0 0)) 0 8"
  by code_simp

lemma example_parse:
  "map_option (\<lambda>r. case r of Return err info \<Rightarrow> (err, TotalReportItems info) | Wild_Write \<Rightarrow> (HID_PARSE_HIDStackOverflow, 0))
     (USB_ProcessHIDReport (example_env 0 0) 0 8) = Some (HID_PARSE_Successful, 2)"
  by code_simp

lemma parse_example_some:
  "\<exists>info. USB_ProcessHIDReport (example_env 0 0) 0 8 = Some (Return HID_PARSE_Successful info) \<and> TotalReportItems info = 2"
proof -
  obtain r where r: "USB_ProcessHIDReport (example_env 0 0) 0 8 = Some r" using example_parse by auto
  with example_parse show ?thesis by (cases r) simp_all
qed


text \<open>
  C32. Whatever the descriptor holds, data the parser returns is well formed: item, report and
  collection counts are within the arrays, every collection reference is an index of the array and
  every parent has a smaller index than its child, so the collections form a forest; and success
  means at least one item was stored.
\<close>

theorem parse_in_bounds:
  assumes "length (usage_init e) = 8" "USB_ProcessHIDReport e data siz = Some (Return err info)"
  shows "info_ok info \<and> (err = HID_PARSE_Successful \<longrightarrow> TotalReportItems info \<noteq> 0)"
  using hid_loop_ok [OF assms(2) [unfolded USB_ProcessHIDReport_def] hid_inv_start [OF assms(1)]]
  by (simp add: result_ok_def)

theorem parse_in_bounds_witness:
  "\<exists>info. USB_ProcessHIDReport (example_env 0 0) 0 8 = Some (Return HID_PARSE_Successful info) \<and> info_ok info"
proof -
  obtain info where info: "USB_ProcessHIDReport (example_env 0 0) 0 8 = Some (Return HID_PARSE_Successful info)"
    using parse_example_some by blast
  moreover have "length (usage_init (example_env 0 0)) = 8" by (simp add: example_env_def)
  ultimately show ?thesis using parse_in_bounds [of "example_env 0 0" 0 8] by blast
qed



end
