(* ===== verification/Command_Parser.thy ===== *)
theory Command_Parser
  imports Firmware
begin

section \<open>The command language of the serial port\<close>

text \<open>
  What the command parser of \<^verbatim>\<open>c_locc.c\<close> accepts, as a grammar over the whole input instead of a state
  machine over characters: \<open>skipped\<close> is the text up to the end of a line, \<open>commands\<close> a line of commands.
  The state machine refines it, for input that arrives character by character.
\<close>

datatype cmd = Open | Led u8 u8

definition newline :: "u8 \<Rightarrow> bool" where
  "newline c \<longleftrightarrow> c = ch (CHR 0x0A) \<or> c = ch (CHR 0x0D)"

function (sequential) skipped :: "u8 list \<Rightarrow> cmd list" and commands :: "u8 list \<Rightarrow> cmd list" where
  "skipped [] = []"
| "skipped (c # cs) = (if newline c then commands cs else skipped cs)"
| "commands [] = []"
| "commands (c # cs) =
     (if c = ch (CHR ''o'') then Open # skipped cs
      else if c = ch (CHR ''l'') then (case cs of a # b # cs \<Rightarrow> Led a b # skipped cs | _ \<Rightarrow> [])
      else if newline c \<or> c = ch (CHR ''h'') \<or> c = ch (CHR ''i'') then commands cs
      else skipped cs)"
  by pat_completeness auto
termination
  by (relation "measure (case_sum length length)") auto

text \<open>The meaning of an LED command: the LED with the digit \<open>a\<close> is lit unless \<open>b\<close> is the digit 0.\<close>

definition lit :: "u8 \<Rightarrow> nat \<Rightarrow> bool" where
  "lit leds n \<longleftrightarrow> \<not> bit leds n"

fun led_meaning :: "cmd list \<Rightarrow> (nat \<Rightarrow> bool) \<Rightarrow> (nat \<Rightarrow> bool)" where
  "led_meaning [] f = f"
| "led_meaning (Open # cs) f = led_meaning cs f"
| "led_meaning (Led a b # cs) f =
     led_meaning cs (if a - ch (CHR ''0'') < 3 then f(unat (a - ch (CHR ''0'')) := b \<noteq> ch (CHR ''0'')) else f)"

text \<open>The parser over a text: the commands it returns, and the state after it.\<close>

fun parse :: "u8 list \<Rightarrow> 'a fw_scheme \<Rightarrow> int list \<times> 'a fw_scheme" where
  "parse [] s = ([], s)"
| "parse (c # cs) s =
     (let (k, out, s) = handle_user_input c s; (ks, s) = parse cs s in (k # ks, s))"

lemma set_led_lit:
  "lit (led_states (set_led num val s))
    = (if num < 3 then (lit (led_states s))(unat num := val \<noteq> 0) else lit (led_states s))"
proof (cases "num < 3")
  case True
  then have "unat num < 3" by (simp add: word_less_nat_alt)
  then show ?thesis using True by (auto simp: fun_eq_iff set_led_def lit_def bit_simps dest: bit_imp_le_length)
next
  case False
  then show ?thesis by (simp add: set_led_def)
qed

lemma set_led_frame [simp]:
  "p_state (set_led num val s) = p_state s" "cmd_target (set_led num val s) = cmd_target s"
  by (simp_all add: set_led_def)

lemma handle_cases:
  "p_state s = WAIT_FOR_NEWLINE \<Longrightarrow> handle_user_input c s =
     (0, [], if newline c then s\<lparr>p_state := WAIT_FOR_CMD_CHAR\<rparr> else s)"
  "p_state s = WAIT_FOR_CMD_CHAR \<Longrightarrow> c = ch (CHR ''o'') \<Longrightarrow>
     handle_user_input c s = (1, [ch (CHR ''O'')], s\<lparr>p_state := WAIT_FOR_NEWLINE\<rparr>)"
  "p_state s = WAIT_FOR_CMD_CHAR \<Longrightarrow> c = ch (CHR ''l'') \<Longrightarrow>
     handle_user_input c s = (0, [], s\<lparr>p_state := WAIT_FOR_LED_NUMBER\<rparr>)"
  "p_state s = WAIT_FOR_CMD_CHAR \<Longrightarrow> c \<noteq> ch (CHR ''o'') \<Longrightarrow> c \<noteq> ch (CHR ''l'') \<Longrightarrow>
     newline c \<or> c = ch (CHR ''h'') \<or> c = ch (CHR ''i'') \<Longrightarrow>
     \<exists>out. handle_user_input c s = (0, out, s)"
  "p_state s = WAIT_FOR_CMD_CHAR \<Longrightarrow> c \<noteq> ch (CHR ''o'') \<Longrightarrow> c \<noteq> ch (CHR ''l'') \<Longrightarrow>
     \<not> (newline c \<or> c = ch (CHR ''h'') \<or> c = ch (CHR ''i'')) \<Longrightarrow>
     handle_user_input c s = (0, [], s\<lparr>p_state := WAIT_FOR_NEWLINE\<rparr>)"
  by (auto simp: handle_user_input_def newline_def ch_def)

lemma handle_led:
  "p_state s = WAIT_FOR_LED_NUMBER \<Longrightarrow>
     handle_user_input c s = (0, [], s\<lparr>cmd_target := c, p_state := WAIT_FOR_LED_VALUE\<rparr>)"
  "p_state s = WAIT_FOR_LED_VALUE \<Longrightarrow> handle_user_input c s =
     (0, [], (set_led (cmd_target s - ch (CHR ''0'')) (c - ch (CHR ''0'')) s)\<lparr>p_state := WAIT_FOR_NEWLINE\<rparr>)"
  by (simp_all add: handle_user_input_def)

text \<open>
  The commands the parser reports (the positions where it returns 1) and the LEDs after the text, against
  the grammar.
\<close>

definition agrees :: "cmd list \<Rightarrow> int list \<times> 'a fw_scheme \<Rightarrow> 'a fw_scheme \<Rightarrow> bool" where
  "agrees cs r s \<longleftrightarrow> set (fst r) \<subseteq> {0, 1} \<and> length (filter ((=) 1) (fst r)) = length (filter ((=) Open) cs)
     \<and> lit (led_states (snd r)) = led_meaning cs (lit (led_states s))"

lemma agrees_skip:
  "agrees cs (parse xs s') s' \<Longrightarrow> led_states s' = led_states s \<Longrightarrow> handle_user_input x s = (0, out, s') \<Longrightarrow>
   agrees cs (parse (x # xs) s) s"
  by (auto simp: agrees_def split: prod.splits)

lemma agrees_open:
  "agrees cs (parse xs s') s' \<Longrightarrow> led_states s' = led_states s \<Longrightarrow> handle_user_input x s = (1, out, s') \<Longrightarrow>
   agrees (Open # cs) (parse (x # xs) s) s"
  by (auto simp: agrees_def split: prod.splits)

lemma agrees_led:
  assumes "agrees cs (parse xs s') s'" "p_state s = WAIT_FOR_LED_NUMBER"
    and "s' = (set_led (a - ch (CHR ''0'')) (b - ch (CHR ''0'')) (s\<lparr>cmd_target := a, p_state := WAIT_FOR_LED_VALUE\<rparr>))
      \<lparr>p_state := WAIT_FOR_NEWLINE\<rparr>"
  shows "agrees (Led a b # cs) (parse (a # b # xs) s) s"
  using assms by (auto simp: agrees_def handle_led set_led_lit split: prod.splits)

lemma parse_led:
  fixes s :: "'a fw_scheme"
  assumes "p_state s = WAIT_FOR_LED_NUMBER"
    and "\<And>a b ys (s' :: 'a fw_scheme). cs = a # b # ys \<Longrightarrow> p_state s' = WAIT_FOR_NEWLINE \<Longrightarrow>
      agrees (skipped ys) (parse ys s') s'"
  shows "agrees (case cs of a # b # cs \<Rightarrow> Led a b # skipped cs | _ \<Rightarrow> []) (parse cs s) s"
proof -
  consider "cs = []" | a where "cs = [a]" | a b ys where "cs = a # b # ys"
    by (metis list.exhaust)
  then show ?thesis
  proof cases
    case 3
    then show ?thesis using agrees_led [OF assms(2) assms(1) refl, of a b ys] by simp
  qed (simp_all add: agrees_def handle_led(1) [OF assms(1)])
qed

lemma parser_agrees:
  fixes s :: "'a fw_scheme"
  shows "p_state s = WAIT_FOR_NEWLINE \<Longrightarrow> agrees (skipped cs) (parse cs s) s"
    "p_state s = WAIT_FOR_CMD_CHAR \<Longrightarrow> agrees (commands cs) (parse cs s) s"
proof (induction cs and cs arbitrary: s and s rule: skipped_commands.induct)
  case (2 c cs)
  show ?case
    by (rule agrees_skip [OF _ _ handle_cases(1)]) (use 2 in simp_all)
next
  case (4 c cs)
  consider "c = ch (CHR ''o'')" | "c = ch (CHR ''l'')"
    | "c \<noteq> ch (CHR ''o'')" "c \<noteq> ch (CHR ''l'')" "newline c \<or> c = ch (CHR ''h'') \<or> c = ch (CHR ''i'')"
    | "c \<noteq> ch (CHR ''o'')" "c \<noteq> ch (CHR ''l'')" "\<not> (newline c \<or> c = ch (CHR ''h'') \<or> c = ch (CHR ''i''))"
    by blast
  then show ?case
  proof cases
    case 1
    then show ?thesis
      by (simp del: parse.simps) (rule agrees_open [OF _ _ handle_cases(2)], use 4 in simp_all)
  next
    case 2
    then show ?thesis
      by (simp add: ch_def del: parse.simps)
        (rule agrees_skip [OF parse_led _ handle_cases(3)], use 4 in \<open>simp_all add: ch_def\<close>)
  next
    case 3
    obtain out where "handle_user_input c s = (0, out, s)" using handle_cases(4) [OF 4(5) 3] by blast
    with 3 4 show ?thesis by (auto simp del: parse.simps intro!: agrees_skip)
  next
    case c: 4
    then show ?thesis
      by (simp del: parse.simps) (rule agrees_skip [OF _ _ handle_cases(5)], use 4 in simp_all)
  qed
qed (simp_all add: agrees_def)

text \<open>
  C16. The command parser of the serial port accepts exactly the command language. For any text received
  after a reset (or whenever the parser waits for the end of a line), the number of times it asks for the
  lock to be opened is the number of open commands of the text read as a grammar, and the LEDs afterwards
  are those the LED commands of the grammar say, in their order. In particular a command counts only at the
  start of a line, after any newlines and the letters h and i, and only one per line; and an LED other than
  the three is never touched.
\<close>

theorem parser_refines_grammar:
  "p_state s = WAIT_FOR_NEWLINE \<Longrightarrow>
   length (filter ((=) 1) (fst (parse cs s))) = length (filter ((=) Open) (skipped cs))
     \<and> lit (led_states (snd (parse cs s))) = led_meaning (skipped cs) (lit (led_states s))"
  using parser_agrees(1) [of s cs] by (simp add: agrees_def)

definition chars :: "string \<Rightarrow> u8 list" where
  "chars = map ch"

theorem parser_refines_grammar_witness:
  "skipped (chars ''o'' @ [10] @ chars ''hil20o'' @ [13] @ chars ''o'') = [Led (ch (CHR ''2'')) (ch (CHR ''0'')), Open]
   \<and> length (filter ((=) 1) (fst (parse (chars ''o'' @ [10] @ chars ''hil20o'' @ [13] @ chars ''o'') fw_init))) = 1
   \<and> \<not> lit (led_states (snd (parse (chars ''o'' @ [10] @ chars ''hil20o'' @ [13] @ chars ''o'') fw_init))) 2"
proof -
  have *: "skipped (chars ''o'' @ [10] @ chars ''hil20o'' @ [13] @ chars ''o'') = [Led (ch (CHR ''2'')) (ch (CHR ''0'')), Open]"
    by code_simp
  have "p_state fw_init = WAIT_FOR_NEWLINE" by (simp add: fw_init_def fw.defs locc.defs)
  from parser_refines_grammar [OF this, of "chars ''o'' @ [10] @ chars ''hil20o'' @ [13] @ chars ''o''"]
  show ?thesis unfolding * by (simp add: ch_def)
qed

end
