(* ===== verification/Frame_Facts.thy ===== *)
theory Frame_Facts
  imports Firmware Cdc_Facts Control_Facts
begin

section \<open>A frame of the application\<close>

text \<open>
  The reference frame \<open>app_frame\<close>: one turn of the main loop without USB, a total function of the received byte
  (-1 when there is none) and the pins, returning the text to send and the next state. The main loop refines it.
\<close>

definition app_input :: "int \<Rightarrow> fw \<Rightarrow> int \<times> u8 list \<times> fw" where
  "app_input r s = (if r < 0 then (0, [], s) else handle_user_input (word_of_int r) s)"

definition app_lock :: "u16 \<Rightarrow> int \<Rightarrow> fw \<Rightarrow> u8 list \<times> fw" where
  "app_lock past command s =
     (let start = \<not> is_locking s \<and> command = 1;
          s = (if start then start_locking (s\<lparr>is_locking := True\<rparr>) else s);
          (out, locking, s) = (if is_locking s then do_next_locc_step past s else ([], False, s))
      in ((if start then [ch (CHR ''O'')] else []) @ out, s\<lparr>is_locking := locking\<rparr>))"

definition app_scan :: "u8 \<Rightarrow> u8 \<times> u8 \<times> u8 \<Rightarrow> fw \<Rightarrow> u8 list \<times> fw" where
  "app_scan pind pinc s =
     (let (key, k) = keypad_scan pind (fw_keypad s); (digit, d) = dial_scan pinc (fw_dial s)
      in (filter ((\<noteq>) 0) [key, digit], s\<lparr>fw_keypad := k, fw_dial := d\<rparr>))"

definition app_shift :: "fw \<Rightarrow> fw" where
  "app_shift s = s\<lparr>SPDR := led_states s OR (0xF0 AND NOT (matrix_selector (fw_keypad s))), PORTD := PORTD s OR 0x10\<rparr>"

definition app_frame :: "int \<Rightarrow> u16 \<Rightarrow> u8 \<Rightarrow> u8 \<times> u8 \<times> u8 \<Rightarrow> fw \<Rightarrow> u8 list \<times> fw" where
  "app_frame r past pind pinc s =
     (let (command, echo, s) = app_input r s;
          (lock, s) = app_lock past command s;
          (keys, s) = app_scan pind pinc s
      in (echo @ lock @ keys, delay_us 255 (app_shift (delay_us 8 s))))"

subsection \<open>The reference does not look at the USB device\<close>

lemma handle_usb:
  "handle_user_input c (s\<lparr>usb := u\<rparr>) = (let (k, out, t) = handle_user_input c s in (k, out, t\<lparr>usb := u\<rparr>))"
  by (cases "p_state s") (simp_all add: handle_user_input_def set_led_def)

lemmas cyl_eqs = wakeup_locc_eq open_locc_eq powerdown_locc_eq powerup_locc_eq line_high_wave_eq

lemma locc_step_usb: "do_locc_step past n (s\<lparr>usb := u\<rparr>) = (do_locc_step past n s)\<lparr>usb := u\<rparr>"
  unfolding do_locc_step_def cyl_eqs set_wait_time_def Let_def by simp

lemma next_usb:
  "do_next_locc_step past (s\<lparr>usb := u\<rparr>) = (let (out, r, t) = do_next_locc_step past s in (out, r, t\<lparr>usb := u\<rparr>))"
  by (simp add: do_next_locc_step_def timer_is_expired_def locc_step_usb Let_def)

lemma app_input_usb: "app_input r (s\<lparr>usb := u\<rparr>) = (let (k, out, t) = app_input r s in (k, out, t\<lparr>usb := u\<rparr>))"
  by (simp add: app_input_def handle_usb)

lemma start_usb: "start_locking (s\<lparr>usb := u, is_locking := True\<rparr>) = (start_locking (s\<lparr>is_locking := True\<rparr>))\<lparr>usb := u\<rparr>"
  "is_locking (start_locking s) = is_locking s"
  by (simp_all add: start_locking_def)

lemma app_lock_usb: "app_lock past k (s\<lparr>usb := u\<rparr>) = (let (out, t) = app_lock past k s in (out, t\<lparr>usb := u\<rparr>))"
proof -
  define s1 where "s1 = (if \<not> is_locking s \<and> k = 1 then start_locking (s\<lparr>is_locking := True\<rparr>) else s)"
  have 1: "(if \<not> is_locking (s\<lparr>usb := u\<rparr>) \<and> k = 1 then start_locking (s\<lparr>usb := u, is_locking := True\<rparr>) else s\<lparr>usb := u\<rparr>)
      = s1\<lparr>usb := u\<rparr>"
    by (simp add: s1_def start_usb)
  obtain out r t where t: "(if is_locking s1 then do_next_locc_step past s1 else ([], False, s1)) = (out, r, t)"
    by (cases "if is_locking s1 then do_next_locc_step past s1 else ([], False, s1)") auto
  then have 2: "(if is_locking (s1\<lparr>usb := u\<rparr>) then do_next_locc_step past (s1\<lparr>usb := u\<rparr>) else ([], False, s1\<lparr>usb := u\<rparr>))
      = (out, r, t\<lparr>usb := u\<rparr>)"
    by (auto simp: next_usb split: if_splits)
  show ?thesis unfolding app_lock_def Let_def 1 s1_def [symmetric] 2 t by simp
qed

lemma app_scan_usb: "app_scan pind pinc (s\<lparr>usb := u\<rparr>) = (let (out, t) = app_scan pind pinc s in (out, t\<lparr>usb := u\<rparr>))"
  by (simp add: app_scan_def Let_def split: prod.split)

lemma app_shift_usb: "app_shift (s\<lparr>usb := u\<rparr>) = (app_shift s)\<lparr>usb := u\<rparr>"
  by (simp add: app_shift_def)

lemma delay_usb: "delay_us n (s\<lparr>usb := u\<rparr>) = (delay_us n s)\<lparr>usb := u\<rparr>"
  by (simp add: delay_us_def io_level_def)

subsection \<open>Each part of the frame refines its reference\<close>

text \<open>Sending a text, on the device alone.\<close>

fun send_text :: "env \<Rightarrow> u8 list \<Rightarrow> usb_dev \<Rightarrow> usb_dev option" where
  "send_text e [] u = Some u"
| "send_text e (c # cs) u = do { (code, u) \<leftarrow> CDC_Device_SendByte e c u; send_text e cs u }"

lemma send_text_append: "send_text e (cs @ ds) u = Option.bind (send_text e cs u) (send_text e ds)"
proof (induction cs arbitrary: u)
  case (Cons c cs)
  then show ?case by (cases "CDC_Device_SendByte e c u") auto
qed simp

lemma send_text_two: "send_text e [c, d] u = Option.bind (send_text e [c] u) (send_text e [d])"
  using send_text_append [of e "[c]" "[d]" u] by simp

lemma usb_putc_text: "usb_putc e c s = map_option (\<lambda>u. s\<lparr>usb := u\<rparr>) (send_text e [c] (usb s))"
  by (cases "CDC_Device_SendByte e c (usb s)") (auto simp: usb_putc_def)

lemma usb_puts_text: "usb_puts e cs s = map_option (\<lambda>u. s\<lparr>usb := u\<rparr>) (send_text e cs (usb s))"
proof (induction cs arbitrary: s)
  case (Cons c cs)
  then show ?case
    by (cases "CDC_Device_SendByte e c (usb s)") (auto simp: usb_putc_def option.map_comp comp_def)
qed simp

lemma frame_input_eq:
  assumes r: "CDC_Device_ReceiveByte e (usb s) = (r, u)" and a: "app_input r s = (k, out, t)"
  shows "frame_input e s = map_option (\<lambda>u. (k, t\<lparr>usb := u\<rparr>)) (send_text e out (select_in u))"
  using a
  by (auto simp: frame_input_def r app_input_def handle_usb usb_puts_text option.map_comp comp_def map_conv_bind_option
      split: if_splits)

lemma usb_last:
  "s\<lparr>usb := u, is_locking := b\<rparr> = s\<lparr>is_locking := b, usb := u\<rparr>" "s\<lparr>usb := u, fw_dial := d\<rparr> = s\<lparr>fw_dial := d, usb := u\<rparr>"
  for s :: fw
  by simp_all

lemma locking_part_eq:
  "do { let (out, r, s) = do_next_locc_step past (s\<lparr>usb := u\<rparr>) in do { s \<leftarrow> usb_puts e out s; Some (s\<lparr>is_locking := r\<rparr>) } }
   = (let (out, r, t) = do_next_locc_step past s in map_option (\<lambda>u. t\<lparr>is_locking := r, usb := u\<rparr>) (send_text e out u))"
  by (cases "do_next_locc_step past s")
    (simp add: next_usb usb_puts_text map_conv_bind_option bind_assoc comp_def usb_last)

lemma frame_lock_eq:
  assumes a: "app_lock past k s = (out, t)"
  shows "frame_lock e past k s = map_option (\<lambda>u. t\<lparr>usb := u\<rparr>) (send_text e out (usb s))"
proof (cases "\<not> is_locking s \<and> k = 1")
  case True
  let ?s = "start_locking (s\<lparr>is_locking := True\<rparr>)"
  obtain out1 r t1 where n: "do_next_locc_step past ?s = (out1, r, t1)" by (metis prod_cases3)
  have l: "is_locking ?s" by (simp add: start_locking_def)
  have out: "out = ch (CHR ''O'') # out1" "t = t1\<lparr>is_locking := r\<rparr>"
    using a True n l by (auto simp: app_lock_def)
  have "frame_lock e past k s = do { u \<leftarrow> send_text e [ch (CHR ''O'')] (usb s);
      map_option (\<lambda>u. t1\<lparr>is_locking := r, usb := u\<rparr>) (send_text e out1 u) }"
    using True l by (simp add: frame_lock_def usb_putc_text start_usb locking_part_eq n map_conv_bind_option del: send_text.simps)
  also have "\<dots> = map_option (\<lambda>u. t\<lparr>usb := u\<rparr>) (send_text e ([ch (CHR ''O'')] @ out1) (usb s))"
    by (cases "send_text e [ch (CHR ''O'')] (usb s)") (simp_all add: send_text_append out del: send_text.simps append.simps)
  finally show ?thesis by (simp add: out)
next
  case False
  show ?thesis
  proof (cases "is_locking s")
    case True
    obtain out1 r t1 where n: "do_next_locc_step past s = (out1, r, t1)" by (metis prod_cases3)
    then have "out = out1" "t = t1\<lparr>is_locking := r\<rparr>" using a True by (auto simp: app_lock_def)
    then show ?thesis using True locking_part_eq [where past = past and s = s and u = "usb s" and e = e] n by (simp add: frame_lock_def)
  next
    case no: False
    with False a have "out = []" "t = s\<lparr>is_locking := False\<rparr>" by (auto simp: app_lock_def)
    then show ?thesis using no False by (simp add: frame_lock_def)
  qed
qed

lemma frame_scan_eq:
  assumes a: "app_scan pind pinc s = (out, t)"
  shows "frame_scan e pind pinc s = map_option (\<lambda>u. t\<lparr>usb := u\<rparr>) (send_text e out (usb s))"
proof -
  obtain key kp where k: "keypad_scan pind (fw_keypad s) = (key, kp)" by fastforce
  obtain digit d where d: "dial_scan pinc (fw_dial s) = (digit, d)" by fastforce
  have "out = (if key \<noteq> 0 then [key] else []) @ (if digit \<noteq> 0 then [digit] else [])" "t = s\<lparr>fw_keypad := kp, fw_dial := d\<rparr>"
    using a by (auto simp: app_scan_def k d)
  then show ?thesis
    by (cases "key = 0"; cases "digit = 0")
      (simp_all add: frame_scan_def k d usb_putc_text send_text_append map_conv_bind_option bind_assoc comp_def usb_last
        send_text_two del: send_text.simps(2))
qed

lemma latch: "(p AND - 17) OR 0x10 = p OR (0x10 :: u8)"
proof -
  have "(- 17 :: u8) = NOT 0x10" by simp
  then show ?thesis by (intro bit_word_eqI) (auto simp: bit_simps simp del: not_numeral_eq)
qed

lemma usb_last_port: "s\<lparr>usb := u, PORTD := p\<rparr> = s\<lparr>PORTD := p, usb := u\<rparr>" for s :: fw
  by simp

lemma shiftreg_eq:
  "shiftreg_out e (s\<lparr>usb := u\<rparr>) = map_option (\<lambda>u. (app_shift s)\<lparr>usb := u\<rparr>) (wait_bit e SPSR SPIF u)"
  by (simp add: shiftreg_out_def app_shift_def Let_def map_conv_bind_option comp_def latch usb_last_port)

lemma frame_eq:
  assumes r: "CDC_Device_ReceiveByte e (usb s) = (r, u)" and a: "app_frame r past pind pinc s = (text, t)"
  shows "loop e im past pind pinc s = do {
    u \<leftarrow> send_text e text (select_in u);
    u \<leftarrow> wait_bit e SPSR SPIF u;
    u \<leftarrow> CDC_Device_USBTask e u;
    u \<leftarrow> USB_USBTask e im u;
    Some (t\<lparr>usb := u\<rparr>)
  }"
proof -
  obtain k echo t1 where i: "app_input r s = (k, echo, t1)" by (metis prod_cases3)
  obtain lock t2 where l: "app_lock past k t1 = (lock, t2)" by fastforce
  obtain keys t3 where c: "app_scan pind pinc t2 = (keys, t3)" by fastforce
  have t: "text = echo @ lock @ keys" "t = delay_us 255 (app_shift (delay_us 8 t3))"
    using a by (auto simp: app_frame_def i l c)
  have l': "frame_lock e past k (t1\<lparr>usb := x\<rparr>) = map_option (\<lambda>u. t2\<lparr>usb := u\<rparr>) (send_text e lock x)" for x
    using frame_lock_eq [of past k "t1\<lparr>usb := x\<rparr>" lock "t2\<lparr>usb := x\<rparr>" e] l by (simp add: app_lock_usb)
  have c': "frame_scan e pind pinc (t2\<lparr>usb := x\<rparr>) = map_option (\<lambda>u. t3\<lparr>usb := u\<rparr>) (send_text e keys x)" for x
    using frame_scan_eq [of pind pinc "t2\<lparr>usb := x\<rparr>" keys "t3\<lparr>usb := x\<rparr>" e] c by (simp add: app_scan_usb)
  show ?thesis
    unfolding loop_def frame_input_eq [OF r i] t send_text_append
    by (simp add: l' c' delay_usb shiftreg_eq frame_usb_def map_conv_bind_option bind_assoc comp_def)
qed

text \<open>
  C7. A frame is its reference plus USB traffic. For any hardware, one turn of the main loop receives at
  most one byte, sends the text of the reference frame byte by byte, waits for the shift register, runs the
  two USB tasks, and leaves the application in the state of the reference frame: what the host and the USB
  hardware do reaches the lock, the keypad, the dial, the LEDs and the pins through the received byte only.
\<close>

theorem frame_refines:
  "loop e im past pind pinc s =
     (let (r, u) = CDC_Device_ReceiveByte e (usb s);
          (text, t) = app_frame r past pind pinc s
      in do {
        u \<leftarrow> send_text e text (select_in u);
        u \<leftarrow> wait_bit e SPSR SPIF u;
        u \<leftarrow> CDC_Device_USBTask e u;
        u \<leftarrow> USB_USBTask e im u;
        Some (t\<lparr>usb := u\<rparr>)
      })"
  by (cases "CDC_Device_ReceiveByte e (usb s)"; cases "app_frame (fst (CDC_Device_ReceiveByte e (usb s))) past pind pinc s")
    (simp add: frame_eq)

subsection \<open>What the host sees\<close>

text \<open>
  A configured device on a bus that runs: the frame number advances, the bank of the selected endpoint has
  room, no control request is pending and a transfer of the SPI completes.
\<close>

definition serving :: "env \<Rightarrow> bool" where
  "serving e \<longleftrightarrow> frames_advance e
     \<and> (\<forall>h. e h GPIOR0 = DEVICE_STATE_Configured \<and> bit (e h UEINTX) RWAL \<and> \<not> bit (e h UEINTX) RXSTPI)
     \<and> (\<forall>h. \<exists>k. \<forall>h'. quiet h' \<and> k \<le> length h' \<longrightarrow> bit (e (h' @ h) SPSR) SPIF)"

lemma serving_frames: "serving e \<Longrightarrow> frames_advance e"
  by (simp add: serving_def)

lemma serving_spif: "serving e \<Longrightarrow> \<exists>k. \<forall>h'. quiet h' \<and> k \<le> length h' \<longrightarrow> bit (e (h' @ h) SPSR) SPIF"
  by (simp add: serving_def)

lemma wait_bit_returns:
  assumes "\<exists>k. \<forall>h'. quiet h' \<and> k \<le> length h' \<longrightarrow> bit (e (h' @ hist s) r) n"
  shows "\<exists>s'. wait_bit e r n s = Some s'"
proof -
  from assms obtain k where k: "\<And>h'. quiet h' \<Longrightarrow> k \<le> length h' \<Longrightarrow> bit (e (h' @ hist s) r) n" by blast
  have "\<exists>s'. wait_bit e r n (s\<lparr>hist := q @ hist s\<rparr>) = Some s'" if "quiet q" for q
    using that
  proof (induction "k - length q" arbitrary: q rule: less_induct)
    case less
    let ?v = "e (q @ hist s) r"
    show ?case
    proof (cases "bit ?v n")
      case True
      then show ?thesis by (subst wait_bit.simps) (simp add: io_defs)
    next
      case False
      then have "length q < k" using k [OF less.prems] by (meson not_le)
      then have "k - length (Rd r ?v # q) < k - length q" by simp
      from less.hyps [OF this] less.prems False show ?thesis
        by (subst wait_bit.simps) (simp add: io_defs)
    qed
  qed
  from this [of "[]"] show ?thesis by simp
qed

lemma send_text_open:
  assumes e: "serving e"
  shows "BaudRateBPS (cdc_line u) \<noteq> 0 \<Longrightarrow>
    \<exists>h. send_text e cs u = Some (u\<lparr>hist := h @ hist u\<rparr>) \<and> writes UEDATX h = cs \<and> reads UEDATX h = []"
proof (induction cs arbitrary: u)
  case Nil
  show ?case by (intro exI [of _ "[]"]) simp
next
  case (Cons c cs)
  have "usable e u" "frames_advance e" "\<forall>h'. bit (e h' UEINTX) RWAL"
    using e Cons.prems by (auto simp: usable_def serving_def)
  with send_byte_cases [of e c u] obtain h where h: "CDC_Device_SendByte e c u = Some (0, u\<lparr>hist := h @ hist u\<rparr>)"
    "writes UEDATX h = [c]" "reads UEDATX h = []" by auto
  have "BaudRateBPS (cdc_line (u\<lparr>hist := h @ hist u\<rparr>)) \<noteq> 0" using Cons.prems by (simp add: cdc_line_def)
  from Cons.IH [OF this] obtain g where "send_text e cs (u\<lparr>hist := h @ hist u\<rparr>) = Some (u\<lparr>hist := g @ h @ hist u\<rparr>)"
    "writes UEDATX g = cs" "reads UEDATX g = []" by auto
  with h show ?case by (intro exI [of _ "g @ h"]) simp
qed

lemma usb_task_quiet:
  assumes e: "serving e"
  shows "\<exists>u'. USB_USBTask e im u = Some u' \<and> io_only no_fifo u u'"
proof -
  obtain st s1 where s1: "rd e GPIOR0 u = (st, s1)" by fastforce
  obtain p s2 where s2: "Endpoint_GetCurrentEndpoint e s1 = (p, s2)" by fastforce
  obtain b s3 where s3: "Endpoint_IsSETUPReceived e (Endpoint_SelectEndpoint ENDPOINT_CONTROLEP s2) = (b, s3)" by fastforce
  have "\<not> b" "st \<noteq> DEVICE_STATE_Unattached" using e s1 s3
    by (auto simp: serving_def Endpoint_IsSETUPReceived_def test_bit_io_def rd_def Let_def usb_consts)
  moreover have "io_only no_fifo u s1" using io_only_rd [OF _ _ s1, of no_fifo u] by simp
  moreover have "io_only no_fifo s1 s2"
    using s2 by (auto simp: Endpoint_GetCurrentEndpoint_def Endpoint_GetEndpointDirection_def test_bit_io_def rd_def Let_def
        io_only_update)
  moreover have "io_only no_fifo s2 s3"
    using s3 by (auto simp: Endpoint_IsSETUPReceived_def test_bit_io_def rd_def Let_def Endpoint_SelectEndpoint_def wr_def
        io_only_update)
  moreover have "io_only no_fifo s3 (Endpoint_SelectEndpoint p s3)"
    by (auto simp: Endpoint_SelectEndpoint_def wr_def)
  ultimately have "io_only no_fifo u (Endpoint_SelectEndpoint p s3)" "\<not> b" "st \<noteq> DEVICE_STATE_Unattached"
    by (blast intro: io_only_trans)+
  then show ?thesis by (simp add: USB_USBTask_def USB_DeviceTask_def s1 s2 s3)
qed

text \<open>One frame on a serving device: it returns, and sends and takes exactly the bytes of the reference.\<close>

definition received :: "int \<Rightarrow> u8 list" where
  "received r = (if r < 0 then [] else [word_of_int r])"

lemma frame_serving:
  assumes e: "serving e" and baud: "BaudRateBPS (cdc_line (usb s)) \<noteq> 0"
  shows "\<exists>r s'. loop e im past pind pinc s = Some s' \<and> s' = (snd (app_frame r past pind pinc s))\<lparr>usb := usb s'\<rparr>
    \<and> writes UEDATX (hist (usb s')) = writes UEDATX (hist (usb s)) @ fst (app_frame r past pind pinc s)
    \<and> reads UEDATX (hist (usb s')) = reads UEDATX (hist (usb s)) @ received r
    \<and> cdc_line (usb s') = cdc_line (usb s)"
proof -
  obtain r u where r: "CDC_Device_ReceiveByte e (usb s) = (r, u)" by fastforce
  obtain sent t where a: "app_frame r past pind pinc s = (sent, t)" by fastforce
  obtain h where h: "u = (usb s)\<lparr>hist := h @ hist (usb s)\<rparr>" "writes UEDATX h = []" "reads UEDATX h = received r"
    using receive_byte_cases [OF r] by (auto simp: received_def split: if_splits)
  let ?u = "select_in u"
  have cu: "cdc_line ?u = cdc_line (usb s)" by (simp add: select_in_eq h cdc_line_def)
  then obtain g where g: "send_text e sent ?u = Some (?u\<lparr>hist := g @ hist ?u\<rparr>)" "writes UEDATX g = sent" "reads UEDATX g = []"
    using send_text_open [OF e, of ?u sent] baud by auto
  let ?u1 = "?u\<lparr>hist := g @ hist ?u\<rparr>"
  obtain u2 where u2: "wait_bit e SPSR SPIF ?u1 = Some u2"
    using wait_bit_returns [of e ?u1 SPSR SPIF, OF serving_spif [OF e, of "hist ?u1"]] by blast
  have i2: "io_only no_fifo ?u1 u2"
    by (rule io_only_mono [OF conjunct1 [OF wait_bit_io [OF u2]] Reads_no_fifo]) simp
  obtain u3 where u3: "CDC_Device_USBTask e u2 = Some u3" using cdc_task_returns [OF serving_frames [OF e]] by blast
  obtain u4 where u4: "USB_USBTask e im u3 = Some u4" "io_only no_fifo u3 u4" using usb_task_quiet [OF e] by blast
  have i: "io_only no_fifo ?u1 u4" using i2 cdc_task_quiet [OF u3] u4(2) by (blast intro: io_only_trans)
  have w: "writes UEDATX (hist u4) = writes UEDATX (hist ?u1)" "reads UEDATX (hist u4) = reads UEDATX (hist ?u1)"
    "cdc_line u4 = cdc_line ?u1"
    using adds_writes [OF io_only_adds [OF i]] adds_reads [OF io_only_adds [OF i]] io_only_fields [OF i]
    by (simp_all add: cdc_line_def)
  have "loop e im past pind pinc s = Some (t\<lparr>usb := u4\<rparr>)"
    unfolding frame_eq [OF r a] by (simp only: g(1) u2 u3 u4(1) Option.bind.simps)
  moreover have "writes UEDATX (hist u4) = writes UEDATX (hist (usb s)) @ sent"
    "reads UEDATX (hist u4) = reads UEDATX (hist (usb s)) @ received r" "cdc_line u4 = cdc_line (usb s)"
    using w g h cu by (simp_all add: select_in_eq cdc_line_def)
  ultimately show ?thesis
    by (intro exI [of _ r] exI [of _ "t\<lparr>usb := u4\<rparr>"]) (simp add: a)
qed

subsection \<open>Many frames\<close>

text \<open>The reference over a number of frames: the received bytes and the pins of each, the whole text sent.\<close>

fun app_frames :: "u16 \<Rightarrow> (int \<times> u8 \<times> u8 \<times> u8 \<times> u8) list \<Rightarrow> fw \<Rightarrow> u8 list \<times> fw" where
  "app_frames past [] s = ([], s)"
| "app_frames past ((r, pind, pinc) # ins) s =
     (let (sent, s) = app_frame r past pind pinc s; (rest, s) = app_frames past ins s in (sent @ rest, s))"

lemma app_frame_usb:
  "app_frame r past pind pinc (s\<lparr>usb := u\<rparr>) = (let (sent, t) = app_frame r past pind pinc s in (sent, t\<lparr>usb := u\<rparr>))"
  by (simp add: app_frame_def app_input_usb app_lock_usb app_scan_usb app_shift_usb delay_usb Let_def split: prod.split)

lemma app_frames_usb:
  "app_frames past ins (s\<lparr>usb := u\<rparr>) = (let (sent, t) = app_frames past ins s in (sent, t\<lparr>usb := u\<rparr>))"
proof (induction past ins s rule: app_frames.induct)
  case (2 past r pind pinc ins s)
  then show ?case by (simp add: app_frame_usb Let_def split: prod.split)
qed simp

lemma frames_serving:
  assumes e: "serving e"
  shows "BaudRateBPS (cdc_line (usb s)) \<noteq> 0 \<Longrightarrow>
    \<exists>rs s'. frames_fw e im past ins s = Some s' \<and> length rs = length ins
      \<and> s' = (snd (app_frames past (zip rs ins) s))\<lparr>usb := usb s'\<rparr>
      \<and> writes UEDATX (hist (usb s')) = writes UEDATX (hist (usb s)) @ fst (app_frames past (zip rs ins) s)
      \<and> reads UEDATX (hist (usb s')) = reads UEDATX (hist (usb s)) @ concat (map received rs)"
proof (induction ins arbitrary: s)
  case Nil
  show ?case by simp
next
  case (Cons i ins)
  obtain pind pinc where i: "i = (pind, pinc)" by (cases i) blast
  obtain r s1 where f: "loop e im past pind pinc s = Some s1" "s1 = (snd (app_frame r past pind pinc s))\<lparr>usb := usb s1\<rparr>"
    "writes UEDATX (hist (usb s1)) = writes UEDATX (hist (usb s)) @ fst (app_frame r past pind pinc s)"
    "reads UEDATX (hist (usb s1)) = reads UEDATX (hist (usb s)) @ received r"
    "cdc_line (usb s1) = cdc_line (usb s)"
    using frame_serving [OF e Cons.prems] by metis
  obtain sent t where a: "app_frame r past pind pinc s = (sent, t)" by fastforce
  have "BaudRateBPS (cdc_line (usb s1)) \<noteq> 0" using f(5) Cons.prems by simp
  then obtain rs s2 where g: "frames_fw e im past ins s1 = Some s2" "length rs = length ins"
    "s2 = (snd (app_frames past (zip rs ins) s1))\<lparr>usb := usb s2\<rparr>"
    "writes UEDATX (hist (usb s2)) = writes UEDATX (hist (usb s1)) @ fst (app_frames past (zip rs ins) s1)"
    "reads UEDATX (hist (usb s2)) = reads UEDATX (hist (usb s1)) @ concat (map received rs)"
    using Cons.IH [of s1] by blast
  obtain rest t2 where b: "app_frames past (zip rs ins) t = (rest, t2)" by fastforce
  have "app_frames past (zip rs ins) s1 = (rest, t2\<lparr>usb := usb s1\<rparr>)"
    using f(2) app_frames_usb [where past = past and ins = "zip rs ins" and s = t and u = "usb s1"] by (simp add: a b)
  then show ?case using f g
    by (intro exI [of _ "r # rs"] exI [of _ s2]) (simp add: i a b)
qed


text \<open>A bus with room in every bank and a shift register that is always done.\<close>

definition ready_bus :: env where
  "ready_bus h r = (if r = SPSR then 0x80 else open_bus h r)"

lemma ready_bus_serving: "serving ready_bus"
  unfolding serving_def
proof (intro conjI allI)
  show "frames_advance ready_bus" by (rule frames_advance_cong) (simp_all add: ready_bus_def open_bus_def)
  fix h
  show "ready_bus h GPIOR0 = DEVICE_STATE_Configured" "bit (ready_bus h UEINTX) RWAL" "\<not> bit (ready_bus h UEINTX) RXSTPI"
    by (simp_all add: ready_bus_def open_bus_def idle_bus_def)
  have "bit (0x80 :: u8) 7" by simp
  then show "\<exists>k. \<forall>h'. quiet h' \<and> k \<le> length h' \<longrightarrow> bit (ready_bus (h' @ h) SPSR) SPIF"
    by (simp add: ready_bus_def)
qed

lemma baud_serial: "BaudRateBPS (cdc_line (usb (fw_init\<lparr>usb := serial_dev\<rparr>))) \<noteq> 0"
  using serial_dev_facts(1) by (simp add: usable_def)


end
