(* ===== verification/System.thy ===== *)
theory System
  imports Frame_Facts
begin

section \<open>The running system\<close>

text \<open>
  The main loop and the interrupts as a step relation. A frame is five steps, one for each part of \<^verbatim>\<open>loop\<close>, and
  the timer interrupt and the two USB interrupts may run between any two of them. Each step may meet another
  hardware behaviour and other pin values. The delay of 8 microseconds before the shift register belongs to
  the step after it, the delay at the end of the frame to the step before it.
\<close>

datatype phase = Input | Lock int | Scan | Shift | Usb

inductive fw_step :: "image \<Rightarrow> u16 \<Rightarrow> phase \<times> fw \<Rightarrow> phase \<times> fw \<Rightarrow> bool" for im past where
  input: "frame_input e s = Some (c, s') \<Longrightarrow> fw_step im past (Input, s) (Lock c, s')"
| lock: "frame_lock e past c s = Some s' \<Longrightarrow> fw_step im past (Lock c, s) (Scan, s')"
| scan: "frame_scan e pind pinc s = Some s' \<Longrightarrow> fw_step im past (Scan, s) (Shift, s')"
| shift: "shiftreg_out e (delay_us 8 s) = Some s' \<Longrightarrow> fw_step im past (Shift, s) (Usb, s')"
| task: "frame_usb e im s = Some s' \<Longrightarrow> fw_step im past (Usb, s) (Input, delay_us 255 s')"
| tick: "fw_step im past (p, s) (p, TIMER0_OVF_vect s)"
| gen: "USB_GEN_vect e (usb s) = Some u \<Longrightarrow> fw_step im past (p, s) (p, s\<lparr>usb := u\<rparr>)"
| com: "USB_COM_vect e im (usb s) = Some u \<Longrightarrow> fw_step im past (p, s) (p, s\<lparr>usb := u\<rparr>)"

text \<open>A call of \<^verbatim>\<open>loop\<close> is a sequence of steps.\<close>

lemma loop_steps:
  assumes "loop e im past pind pinc s = Some s'"
  shows "(fw_step im past)\<^sup>*\<^sup>* (Input, s) (Input, s')"
proof -
  obtain c s1 where s1: "frame_input e s = Some (c, s1)"
    using assms by (cases "frame_input e s") (auto simp: loop_def)
  obtain s2 where s2: "frame_lock e past c s1 = Some s2"
    using assms by (cases "frame_lock e past c s1") (simp_all add: loop_def s1)
  obtain s3 where s3: "frame_scan e pind pinc s2 = Some s3"
    using assms by (cases "frame_scan e pind pinc s2") (simp_all add: loop_def s1 s2)
  obtain s4 where s4: "shiftreg_out e (delay_us 8 s3) = Some s4"
    using assms by (cases "shiftreg_out e (delay_us 8 s3)") (simp_all add: loop_def s1 s2 s3)
  obtain s5 where s5: "frame_usb e im s4 = Some s5"
    using assms by (cases "frame_usb e im s4") (simp_all add: loop_def s1 s2 s3 s4)
  have s': "s' = delay_us 255 s5" using assms by (simp add: loop_def s1 s2 s3 s4 s5)
  note st = input [OF s1, of im past] lock [OF s2, of im] scan [OF s3, of im past] shift [OF s4, of im past]
    task [OF s5, of past]
  show ?thesis unfolding s'
    by (rule rtranclp.rtrancl_into_rtrancl, rule rtranclp.rtrancl_into_rtrancl, rule rtranclp.rtrancl_into_rtrancl,
        rule rtranclp.rtrancl_into_rtrancl, rule r_into_rtranclp) (rule st)+
qed

subsection \<open>The invariant\<close>

definition locking_ok :: "fw \<Rightarrow> bool" where
  "locking_ok s \<longleftrightarrow> current_locc_step s \<le> 4 \<and> (is_locking s \<longleftrightarrow> current_locc_step s \<noteq> 0) \<and> wait_ticks s \<le> 15000
     \<and> (if current_locc_step s = 4 then unpowered s else powered s)"

definition pins_ok :: "fw \<Rightarrow> bool" where
  "pins_ok s \<longleftrightarrow> bit (DDRD s) 6 \<and> bit (DDRD s) 4 \<and> bit (PORTD s) 4"

definition leds_ok :: "fw \<Rightarrow> bool" where
  "leds_ok s \<longleftrightarrow> (\<forall>n. 3 \<le> n \<longrightarrow> \<not> bit (led_states s) n)"

text \<open>The shift register holds no row yet, or drives exactly the row the next scan is for.\<close>

definition row_driven :: "fw \<Rightarrow> bool" where
  "row_driven s \<longleftrightarrow> SPDR s = 0 \<or> (\<forall>n<4. bit (SPDR s) (4 + n) \<longleftrightarrow> n \<noteq> unat (kp_row (fw_keypad s)))"

definition fw_inv :: "phase \<times> fw \<Rightarrow> bool" where
  "fw_inv c = (case c of (p, s) \<Rightarrow> locking_ok s \<and> pins_ok s \<and> leds_ok s \<and> keypad_inv (fw_keypad s) \<and> (p \<noteq> Shift \<longrightarrow> row_driven s))"

lemma locking_ok_frame [simp]:
  "locking_ok (s\<lparr>usb := u\<rparr>) = locking_ok s" "locking_ok (s\<lparr>fw_keypad := k\<rparr>) = locking_ok s"
  "locking_ok (s\<lparr>fw_dial := d\<rparr>) = locking_ok s" "locking_ok (s\<lparr>p_state := p\<rparr>) = locking_ok s"
  "locking_ok (s\<lparr>cmd_target := g\<rparr>) = locking_ok s" "locking_ok (s\<lparr>led_states := l\<rparr>) = locking_ok s"
  "locking_ok (s\<lparr>wave := w\<rparr>) = locking_ok s" "locking_ok (s\<lparr>SPDR := x\<rparr>) = locking_ok s"
  "locking_ok (s\<lparr>TCNT0 := c\<rparr>) = locking_ok s"
  by (simp_all add: locking_ok_def powered_def unpowered_def io_level_def)

lemma pins_ok_frame [simp]:
  "pins_ok (s\<lparr>usb := u\<rparr>) = pins_ok s" "pins_ok (s\<lparr>fw_keypad := k\<rparr>) = pins_ok s"
  "pins_ok (s\<lparr>fw_dial := d\<rparr>) = pins_ok s" "pins_ok (s\<lparr>p_state := p\<rparr>) = pins_ok s"
  "pins_ok (s\<lparr>cmd_target := g\<rparr>) = pins_ok s" "pins_ok (s\<lparr>led_states := l\<rparr>) = pins_ok s"
  "pins_ok (s\<lparr>wave := w\<rparr>) = pins_ok s" "pins_ok (s\<lparr>SPDR := x\<rparr>) = pins_ok s"
  "pins_ok (s\<lparr>wait_ticks := v\<rparr>) = pins_ok s" "pins_ok (s\<lparr>TCNT0 := c\<rparr>) = pins_ok s"
  "pins_ok (s\<lparr>is_locking := b\<rparr>) = pins_ok s" "pins_ok (s\<lparr>current_locc_step := n\<rparr>) = pins_ok s"
  by (simp_all add: pins_ok_def)

lemma leds_ok_frame [simp]:
  "leds_ok (s\<lparr>usb := u\<rparr>) = leds_ok s" "leds_ok (s\<lparr>fw_keypad := k\<rparr>) = leds_ok s"
  "leds_ok (s\<lparr>fw_dial := d\<rparr>) = leds_ok s" "leds_ok (s\<lparr>p_state := p\<rparr>) = leds_ok s"
  "leds_ok (s\<lparr>cmd_target := g\<rparr>) = leds_ok s" "leds_ok (s\<lparr>wave := w\<rparr>) = leds_ok s"
  "leds_ok (s\<lparr>SPDR := x\<rparr>) = leds_ok s" "leds_ok (s\<lparr>wait_ticks := v\<rparr>) = leds_ok s"
  "leds_ok (s\<lparr>TCNT0 := c\<rparr>) = leds_ok s" "leds_ok (s\<lparr>is_locking := b\<rparr>) = leds_ok s"
  "leds_ok (s\<lparr>current_locc_step := n\<rparr>) = leds_ok s" "leds_ok (s\<lparr>PORTD := x\<rparr>) = leds_ok s"
  "leds_ok (s\<lparr>DDRD := x\<rparr>) = leds_ok s"
  by (simp_all add: leds_ok_def)

lemma row_driven_frame [simp]:
  "row_driven (s\<lparr>usb := u\<rparr>) = row_driven s" "row_driven (s\<lparr>fw_dial := d\<rparr>) = row_driven s"
  "row_driven (s\<lparr>p_state := p\<rparr>) = row_driven s" "row_driven (s\<lparr>cmd_target := g\<rparr>) = row_driven s"
  "row_driven (s\<lparr>led_states := l\<rparr>) = row_driven s" "row_driven (s\<lparr>wave := w\<rparr>) = row_driven s"
  "row_driven (s\<lparr>wait_ticks := v\<rparr>) = row_driven s" "row_driven (s\<lparr>TCNT0 := c\<rparr>) = row_driven s"
  "row_driven (s\<lparr>is_locking := b\<rparr>) = row_driven s" "row_driven (s\<lparr>current_locc_step := n\<rparr>) = row_driven s"
  "row_driven (s\<lparr>PORTD := x\<rparr>) = row_driven s" "row_driven (s\<lparr>DDRD := x\<rparr>) = row_driven s"
  by (simp_all add: row_driven_def)

lemma inv_usb [simp]: "fw_inv (p, s\<lparr>usb := u\<rparr>) = fw_inv (p, s)"
  by (simp add: fw_inv_def)

lemma inv_delay [simp]: "fw_inv (p, delay_us n s) = fw_inv (p, s)"
  by (simp add: fw_inv_def delay_us_def)

subsection \<open>Every step keeps the invariant\<close>

lemma set_led_high: "3 \<le> n \<Longrightarrow> \<not> bit (led_states s) n \<Longrightarrow> \<not> bit (led_states (set_led num val s)) n"
proof (cases "num < 3")
  case True
  assume n: "3 \<le> n" "\<not> bit (led_states s) n"
  have "unat num < 3" using True by (simp add: word_less_nat_alt)
  then show ?thesis using n by (auto simp: set_led_def bit_simps)
qed (simp add: set_led_def)

lemma handle_other:
  fixes s :: fw
  assumes "handle_user_input c s = (k, out, t)"
  shows "t = s\<lparr>led_states := led_states t, p_state := p_state t, cmd_target := cmd_target t\<rparr>" "leds_ok s \<Longrightarrow> leds_ok t"
proof -
  have l: "set_led m v s = s\<lparr>led_states := led_states (set_led m v s)\<rparr>" for m v by (simp add: set_led_def)
  have "t = s\<lparr>led_states := led_states t, p_state := p_state t, cmd_target := cmd_target t\<rparr> \<and> (leds_ok s \<longrightarrow> leds_ok t)"
  proof (cases "p_state s")
    case WAIT_FOR_LED_VALUE
    then have "t = (set_led (cmd_target s - ch (CHR ''0'')) (c - ch (CHR ''0'')) s)\<lparr>p_state := WAIT_FOR_NEWLINE\<rparr>"
      using assms by (simp add: handle_user_input_def)
    then show ?thesis using set_led_high [where s = s] by (subst (asm) l) (auto simp: leds_ok_def)
  qed (use assms in \<open>auto simp: handle_user_input_def split: if_splits\<close>)
  then show "t = s\<lparr>led_states := led_states t, p_state := p_state t, cmd_target := cmd_target t\<rparr>" "leds_ok s \<Longrightarrow> leds_ok t"
    by simp_all
qed

lemma inv_input:
  assumes "fw_inv (Input, s)" "app_input r s = (k, out, t)"
  shows "fw_inv (Lock k, t)"
proof (cases "r < 0")
  case False
  then have h: "handle_user_input (word_of_int r) s = (k, out, t)" using assms by (simp add: app_input_def)
  have "fw_inv (Lock k, s\<lparr>led_states := led_states t, p_state := p_state t, cmd_target := cmd_target t\<rparr>)"
    using assms(1) handle_other(2) [OF h] by (simp add: fw_inv_def) (simp add: leds_ok_def)
  then show ?thesis using handle_other(1) [OF h] by simp
qed (use assms in \<open>simp add: fw_inv_def app_input_def\<close>)

text \<open>The locking sequence.\<close>

lemma step_numbers: "(n :: u16) \<le> 4 \<Longrightarrow> n \<noteq> 0 \<Longrightarrow> n = 1 \<or> n = 2 \<or> n = 3 \<or> n = 4"
  by unat_arith

lemmas lock_defs = do_next_locc_step_def do_locc_step_def timer_is_expired_def set_wait_time_def

lemma power_locking [simp]: "powered (s\<lparr>is_locking := b\<rparr>) = powered s" "unpowered (s\<lparr>is_locking := b\<rparr>) = unpowered s"
  by (simp_all add: powered_def unpowered_def io_level_def)

lemma next_step_ok:
  assumes ok: "locking_ok s" "is_locking s" and n: "do_next_locc_step past s = (out, r, t)"
  shows "locking_ok (t\<lparr>is_locking := r\<rparr>)"
proof -
  from ok consider "current_locc_step s = 1" | "current_locc_step s = 2" | "current_locc_step s = 3" | "current_locc_step s = 4"
    using step_numbers [of "current_locc_step s"] by (auto simp: locking_ok_def)
  then show ?thesis using ok n
    by cases (auto simp: lock_defs locking_ok_def word_gt_0 Let_def split: if_splits)
qed

lemma locc_step_other:
  "pins_ok (do_locc_step past k s) = pins_ok s" "leds_ok (do_locc_step past k s) = leds_ok s"
  "row_driven (do_locc_step past k s) = row_driven s" "fw_keypad (do_locc_step past k s) = fw_keypad s"
  by (simp_all add: do_locc_step_def set_wait_time_def cyl_eqs Let_def pins_ok_def reg_simps)

lemma next_step_other:
  assumes n: "do_next_locc_step past s = (out, r, t)"
  shows "pins_ok t = pins_ok s" "leds_ok t = leds_ok s" "row_driven t = row_driven s" "fw_keypad t = fw_keypad s"
  using n by (auto simp: do_next_locc_step_def locc_step_other Let_def split: if_splits)

lemma app_lock_cases:
  assumes "app_lock past k s = (out, t)"
  obtains (idle) "\<not> is_locking s" "k \<noteq> 1" "out = []" "t = s"
  | (running) s1 o1 r t1 where "s1 = (if is_locking s then s else start_locking (s\<lparr>is_locking := True\<rparr>))" "is_locking s1"
      "is_locking s \<or> k = 1" "do_next_locc_step past s1 = (o1, r, t1)" "t = t1\<lparr>is_locking := r\<rparr>"
proof (cases "is_locking s \<or> k = 1")
  case True
  let ?s1 = "if is_locking s then s else start_locking (s\<lparr>is_locking := True\<rparr>)"
  obtain o1 r t1 where n: "do_next_locc_step past ?s1 = (o1, r, t1)" by (metis prod_cases3)
  have l: "is_locking ?s1" by (simp add: start_locking_def)
  have "t = t1\<lparr>is_locking := r\<rparr>" using assms True n l by (auto simp: app_lock_def Let_def split: if_splits prod.splits)
  then show ?thesis using running [OF refl l True n] by blast
next
  case False
  then show ?thesis using idle assms by (auto simp: app_lock_def)
qed

lemma start_ok: "locking_ok s \<Longrightarrow> \<not> is_locking s \<Longrightarrow> locking_ok (start_locking (s\<lparr>is_locking := True\<rparr>))"
  by (simp add: start_locking_def locking_ok_def)

lemma lock_ok:
  assumes "locking_ok s" "app_lock past k s = (out, t)"
  shows "locking_ok t"
  using assms(2)
proof (cases rule: app_lock_cases)
  case (running s1 o1 r t1)
  then have "locking_ok s1" using assms(1) start_ok by simp
  from next_step_ok [OF this running(2,4)] show ?thesis by (simp add: running)
qed (use assms(1) in simp)

lemma inv_lock:
  assumes inv: "fw_inv (Lock k, s)" and a: "app_lock past k s = (out, t)"
  shows "fw_inv (Scan, t)"
  using a
proof (cases rule: app_lock_cases)
  case (running s1 o1 r t1)
  have s1: "pins_ok s1 = pins_ok s" "leds_ok s1 = leds_ok s" "row_driven s1 = row_driven s" "fw_keypad s1 = fw_keypad s"
    by (auto simp: running(1) start_locking_def)
  show ?thesis using inv lock_ok [OF _ a] next_step_other [OF running(4)] s1 by (simp add: fw_inv_def running(5))
qed (use inv in \<open>simp add: fw_inv_def\<close>)

lemma inv_scan: "fw_inv (Scan, s) \<Longrightarrow> app_scan pind pinc s = (out, t) \<Longrightarrow> fw_inv (Shift, t)"
  using keypad_inv_scan [of "fw_keypad s" pind] by (auto simp: fw_inv_def app_scan_def split: prod.splits)

lemma selector_bit: "r < 4 \<Longrightarrow> n < 4 \<Longrightarrow> bit (push_bit r 0x10 :: u8) (4 + n) \<longleftrightarrow> n = r"
proof -
  assume r: "r < 4" "n < 4"
  have "(0x10 :: u8) = push_bit 4 1" by simp
  then have "(push_bit r 0x10 :: u8) = push_bit (r + 4) 1" by (simp only: push_bit_push_bit)
  then show ?thesis using r by (simp add: bit_simps)
qed

lemma shift_power: "powered (app_shift s) = powered s" "unpowered (app_shift s) = unpowered s"
    "current_locc_step (app_shift s) = current_locc_step s" "is_locking (app_shift s) = is_locking s"
    "wait_ticks (app_shift s) = wait_ticks s"
  by (simp_all add: powered_def unpowered_def io_level_def pin_defs app_shift_def bit_simps)

lemma inv_shift:
  assumes "fw_inv (Shift, s)"
  shows "fw_inv (Usb, app_shift s)"
proof -
  let ?k = "fw_keypad s"
  have k: "keypad_inv ?k" using assms by (simp add: fw_inv_def)
  then have r: "unat (kp_row ?k) < 4" "matrix_selector ?k = push_bit (unat (kp_row ?k)) 0x10"
    by (simp_all add: keypad_inv_def word_less_nat_alt)
  have "bit (SPDR (app_shift s)) (4 + n) \<longleftrightarrow> n \<noteq> unat (kp_row ?k)" if n: "n < 4" for n
  proof -
    have "bit (0xF0 :: u8) (4 + n)" using n by (auto simp: less_Suc_eq numeral_eq_Suc)
    moreover have "\<not> bit (led_states s) (4 + n)" using assms by (simp add: fw_inv_def leds_ok_def)
    ultimately show ?thesis using r selector_bit [OF r(1) n] n by (simp add: app_shift_def bit_simps)
  qed
  then have "row_driven (app_shift s)" by (simp add: row_driven_def app_shift_def)
  moreover have "locking_ok (app_shift s)" "pins_ok (app_shift s)" "leds_ok (app_shift s)"
    using assms by (simp_all add: fw_inv_def locking_ok_def shift_power) (simp_all add: app_shift_def pins_ok_def bit_simps)
  ultimately show ?thesis using k by (simp add: fw_inv_def) (simp add: app_shift_def)
qed

lemma tick_ok: "locking_ok s \<Longrightarrow> locking_ok (TIMER0_OVF_vect s)"
  by (auto simp: TIMER0_OVF_vect_def Let_def locking_ok_def word_gt_0 intro: tick_le)

lemma inv_tick: "fw_inv (p, s) \<Longrightarrow> fw_inv (p, TIMER0_OVF_vect s)"
  using tick_ok [of s] by (auto simp: fw_inv_def) (auto simp: TIMER0_OVF_vect_def Let_def)

lemma inv_step:
  assumes "fw_step im past c c'" "fw_inv c"
  shows "fw_inv c'"
  using assms
proof cases
  case (input e s k s')
  obtain r u where r: "CDC_Device_ReceiveByte e (usb s) = (r, u)" by fastforce
  obtain k' out t where a: "app_input r s = (k', out, t)" by (metis prod_cases3)
  have "k' = k" "\<exists>u. s' = t\<lparr>usb := u\<rparr>" using input(3) frame_input_eq [OF r a] by auto
  then show ?thesis using input assms(2) inv_input [OF _ a] by auto
next
  case (lock e k s s')
  obtain out t where a: "app_lock past k s = (out, t)" by fastforce
  have "\<exists>u. s' = t\<lparr>usb := u\<rparr>" using lock(3) frame_lock_eq [OF a] by auto
  then show ?thesis using lock assms(2) inv_lock [OF _ a] by auto
next
  case (scan e pind pinc s s')
  obtain out t where a: "app_scan pind pinc s = (out, t)" by fastforce
  have "\<exists>u. s' = t\<lparr>usb := u\<rparr>" using scan(3) frame_scan_eq [OF a] by auto
  then show ?thesis using scan assms(2) inv_scan [OF _ a] by auto
next
  case (shift e s s')
  have "\<exists>u. s' = (app_shift (delay_us 8 s))\<lparr>usb := u\<rparr>"
    using shift(3) shiftreg_eq [where e = e and s = "delay_us 8 s" and u = "usb (delay_us 8 s)"]
    by (cases "wait_bit e SPSR SPIF (usb (delay_us 8 s))") auto
  then show ?thesis using shift assms(2) inv_shift [of "delay_us 8 s"] by auto
next
  case (task e s s')
  have "\<exists>u. s' = s\<lparr>usb := u\<rparr>" using task(3) by (auto simp: frame_usb_def bind_eq_Some_conv)
  moreover have "fw_inv (Input, s)" using task assms(2) by (simp add: fw_inv_def)
  ultimately show ?thesis using task by auto
qed (use assms(2) inv_tick in auto)

interpretation sys: step_relation "fw_step im past" fw_inv for im past
  by unfold_locales (rule inv_step)

subsection \<open>The initial state\<close>

lemma fw_init_fields:
  "DDRD fw_init = 0" "PORTD fw_init = 0" "SPDR fw_init = 0" "wait_ticks fw_init = 0" "current_locc_step fw_init = 0"
  "led_states fw_init = 7" "is_locking fw_init = False" "fw_keypad fw_init = keypad_init"
  by (simp_all add: fw_init_def fw.defs locc.defs locc_init_def)

lemma setup_fields:
  assumes "setup_fw e b1 b2 fw_init = Some s"
  shows "DDRD s = cbi 5 (sbi 6 (cbi 5 0x10))" "PORTD s = sbi 6 (sbi 5 (cbi 6 (sbi 5 0x10))) OR 0xF" "SPDR s = 0"
    "wait_ticks s = 0" "current_locc_step s = 0" "led_states s = 7" "\<not> is_locking s" "fw_keypad s = keypad_init"
proof -
  let ?s = "fw_init\<lparr>MCUSR := cbi WDRF (MCUSR fw_init), WDTCSR := 0, CLKPR := 0, DDRB := DDRB fw_init OR 7, DDRD := DDRD fw_init OR 16,
     PORTD := PORTD fw_init OR 16, SPCR := push_bit 6 1 OR push_bit 4 1 OR push_bit 3 1 OR push_bit 2 1\<rparr>"
  obtain u where u: "USB_Init e (usb ?s) = Some u"
    using assms by (auto simp: setup_fw_def bind_eq_Some_conv)
  obtain x v where v: "RingBuffer_InitBuffer b1 128 u = (x, v)" by fastforce
  obtain y w where w: "RingBuffer_InitBuffer b2 128 v = (y, w)" by fastforce
  have "s = (keypad_setup (loccSetup (dial_setup (?s\<lparr>USB_input_Buffer := x, USB_output_Buffer := y\<rparr>))))\<lparr>usb := GlobalInterruptEnable w\<rparr>"
    using assms u v w by (simp add: setup_fw_def)
  then show "DDRD s = cbi 5 (sbi 6 (cbi 5 0x10))" "PORTD s = sbi 6 (sbi 5 (cbi 6 (sbi 5 0x10))) OR 0xF" "SPDR s = 0"
    "wait_ticks s = 0" "current_locc_step s = 0" "led_states s = 7" "\<not> is_locking s" "fw_keypad s = keypad_init"
    by (simp_all add: keypad_setup_def loccSetup_def dial_setup_def powerup_locc_eq Let_def fw_init_fields pin_defs KEYPAD_COLS_FIRST_PIN_def)
qed

lemma setup_inv:
  assumes "setup_fw e b1 b2 fw_init = Some s"
  shows "fw_inv (Input, s)"
proof -
  note f = setup_fields [OF assms]
  have b: "bit (DDRD s) 6" "bit (DDRD s) 4" "\<not> bit (DDRD s) 5" "bit (PORTD s) 4" "bit (PORTD s) 5" "bit (PORTD s) 6"
    by (simp_all add: f bit_or_iff reg_simps)
  have m: "(7 :: u8) = mask 3" by (simp add: mask_eq_exp_minus_1)
  have "leds_ok s" unfolding leds_ok_def f m by (simp only: bit_mask_iff) simp
  then show ?thesis using b f keypad_inv_init
    by (simp add: fw_inv_def locking_ok_def pins_ok_def row_driven_def powered_def io_level_def pin_defs)
qed

text \<open>
  C2. The invariant of the running firmware. After set-up, and then after any interleaving of the parts of
  the main loop with the timer interrupt and the USB interrupts, whatever the hardware and the pins do: the
  locking sequence is in one of its steps and the application's flag says exactly whether it runs; the
  cylinder is powered and its data line high, except in the step after the power-down, where both are low;
  the wait never exceeds 15 seconds; the latch and supply pins stay outputs and the latch stays high; the LED
  bits stay below the row bits; and whenever the keypad is scanned the shift register either has not
  been written yet or pulls exactly the row low that the scan is for.
\<close>

theorem system_invariant:
  assumes "setup_fw e b1 b2 fw_init = Some s" and "(fw_step im past)\<^sup>*\<^sup>* (Input, s) (p, s')"
  shows "locking_ok s' \<and> pins_ok s' \<and> leds_ok s' \<and> keypad_inv (fw_keypad s') \<and> (p = Scan \<longrightarrow> row_driven s')"
  using sys.inv_reachable [OF assms(2) setup_inv [OF assms(1)]] by (simp add: fw_inv_def)

definition pll_bus :: env where
  "pll_bus h r = (if r = PLLCSR then 1 else ready_bus h r)"

lemma pll_bus_ready: "wait_pll pll_bus s \<noteq> None"
  by (subst wait_pll.simps) (simp add: USB_PLL_IsReady_def io_defs pll_bus_def)

lemma control_size: "Endpoint_BytesToEPSizeMask 8 = Some 0"
  by (simp add: Endpoint_BytesToEPSizeMask_def) (subst ep_size_loop.simps, simp)

lemma init_returns: "USB_Init pll_bus s \<noteq> None"
  by (simp add: USB_Init_def USB_ResetInterface_def USB_Init_Device_def Let_def bind_eq_None_conv pll_bus_ready
      Endpoint_ConfigureEndpoint_def USB_Device_ControlEndpointSize_def control_size split: prod.split del: not_None_eq)

lemma setup_returns: "setup_fw pll_bus b1 b2 s \<noteq> None"
  by (simp add: setup_fw_def Let_def bind_eq_None_conv init_returns split: prod.split del: not_None_eq)

theorem system_invariant_witness:
  "\<exists>s. setup_fw pll_bus 0x200 0x280 fw_init = Some s \<and> locking_ok (TIMER0_OVF_vect s)"
proof -
  obtain s where s: "setup_fw pll_bus 0x200 0x280 fw_init = Some s" using setup_returns by blast
  have "(fw_step im 0)\<^sup>*\<^sup>* (Input, s) (Input, TIMER0_OVF_vect s)" for im by (blast intro: tick)
  from system_invariant [OF s this] s show ?thesis by blast
qed

end
