(* ===== verification/Locking_Facts.thy ===== *)
theory Locking_Facts
  imports System
begin

section \<open>The course of an opening\<close>

text \<open>
  An opening as the application runs it, in rounds of one timer tick and one pass of the locking part of the
  main loop. \<open>left\<close> counts the rounds that are left; \<open>stage\<close> is the step as a function of them.
\<close>

definition lock_round :: "u16 \<Rightarrow> fw \<Rightarrow> fw" where
  "lock_round past s = snd (app_lock past 0 (TIMER0_OVF_vect s))"

definition in_time :: "fw \<Rightarrow> bool" where
  "in_time s \<longleftrightarrow> locking_ok s \<and> (is_locking s \<longrightarrow> wait_ticks s \<noteq> 0)
     \<and> (current_locc_step s = 2 \<longrightarrow> wait_ticks s \<le> 59) \<and> (current_locc_step s = 4 \<longrightarrow> wait_ticks s \<le> 5000)"

definition left :: "fw \<Rightarrow> nat" where
  "left s = (if current_locc_step s = 1 then unat (wait_ticks s) + 20059
     else if current_locc_step s = 2 then unat (wait_ticks s) + 20000
     else if current_locc_step s = 3 then unat (wait_ticks s) + 5000
     else if current_locc_step s = 4 then unat (wait_ticks s) else 0)"

definition stage :: "nat \<Rightarrow> u16" where
  "stage n = (if 20059 < n then 1 else if 20000 < n then 2 else if 5000 < n then 3 else if 0 < n then 4 else 0)"

lemma stage_left: "in_time s \<Longrightarrow> current_locc_step s = stage (left s)"
proof -
  assume o: "in_time s"
  have w: "unat (wait_ticks s) \<noteq> 0" if "is_locking s" using o that by (simp add: in_time_def unat_eq_zero)
  consider "current_locc_step s = 0" | "current_locc_step s = 1" | "current_locc_step s = 2" | "current_locc_step s = 3"
    | "current_locc_step s = 4"
    using o step_numbers by (auto simp: in_time_def locking_ok_def)
  then show ?thesis
    by cases (use o w in \<open>auto simp: in_time_def locking_ok_def left_def stage_def word_le_nat_alt\<close>)
qed

lemma in_time_lock:
  assumes "locking_ok s" "is_locking s" "do_next_locc_step past s = (out, r, t)"
    and w: "current_locc_step s = 2 \<Longrightarrow> wait_ticks s \<le> 59" "current_locc_step s = 4 \<Longrightarrow> wait_ticks s \<le> 5000"
  shows "in_time (t\<lparr>is_locking := r\<rparr>)" "left (t\<lparr>is_locking := r\<rparr>) = left s"
proof -
  note ok = next_step_ok [OF assms(1-3)]
  from assms consider "current_locc_step s = 1" | "current_locc_step s = 2" | "current_locc_step s = 3" | "current_locc_step s = 4"
    using step_numbers [of "current_locc_step s"] by (auto simp: locking_ok_def)
  then have "(is_locking (t\<lparr>is_locking := r\<rparr>) \<longrightarrow> wait_ticks t \<noteq> 0) \<and> (current_locc_step t = 2 \<longrightarrow> wait_ticks t \<le> 59)
      \<and> (current_locc_step t = 4 \<longrightarrow> wait_ticks t \<le> 5000) \<and> left (t\<lparr>is_locking := r\<rparr>) = left s"
    by cases (use assms(2,3) w in \<open>auto simp: lock_defs left_def word_gt_0 Let_def split: if_splits\<close>)
  then show "in_time (t\<lparr>is_locking := r\<rparr>)" "left (t\<lparr>is_locking := r\<rparr>) = left s"
    using ok by (simp_all add: in_time_def)
qed

lemma left_tick:
  assumes "in_time s" "is_locking s"
  shows "left (TIMER0_OVF_vect s) = left s - 1"
proof -
  have "wait_ticks s \<noteq> 0" using assms by (simp add: in_time_def)
  then have "unat (wait_ticks s) > 0" "unat (wait_ticks s - 1) = unat (wait_ticks s) - 1"
    by (simp_all add: unat_gt_0 unat_pred)
  then show ?thesis using assms by (simp add: in_time_def left_def TIMER0_OVF_vect_def Let_def word_gt_0)
qed

lemma tick_fields: "is_locking (TIMER0_OVF_vect s) = is_locking s" "current_locc_step (TIMER0_OVF_vect s) = current_locc_step s"
  "wait_ticks (TIMER0_OVF_vect s) = wait_ticks s - (if wait_ticks s = 0 then 0 else 1)"
  by (simp_all add: TIMER0_OVF_vect_def Let_def word_gt_0)

lemma in_time_round:
  assumes "in_time s"
  shows "in_time (lock_round past s) \<and> left (lock_round past s) = left s - 1"
proof -
  let ?t = "TIMER0_OVF_vect s"
  have ok: "locking_ok ?t" using assms tick_ok by (simp add: in_time_def)
  obtain out t where a: "app_lock past 0 ?t = (out, t)" by fastforce
  then have t: "lock_round past s = t" by (simp add: lock_round_def)
  have "in_time t \<and> left t = left s - 1"
    using a
  proof (cases rule: app_lock_cases)
    case idle
    then have "current_locc_step s = 0" using assms by (simp add: tick_fields in_time_def locking_ok_def)
    then show ?thesis using idle ok by (simp add: in_time_def left_def tick_fields)
  next
    case (running s1 o1 r t1)
    then have l: "is_locking s" "s1 = ?t" by (simp_all add: tick_fields)
    have w: "current_locc_step s1 = 2 \<Longrightarrow> wait_ticks s1 \<le> 59" "current_locc_step s1 = 4 \<Longrightarrow> wait_ticks s1 \<le> 5000"
      using assms l by (auto simp: in_time_def tick_fields intro: tick_le)
    show ?thesis
      using in_time_lock [OF _ running(2,4) w] ok left_tick [OF assms l(1)] running(5) l(2) by simp
  qed
  then show ?thesis by (simp add: t)
qed

lemma in_time_start:
  assumes "locking_ok s" "\<not> is_locking s"
  shows "in_time (snd (app_lock past 1 s)) \<and> left (snd (app_lock past 1 s)) = unat (wait_ticks s) + 20059"
proof -
  obtain out t where a: "app_lock past 1 s = (out, t)" by fastforce
  then have "in_time t \<and> left t = unat (wait_ticks s) + 20059"
  proof (cases rule: app_lock_cases)
    case (running s1 o1 r t1)
    then have s1: "s1 = start_locking (s\<lparr>is_locking := True\<rparr>)" using assms by simp
    have f: "current_locc_step s1 = 1" "wait_ticks s1 = wait_ticks s" by (simp_all add: s1 start_locking_def)
    then show ?thesis using in_time_lock [OF _ running(2,4)] start_ok [OF assms] running(5) s1
      by (simp add: left_def)
  qed simp
  with a show ?thesis by simp
qed



end
