(* ===== verification/Spec2Isabelle.thy ===== *)
theory Spec2Isabelle
  imports Midi_Device Keypad Dial Lock_Control Ring_Buffer Hid_Report Hid_Invariant Firmware Endpoint_Facts Stream_Facts
    Control_Facts Command_Parser Cdc_Facts Locking_Facts Request_Facts Enumeration_Facts
    Descriptor_Facts
begin

text \<open>
  \<^bold>\<open>A verification development for the c-locc firmware.\<close>

  The firmware runs on an ATmega8U2 and opens an electronic lock cylinder. It takes commands from a host over
  a virtual serial port, scans a matrix keypad, a rotary dial and a hook switch, reports what they do to the
  host, drives three LEDs over a shift register and, on command, powers the cylinder and sends it the opening
  telegram. Under the application lies the USB device stack of the LUFA library, in \<^verbatim>\<open>src/lufa/LUFA\<close>.

  \<^bold>\<open>How the parts interact.\<close> \<^verbatim>\<open>main\<close> sets up the hardware and calls \<^verbatim>\<open>loop\<close> for ever. One
  call is a frame: take a received byte to the command parser; start or continue an opening; scan the keypad
  and the dial; write the shift register; run the USB tasks. The timer interrupt counts the waiting times
  down, the general USB interrupt follows the bus (reset, suspend, wake up), and the endpoint interrupt serves
  the control requests by which the host enumerates the device and sets the serial line.

  \<^bold>\<open>State and effects.\<close> C structures are records with the source's field names, enumerations are
  datatypes, integers are words of their width (\<^verbatim>\<open>int\<close> has 16 bits in this build). The application state
  \<open>fw\<close> extends \<open>locc\<close>, the globals of \<^verbatim>\<open>locc.c\<close>, which extends \<open>mcu\<close>, the port, SPI and
  timer registers; it holds the keypad, the dial, the ring buffers and the USB state \<open>usb_dev\<close>. A USB
  register is volatile, so the USB side keeps the history of its register accesses, newest first, and the
  hardware with the host behind it is a parameter \<open>env\<close> that gives the value of every read from the
  history so far. A delay appends the level of the data line and its duration to \<open>wave\<close>.

  \<^bold>\<open>Loops and fuel.\<close> No definition uses fuel. Bounded loops are structural recursion or have a
  termination proof; a loop that polls the hardware is a \<^verbatim>\<open>partial_function\<close> into \<open>option\<close>, where
  \<open>None\<close> means that it never ends. The liveness theorems show \<open>Some\<close> under a stated hypothesis on the
  hardware, and their witnesses give a concrete \<open>env\<close> that meets it.

  \<^bold>\<open>The application.\<close>
  \<^item> \<^verbatim>\<open>Locc_Prelude\<close>: widths, bits, characters, and the locales \<open>step_system\<close> and
    \<open>step_relation\<close>, which carry an invariant along every run.
  \<^item> \<^verbatim>\<open>Cylinder\<close> (\<^verbatim>\<open>locc.c\<close>: power, wake-up pulse, telegrams): the waveform on the data line
    decodes to the telegram that was sent, and an opening sends one byte more than the array holds.
  \<^item> \<^verbatim>\<open>Lock_Control\<close> (\<^verbatim>\<open>locc.c\<close>: \<^verbatim>\<open>loccPoll\<close>, \<^verbatim>\<open>do_next_locc_step\<close>, the timer): the
    state machine keeps the cylinder's power and its state in agreement and comes to rest again.
  \<^item> \<^verbatim>\<open>Debounce\<close>: the counter technique both scanners use, as the locale \<open>debouncer\<close>.
    \<^verbatim>\<open>Keypad\<close> (\<^verbatim>\<open>keypad.c\<close>) and \<^verbatim>\<open>Dial\<close> (\<^verbatim>\<open>dial.c\<close>) interpret it: a key is reported once
    for each press, a dialled digit is the number of its impulses, each change of a hook level held long
    enough is reported once, and the end of a shorter one is lost.
  \<^item> \<^verbatim>\<open>Firmware\<close> (\<^verbatim>\<open>c_locc.c\<close>): the command parser, the parts of a frame, \<^verbatim>\<open>setup\<close>, \<^verbatim>\<open>loop\<close>.
    \<^verbatim>\<open>Command_Parser\<close> gives the command language as a grammar and shows that the parser refines it.
  \<^item> \<^verbatim>\<open>Frame_Facts\<close>: a frame without USB as the total function \<open>app_frame\<close>; the main loop refines
    it, and over any number of frames each received byte is consumed once and in order and the output is
    sent once and in order. \<^verbatim>\<open>System\<close>: frames and interrupts interleaved as a step relation, and what
    holds in every reachable state. \<^verbatim>\<open>Locking_Facts\<close>: the course of an opening in time.

  \<^bold>\<open>The USB stack of the firmware.\<close>
  \<^item> \<^verbatim>\<open>Lufa_Common\<close> (\<^verbatim>\<open>Common.h\<close>, \<^verbatim>\<open>Endianness.h\<close>), \<^verbatim>\<open>Ring_Buffer\<close>
    (\<^verbatim>\<open>RingBuffer.h\<close>): the ring buffer is a bounded queue, by the locale \<open>byte_queue\<close>.
  \<^item> \<^verbatim>\<open>Usb_Io\<close>, \<^verbatim>\<open>Endpoint\<close>, \<^verbatim>\<open>Endpoint_Stream\<close>, \<^verbatim>\<open>Usb_Controller\<close>
    (\<^verbatim>\<open>Core/AVR8\<close> and its templates): registers, endpoints, data streams and the controller.
    \<^verbatim>\<open>Endpoint_Facts\<close>, \<^verbatim>\<open>Stream_Facts\<close>, \<^verbatim>\<open>Control_Facts\<close>: waiting ends, a stream moves each
    byte once and in order for every direction and memory (the locales \<open>writer\<close> and \<open>reader\<close>, with ten
    interpretations), and the data stage of a control transfer is sent in packets.
  \<^item> \<^verbatim>\<open>Cdc_Device\<close> (\<^verbatim>\<open>CDCClassDevice.c\<close>) with \<^verbatim>\<open>Usb_Trace\<close> and \<^verbatim>\<open>Cdc_Facts\<close>: a byte is
    sent or received once, and the line encoding survives a round trip.
  \<^item> \<^verbatim>\<open>Descriptors\<close> (\<^verbatim>\<open>Descriptors.c\<close>, \<^verbatim>\<open>StdDescriptors.h\<close>, \<^verbatim>\<open>ConfigDescriptors.c\<close>),
    \<^verbatim>\<open>Device_Requests\<close> (\<^verbatim>\<open>DeviceStandardReq.c\<close>), \<^verbatim>\<open>Usb_Isr\<close>
    (\<^verbatim>\<open>USBInterrupt_AVR8.c\<close>). \<^verbatim>\<open>Request_Facts\<close>: exactly the supported requests are acknowledged.
    \<^verbatim>\<open>Enumeration_Facts\<close>: the address takes effect after the acknowledgement, the device
    state after a configuration request, with the case where it differs from the USB specification, and the endpoint interrupt restores the selected endpoint.
    \<^verbatim>\<open>Descriptor_Facts\<close>: the bytes the host receives are the descriptor, the configuration descriptor
    agrees with itself and with the driver's endpoints, and the descriptor search finds the first match.

  \<^bold>\<open>Class drivers of the library that the firmware does not call.\<close>
  \<^item> \<^verbatim>\<open>Hid_Parser\<close>, \<^verbatim>\<open>Hid_Invariant\<close>, \<^verbatim>\<open>Hid_Report\<close> (\<^verbatim>\<open>HIDParser.c\<close>): a
    descriptor whose items fit its size is parsed to the end, what the parser returns lies within its arrays,
    an item writes outside them exactly when it is a PUSH, and report values are read and written at their bits.
  \<^item> \<^verbatim>\<open>Hid_Device\<close>, \<^verbatim>\<open>Hid_Device_Facts\<close> (\<^verbatim>\<open>HIDClassDevice.c\<close>): a report is sent when it
    changed, when the driver is told to or when the idle time is over, and the settings survive a round trip.
    \<^verbatim>\<open>Midi_Device\<close> (\<^verbatim>\<open>MIDIClassDevice.c\<close>): event packets.

  \<^bold>\<open>What the model takes as given.\<close>
  \<^item> An interrupt handler runs as one step between two parts of a frame. The interleavings inside a part are
    not modelled, nor a timer interrupt between the byte reads of the 32-bit \<^verbatim>\<open>wait_ticks\<close>.
  \<^item> What the source leaves open is a parameter: the addresses the linker chooses (\<open>layout\<close>), the
    signature row of the chip, the word behind the telegram array (\<open>past\<close>), the contents of
    uninitialised locals, the stack addresses of buffers.
  \<^item> Callbacks of an application that is not in the repository (the HID report callbacks, the HID filter, the
    stream callback) are parameters. The callbacks of this application are modelled.
  \<^item> Machine time exists only as timer interrupts and as delays in the waveform.

  \<^bold>\<open>Not modelled.\<close>
  \<^item> The demos, projects and bootloaders of LUFA are other programs.
  \<^item> Host mode, and the code for the XMEGA and UC3 processors, are removed by the preprocessor in this build;
    so is the part of \<^verbatim>\<open>ConfigDescriptors.c\<close> that fetches a descriptor as a host.
  \<^item> The Audio, Mass Storage and RNDIS device drivers are compiled with the library and never called by the
    firmware, so no property of it rests on them. Most of what they do is in callbacks of an application, and
    loops of the mass storage driver end on a flag that an interrupt sets while they run, which needs a finer
    interleaving than the one above.
  \<^item> The board, peripheral and remaining miscellaneous drivers are not named by the makefile.
  \<^item> \<^verbatim>\<open>foo.py\<close> is a serial I/O script for the host.
\<close>

end
